(* ===== verification/Prelude.thy ===== *)
theory Prelude
  imports Main "HOL-Library.Char_ord" "HOL-Library.List_Lexorder"
begin

text \<open>
  Shared vocabulary of the development. Both programs of the repository are Python, so
  every fallible step of the model returns a value of \<open>'a py_result\<close>: \<open>Inl\<close> of the
  Python exception class the interpreter would raise, or \<open>Inr\<close> of the value. The
  collection \<open>py_result_simps\<close> gathers the rewrite rules that evaluate a chain of such
  steps, and the list and string lemmas below are the ones the component theories share.
  Characters are Isabelle's 8-bit \<open>char\<close>, read as the Unicode code points U+0000 to
  U+00FF (Latin-1); strings are \<open>char list\<close>, compared by code point as Python compares
  \<open>str\<close> (\<open>Char_ord\<close>, \<open>List_Lexorder\<close>).
\<close>

named_theorems py_result_simps "rules that evaluate chains of fallible Python steps"

section \<open>Python exceptions and fallible results\<close>

datatype py_exc =
    TypeError
  | AttributeError
  | KeyError
  | IndexError
  | ValueError
  | ZeroDivisionError
  | FileNotFoundError
  | FileExistsError
  | NotADirectoryError
  | IsADirectoryError
  | OSError
  | ShutilError
  | BadRequest
  | SystemExit

text \<open>\<open>OSError\<close> stands for the other failures of a system call, \<open>ShutilError\<close> for
  \<open>shutil.Error\<close>, \<open>BadRequest\<close> for the HTTP error Flask raises when a request body
  is not JSON, and \<open>SystemExit\<close> for \<open>argparse\<close> rejecting the command line.\<close>

type_synonym 'a py_result = "py_exc + 'a"

text \<open>Sequencing: the second step runs only when the first returned a value.\<close>

definition res_bind :: "'a py_result \<Rightarrow> ('a \<Rightarrow> 'b py_result) \<Rightarrow> 'b py_result" where
  "res_bind m f = (case m of Inl e \<Rightarrow> Inl e | Inr x \<Rightarrow> f x)"

section \<open>Decimal printing\<close>

text \<open>
  Python's \<open>str\<close> of an \<open>int\<close>: the decimal digits, most significant first, with a
  leading minus sign for negative values and no leading zeros.
\<close>

definition digit_char :: "nat \<Rightarrow> char" where
  "digit_char d = char_of (48 + d)"

fun show_nat :: "nat \<Rightarrow> string" where
  "show_nat n = (if n < 10 then [digit_char n] else show_nat (n div 10) @ [digit_char (n mod 10)])"

declare show_nat.simps [simp del]

definition show_int :: "int \<Rightarrow> string" where
  "show_int i = (if i < 0 then CHR ''-'' # show_nat (nat (- i)) else show_nat (nat i))"

section \<open>Lists and strings\<close>

text \<open>\<open>join sep xs\<close> is Python's \<open>sep.join(xs)\<close>.\<close>

fun join :: "string \<Rightarrow> string list \<Rightarrow> string" where
  "join sep [] = []"
| "join sep [x] = x"
| "join sep (x # y # zs) = x @ sep @ join sep (y # zs)"

declare join.simps(3) [simp del]

section \<open>Properties: Python exceptions and fallible results\<close>

lemma res_bind_Inl [simp, py_result_simps]: "res_bind (Inl e) f = Inl e"
  by (simp add: res_bind_def)

lemma res_bind_Inr [simp, py_result_simps]: "res_bind (Inr x) f = f x"
  by (simp add: res_bind_def)

lemma res_bind_eq_Inr [py_result_simps]:
  "res_bind m f = Inr y \<longleftrightarrow> (\<exists>x. m = Inr x \<and> f x = Inr y)"
  by (cases m) auto

lemma res_bind_eq_Inl [py_result_simps]:
  "res_bind m f = Inl e \<longleftrightarrow> (m = Inl e \<or> (\<exists>x. m = Inr x \<and> f x = Inl e))"
  by (cases m) auto

lemma res_bind_cong [fundef_cong]:
  "m = m' \<Longrightarrow> (\<And>x. m' = Inr x \<Longrightarrow> f x = g x) \<Longrightarrow> res_bind m f = res_bind m' g"
  by (cases m) auto

text \<open>A chain whose last step only builds a value fails exactly when one of its
  fallible steps fails.\<close>

lemma isl_res_bind_Inr [simp, py_result_simps]: "isl (res_bind m (\<lambda>x. Inr (g x))) = isl m"
  by (cases m) auto

lemma isl_res_bind2_Inr [simp, py_result_simps]:
  "isl (res_bind m (\<lambda>x. res_bind n (\<lambda>y. Inr (g x y)))) = (isl m \<or> isl n)"
  by (cases m; cases n) auto

section \<open>Properties: Decimal printing\<close>

lemma show_nat_small [simp]: "n < 10 \<Longrightarrow> show_nat n = [digit_char n]"
  by (simp add: show_nat.simps)

lemma show_nat_big: "\<not> n < 10 \<Longrightarrow> show_nat n = show_nat (n div 10) @ [digit_char (n mod 10)]"
  by (simp add: show_nat.simps [of n])

text \<open>Evaluation of the printer on literals, for the concrete witnesses.\<close>

lemma show_nat_numeral [simp]:
  "show_nat (numeral n) = (if numeral n < (10::nat) then [digit_char (numeral n)]
     else show_nat (numeral n div 10) @ [digit_char (numeral n mod 10)])"
  by (rule show_nat.simps)

lemma digit_char_simps [simp]:
  "digit_char 0 = CHR ''0''" "digit_char (Suc 0) = CHR ''1''" "digit_char 1 = CHR ''1''"
  "digit_char 2 = CHR ''2''" "digit_char 3 = CHR ''3''" "digit_char 4 = CHR ''4''"
  "digit_char 5 = CHR ''5''" "digit_char 6 = CHR ''6''" "digit_char 7 = CHR ''7''"
  "digit_char 8 = CHR ''8''" "digit_char 9 = CHR ''9''"
  by (simp_all add: digit_char_def char_of_eq_iff)

lemma replicate_numeral [simp]: "replicate (numeral n) x = x # replicate (pred_numeral n) x"
  by (simp add: numeral_eq_Suc)

lemma show_nat_ne [simp]: "show_nat n \<noteq> []"
  by (cases "n < 10") (simp_all add: show_nat_big)

lemma digit_char_digit: "d < 10 \<Longrightarrow> CHR ''0'' \<le> digit_char d \<and> digit_char d \<le> CHR ''9''"
  by (auto simp: digit_char_def less_eq_char_def)

lemma show_nat_digits: "\<forall>c \<in> set (show_nat n). CHR ''0'' \<le> c \<and> c \<le> CHR ''9''"
proof (induction n rule: show_nat.induct)
  case (1 n)
  then show ?case
    by (cases "n < 10") (simp_all add: show_nat_big digit_char_digit)
qed

lemma show_nat_colon_free [simp]: "CHR '':'' \<notin> set (show_nat n)"
  using show_nat_digits [of n] by (auto simp: less_eq_char_def)

lemma show_int_colon_free [simp]: "CHR '':'' \<notin> set (show_int i)"
  by (simp add: show_int_def)

section \<open>Properties: Lists and strings\<close>

lemma join_Cons_Cons [simp]: "join sep (x # xs) = (if xs = [] then x else x @ sep @ join sep xs)"
  by (cases xs) (simp_all add: join.simps)

lemma takeWhile_append_notin [simp]:
  "c \<notin> set xs \<Longrightarrow> takeWhile (\<lambda>x. x \<noteq> c) (xs @ c # ys) = xs"
  by (induction xs) auto

lemma map_fst_zip_map [simp]: "map fst (map (\<lambda>(k, v). (k, f k v)) d) = map fst d"
  by (induction d) auto

end
