(* ===== verification/PyValue.thy ===== *)
theory PyValue
  imports Prelude
begin

text \<open>
  The Python values the Model Hub handles: what \<open>yaml.safe_load\<close> returns for a
  configuration document, and what \<open>get_live_data\<close> builds from it. A \<open>dict\<close> is an
  association list in insertion order (Python 3.7+ dictionaries keep it); its keys are
  compared by Python's \<open>==\<close> on hashable values, where \<open>True == 1\<close> and
  \<open>False == 0\<close>. The operations are the interpreter's own: subscript read and write
  (\<open>obj[k]\<close>, \<open>obj[k] = v\<close>), iteration (\<open>for x in obj\<close>), \<open>dict.get\<close>,
  truthiness, \<open>str()\<close> and \<open>repr()\<close>, each raising the exception CPython raises.
  A YAML timestamp loads as a \<open>datetime.date\<close>; it is kept as \<open>PyDate\<close> because it is
  the one scalar of a safe-loaded document that \<open>json.dumps\<close> rejects. Floats, byte
  strings, sets and YAML aliases (shared sub-objects) are outside the model.
\<close>

datatype pyval =
    PyNone
  | PyBool bool
  | PyInt int
  | PyStr string
  | PyDate int int int
  | PyList "pyval list"
  | PyDict "(pyval \<times> pyval) list"

type_synonym pydict = "(pyval \<times> pyval) list"

section \<open>Hashing and key equality\<close>

fun hashable :: "pyval \<Rightarrow> bool" where
  "hashable (PyList _) = False"
| "hashable (PyDict _) = False"
| "hashable _ = True"

text \<open>\<open>bool\<close> is a subclass of \<open>int\<close>: as a key, \<open>True\<close> is the key \<open>1\<close>.\<close>

fun key_norm :: "pyval \<Rightarrow> pyval" where
  "key_norm (PyBool b) = PyInt (if b then 1 else 0)"
| "key_norm v = v"

section \<open>Dictionaries\<close>

text \<open>\<open>d.get(k)\<close> and \<open>d[k] = v\<close>: an existing equal key keeps its position and its
  original key object; a new key is appended.\<close>

fun dict_get :: "pydict \<Rightarrow> pyval \<Rightarrow> pyval option" where
  "dict_get [] k = None"
| "dict_get ((k', v) # d) k = (if key_norm k' = key_norm k then Some v else dict_get d k)"

fun dict_set :: "pydict \<Rightarrow> pyval \<Rightarrow> pyval \<Rightarrow> pydict" where
  "dict_set [] k v = [(k, v)]"
| "dict_set ((k', v') # d) k v =
     (if key_norm k' = key_norm k then (k', v) # d else (k', v') # dict_set d k v)"

definition dict_knorms :: "pydict \<Rightarrow> pyval list" where
  "dict_knorms d = map (key_norm \<circ> fst) d"

definition dict_keys_ok :: "pydict \<Rightarrow> bool" where
  "dict_keys_ok d \<longleftrightarrow> distinct (dict_knorms d) \<and> list_all (hashable \<circ> fst) d"

section \<open>Truthiness, iteration, subscripts\<close>

fun py_truthy :: "pyval \<Rightarrow> bool" where
  "py_truthy PyNone = False"
| "py_truthy (PyBool b) = b"
| "py_truthy (PyInt i) = (i \<noteq> 0)"
| "py_truthy (PyStr s) = (s \<noteq> [])"
| "py_truthy (PyDate _ _ _) = True"
| "py_truthy (PyList xs) = (xs \<noteq> [])"
| "py_truthy (PyDict d) = (d \<noteq> [])"

text \<open>\<open>for x in obj\<close>: the keys of a dict, the items of a list, the one-character
  strings of a str; any other value is not iterable.\<close>

fun py_iter :: "pyval \<Rightarrow> pyval list py_result" where
  "py_iter (PyDict d) = Inr (map fst d)"
| "py_iter (PyList xs) = Inr xs"
| "py_iter (PyStr s) = Inr (map (\<lambda>c. PyStr [c]) s)"
| "py_iter _ = Inl TypeError"

text \<open>An integer index into a sequence of length \<open>n\<close>, negative ones counting from the end.\<close>

definition py_index :: "nat \<Rightarrow> int \<Rightarrow> nat option" where
  "py_index n i = (let j = (if i < 0 then i + int n else i) in
     if 0 \<le> j \<and> j < int n then Some (nat j) else None)"

fun int_key :: "pyval \<Rightarrow> int option" where
  "int_key (PyInt i) = Some i"
| "int_key (PyBool b) = Some (if b then 1 else 0)"
| "int_key _ = None"

fun py_getitem :: "pyval \<Rightarrow> pyval \<Rightarrow> pyval py_result" where
  "py_getitem (PyDict d) k =
     (if \<not> hashable k then Inl TypeError
      else case dict_get d k of None \<Rightarrow> Inl KeyError | Some v \<Rightarrow> Inr v)"
| "py_getitem (PyList xs) k =
     (case int_key k of
        None \<Rightarrow> Inl TypeError
      | Some i \<Rightarrow> (case py_index (length xs) i of None \<Rightarrow> Inl IndexError | Some j \<Rightarrow> Inr (xs ! j)))"
| "py_getitem (PyStr s) k =
     (case int_key k of
        None \<Rightarrow> Inl TypeError
      | Some i \<Rightarrow> (case py_index (length s) i of None \<Rightarrow> Inl IndexError | Some j \<Rightarrow> Inr (PyStr [s ! j])))"
| "py_getitem _ k = Inl TypeError"

text \<open>\<open>obj[k] = v\<close> returns the updated object; \<open>str\<close> and the scalars do not support
  item assignment.\<close>

fun py_setitem :: "pyval \<Rightarrow> pyval \<Rightarrow> pyval \<Rightarrow> pyval py_result" where
  "py_setitem (PyDict d) k v = (if hashable k then Inr (PyDict (dict_set d k v)) else Inl TypeError)"
| "py_setitem (PyList xs) k v =
     (case int_key k of
        None \<Rightarrow> Inl TypeError
      | Some i \<Rightarrow> (case py_index (length xs) i of None \<Rightarrow> Inl IndexError | Some j \<Rightarrow> Inr (PyList (xs[j := v]))))"
| "py_setitem _ k v = Inl TypeError"

section \<open>str() and repr()\<close>

definition hex_digit :: "nat \<Rightarrow> char" where
  "hex_digit d = (if d < 10 then char_of (48 + d) else char_of (87 + d))"

definition hex2 :: "char \<Rightarrow> string" where
  "hex2 c = [hex_digit (of_char c div 16), hex_digit (of_char c mod 16)]"

text \<open>\<open>str.isprintable\<close> on U+0000 to U+00FF: the C0 and C1 controls, DEL, the no-break
  space and the soft hyphen are not printable.\<close>

definition py_printable :: "char \<Rightarrow> bool" where
  "py_printable c = (let n = of_char c :: nat in
     32 \<le> n \<and> n \<noteq> 127 \<and> \<not> (128 \<le> n \<and> n \<le> 160) \<and> n \<noteq> 173)"

definition repr_char :: "char \<Rightarrow> char \<Rightarrow> string" where
  "repr_char q c =
     (if c = q \<or> c = CHR 0x5C then [CHR 0x5C, c]
      else if c = CHR 0x09 then [CHR 0x5C, CHR ''t'']
      else if c = CHR 0x0A then [CHR 0x5C, CHR ''n'']
      else if c = CHR 0x0D then [CHR 0x5C, CHR ''r'']
      else if py_printable c then [c]
      else CHR 0x5C # CHR ''x'' # hex2 c)"

text \<open>A string's repr is single-quoted unless it holds a single quote and no double quote.\<close>

definition str_repr :: "string \<Rightarrow> string" where
  "str_repr s =
     (let q = (if CHR 0x27 \<in> set s \<and> CHR 0x22 \<notin> set s then CHR 0x22 else CHR 0x27)
      in q # concat (map (repr_char q) s) @ [q])"

definition pad0 :: "nat \<Rightarrow> string \<Rightarrow> string" where
  "pad0 n s = replicate (n - length s) (CHR ''0'') @ s"

text \<open>\<open>date.isoformat()\<close>: \<open>YYYY-MM-DD\<close>.\<close>

definition date_iso :: "int \<Rightarrow> int \<Rightarrow> int \<Rightarrow> string" where
  "date_iso y m d = pad0 4 (show_int y) @ ''-'' @ pad0 2 (show_int m) @ ''-'' @ pad0 2 (show_int d)"

primrec py_repr :: "pyval \<Rightarrow> string"
  and py_repr_list :: "pyval list \<Rightarrow> string list"
  and py_repr_items :: "pydict \<Rightarrow> string list"
  and py_repr_item :: "pyval \<times> pyval \<Rightarrow> string" where
  "py_repr PyNone = ''None''"
| "py_repr (PyBool b) = (if b then ''True'' else ''False'')"
| "py_repr (PyInt i) = show_int i"
| "py_repr (PyStr s) = str_repr s"
| "py_repr (PyDate y m d) =
     ''datetime.date('' @ show_int y @ '', '' @ show_int m @ '', '' @ show_int d @ '')''"
| "py_repr (PyList xs) = ''['' @ join '', '' (py_repr_list xs) @ '']''"
| "py_repr (PyDict d) = ''{'' @ join '', '' (py_repr_items d) @ ''}''"
| "py_repr_list [] = []"
| "py_repr_list (x # xs) = py_repr x # py_repr_list xs"
| "py_repr_items [] = []"
| "py_repr_items (e # d) = py_repr_item e # py_repr_items d"
| "py_repr_item (k, v) = py_repr k @ '': '' @ py_repr v"

text \<open>\<open>str(v)\<close>, which is also what an f-string substitutes for \<open>{v}\<close>.\<close>

fun py_str :: "pyval \<Rightarrow> string" where
  "py_str (PyStr s) = s"
| "py_str (PyDate y m d) = date_iso y m d"
| "py_str v = py_repr v"

section \<open>Properties: Hashing and key equality\<close>

lemma key_norm_PyStr [simp]: "key_norm k = PyStr s \<longleftrightarrow> k = PyStr s"
  by (cases k) auto

section \<open>Properties: Dictionaries\<close>

lemma dict_knorms_simps [simp]:
  "dict_knorms [] = []" "dict_knorms ((k, v) # d) = key_norm k # dict_knorms d"
  by (simp_all add: dict_knorms_def)

lemma dict_get_set_same [simp]: "dict_get (dict_set d k v) k = Some v"
  by (induction d) auto

lemma dict_get_set_other [simp]:
  "key_norm k' \<noteq> key_norm k \<Longrightarrow> dict_get (dict_set d k v) k' = dict_get d k'"
  by (induction d) auto

lemma dict_get_None_iff: "dict_get d k = None \<longleftrightarrow> key_norm k \<notin> set (dict_knorms d)"
  by (induction d) (auto split: if_splits)

lemma map_fst_dict_set_present:
  "key_norm k \<in> set (dict_knorms d) \<Longrightarrow> map fst (dict_set d k v) = map fst d"
  by (induction d) auto

lemma map_fst_dict_set_absent:
  "key_norm k \<notin> set (dict_knorms d) \<Longrightarrow> map fst (dict_set d k v) = map fst d @ [k]"
  by (induction d) auto

lemma dict_knorms_set_present:
  "key_norm k \<in> set (dict_knorms d) \<Longrightarrow> dict_knorms (dict_set d k v) = dict_knorms d"
  by (induction d) auto

lemma set_dict_knorms_set:
  "set (dict_knorms (dict_set d k v)) = insert (key_norm k) (set (dict_knorms d))"
  by (induction d) (auto split: if_splits)

lemma hashable_dict_set:
  "list_all (hashable \<circ> fst) d \<Longrightarrow> hashable k \<Longrightarrow> list_all (hashable \<circ> fst) (dict_set d k v)"
  by (induction d) auto

lemma dict_keys_ok_set:
  "dict_keys_ok d \<Longrightarrow> hashable k \<Longrightarrow> dict_keys_ok (dict_set d k v)"
proof (induction d)
  case Nil
  then show ?case by (simp add: dict_keys_ok_def)
next
  case (Cons e d)
  obtain k' v' where e: "e = (k', v')" by fastforce
  from Cons.prems e have "dict_keys_ok d"
    by (simp add: dict_keys_ok_def)
  with Cons.IH Cons.prems have IH: "dict_keys_ok (dict_set d k v)" by simp
  show ?case
  proof (cases "key_norm k' = key_norm k")
    case True
    with Cons.prems e show ?thesis by (simp add: dict_keys_ok_def)
  next
    case False
    with Cons.prems e have "key_norm k' \<notin> set (dict_knorms (dict_set d k v))"
      by (simp add: dict_keys_ok_def set_dict_knorms_set)
    with IH False e Cons.prems show ?thesis by (simp add: dict_keys_ok_def)
  qed
qed

lemma dict_knorms_append [simp]: "dict_knorms (d1 @ d2) = dict_knorms d1 @ dict_knorms d2"
  by (simp add: dict_knorms_def)

lemma dict_get_key_present: "dict_get d k = Some v \<Longrightarrow> key_norm k \<in> set (dict_knorms d)"
  using dict_get_None_iff [of d k] by auto

text \<open>Reading and writing the entry of a key that no earlier entry matches.\<close>

lemma dict_get_append_notin:
  "key_norm k \<notin> set (dict_knorms d1) \<Longrightarrow> dict_get (d1 @ (k, v) # d2) k = Some v"
  by (induction d1) auto

lemma dict_set_append_notin:
  "key_norm k \<notin> set (dict_knorms d1) \<Longrightarrow> dict_set (d1 @ (k, v) # d2) k v' = d1 @ (k, v') # d2"
  by (induction d1) auto

lemma dict_get_in_set: "dict_get d k = Some v \<Longrightarrow> \<exists>k'. (k', v) \<in> set d \<and> key_norm k' = key_norm k"
  by (induction d) (auto split: if_splits)

lemma dict_get_own_key:
  "dict_keys_ok d \<Longrightarrow> (k, v) \<in> set d \<Longrightarrow> dict_get d k = Some v"
proof (induction d)
  case Nil
  then show ?case by simp
next
  case (Cons e d)
  then show ?case
    by (cases e) (auto simp: dict_keys_ok_def dict_knorms_def image_iff)
qed

section \<open>Properties: Truthiness, iteration, subscripts\<close>

text \<open>Writing back at a key that was just read cannot fail on a dict or a list.\<close>

lemma py_setitem_after_getitem:
  "py_getitem m k = Inr v \<Longrightarrow> (\<forall>s. m \<noteq> PyStr s) \<Longrightarrow> \<exists>m'. py_setitem m k v' = Inr m'"
  by (cases m) (auto split: if_splits option.splits)

lemma py_setitem_dict_Inr:
  "py_setitem obj (PyStr s) v = Inr obj' \<longleftrightarrow> (\<exists>d. obj = PyDict d \<and> obj' = PyDict (dict_set d (PyStr s) v))"
  by (cases obj) (auto split: option.splits)

lemma py_getitem_dict_key:
  "dict_keys_ok d \<Longrightarrow> (k, v) \<in> set d \<Longrightarrow> py_getitem (PyDict d) k = Inr v"
  by (auto simp: dict_get_own_key dict_keys_ok_def list_all_iff)

section \<open>Properties: str() and repr()\<close>

lemma py_str_PyInt [simp]: "py_str (PyInt i) = show_int i"
  by simp

lemma py_str_PyNone [simp]: "py_str PyNone = ''None''"
  by simp

lemma dict_set_keeps:
  "(k', v') \<in> set d \<Longrightarrow> key_norm k' \<noteq> key_norm k \<Longrightarrow> (k', v') \<in> set (dict_set d k v)"
  by (induction d) auto

end
