(* ===== verification/Json.thy ===== *)
theory Json
  imports PyValue
begin

text \<open>
  \<open>json.dumps(obj, indent=2)\<close> as CPython's \<open>json.encoder\<close> computes it. With an
  indent the pure-Python \<open>_make_iterencode\<close> runs (the C accelerator is used only
  without one): separators \<open>','\<close> and \<open>': '\<close>, every nested item on its own line
  indented by two spaces per level, \<open>[]\<close> and \<open>{}\<close> for empty containers, and
  \<open>ensure_ascii=True\<close>, so every character outside printable ASCII is written as a
  \<open>\u00XX\<close> escape. Dictionary keys must be \<open>str\<close>, \<open>int\<close>, \<open>bool\<close> or
  \<open>None\<close> (they are written as strings); a \<open>datetime.date\<close> anywhere, or a key of
  another type, raises \<open>TypeError\<close>. The theory proves that the encoder fails exactly
  on such values (\<open>json_ok\<close>), and that every character it writes is printable ASCII
  or a newline.
\<close>

section \<open>String literals\<close>

text \<open>\<open>py_encode_basestring_ascii\<close>: the table \<open>ESCAPE_DCT\<close> for backslash, quote and
  the five short control escapes, \<open>\u\<close> with four lower-case hex digits for every
  other character outside \<open>' '..'~'\<close>.\<close>

definition json_esc :: "char \<Rightarrow> string" where
  "json_esc c =
     (if c = CHR 0x5C then [CHR 0x5C, CHR 0x5C]
      else if c = CHR 0x22 then [CHR 0x5C, CHR 0x22]
      else if c = CHR 0x0A then [CHR 0x5C, CHR ''n'']
      else if c = CHR 0x0D then [CHR 0x5C, CHR ''r'']
      else if c = CHR 0x09 then [CHR 0x5C, CHR ''t'']
      else if c = CHR 0x08 then [CHR 0x5C, CHR ''b'']
      else if c = CHR 0x0C then [CHR 0x5C, CHR ''f'']
      else if of_char c < (32::nat) \<or> (126::nat) < of_char c
      then [CHR 0x5C, CHR ''u'', CHR ''0'', CHR ''0''] @ hex2 c
      else [c])"

definition json_quote :: "string \<Rightarrow> string" where
  "json_quote s = CHR 0x22 # concat (map json_esc s) @ [CHR 0x22]"

section \<open>The encoder\<close>

text \<open>\<open>newline_indent\<close> at a nesting level.\<close>

definition json_nl :: "nat \<Rightarrow> string" where
  "json_nl lvl = CHR 0x0A # replicate (2 * lvl) (CHR '' '')"

text \<open>The key conversion of \<open>_iterencode_dict\<close>; \<open>True\<close> is tested before \<open>int\<close>.\<close>

fun json_key :: "pyval \<Rightarrow> string py_result" where
  "json_key (PyStr s) = Inr (json_quote s)"
| "json_key (PyBool b) = Inr (json_quote (if b then ''true'' else ''false''))"
| "json_key PyNone = Inr (json_quote ''null'')"
| "json_key (PyInt i) = Inr (json_quote (show_int i))"
| "json_key _ = Inl TypeError"

primrec json_enc :: "nat \<Rightarrow> pyval \<Rightarrow> string py_result"
  and json_elems :: "nat \<Rightarrow> pyval list \<Rightarrow> string list py_result"
  and json_members :: "nat \<Rightarrow> pydict \<Rightarrow> string list py_result"
  and json_member :: "nat \<Rightarrow> pyval \<times> pyval \<Rightarrow> string py_result" where
  "json_enc lvl PyNone = Inr ''null''"
| "json_enc lvl (PyBool b) = Inr (if b then ''true'' else ''false'')"
| "json_enc lvl (PyInt i) = Inr (show_int i)"
| "json_enc lvl (PyStr s) = Inr (json_quote s)"
| "json_enc lvl (PyDate y m d) = Inl TypeError"
| "json_enc lvl (PyList xs) =
     (if xs = [] then Inr ''[]''
      else res_bind (json_elems (Suc lvl) xs) (\<lambda>items.
        Inr (''['' @ json_nl (Suc lvl) @ join (CHR '','' # json_nl (Suc lvl)) items @ json_nl lvl @ '']'')))"
| "json_enc lvl (PyDict d) =
     (if d = [] then Inr ''{}''
      else res_bind (json_members (Suc lvl) d) (\<lambda>items.
        Inr (''{'' @ json_nl (Suc lvl) @ join (CHR '','' # json_nl (Suc lvl)) items @ json_nl lvl @ ''}'')))"
| "json_elems lvl [] = Inr []"
| "json_elems lvl (x # xs) =
     res_bind (json_enc lvl x) (\<lambda>s. res_bind (json_elems lvl xs) (\<lambda>ss. Inr (s # ss)))"
| "json_members lvl [] = Inr []"
| "json_members lvl (e # d) =
     res_bind (json_member lvl e) (\<lambda>s. res_bind (json_members lvl d) (\<lambda>ss. Inr (s # ss)))"
| "json_member lvl (k, v) =
     res_bind (json_key k) (\<lambda>ks. res_bind (json_enc lvl v) (\<lambda>vs. Inr (ks @ '': '' @ vs)))"

definition json_dumps :: "pyval \<Rightarrow> string py_result" where
  "json_dumps v = json_enc 0 v"

section \<open>Which values serialise\<close>

fun json_key_ok :: "pyval \<Rightarrow> bool" where
  "json_key_ok (PyStr _) = True"
| "json_key_ok (PyBool _) = True"
| "json_key_ok PyNone = True"
| "json_key_ok (PyInt _) = True"
| "json_key_ok _ = False"

primrec json_ok :: "pyval \<Rightarrow> bool"
  and json_ok_list :: "pyval list \<Rightarrow> bool"
  and json_ok_items :: "pydict \<Rightarrow> bool"
  and json_ok_item :: "pyval \<times> pyval \<Rightarrow> bool" where
  "json_ok PyNone = True"
| "json_ok (PyBool b) = True"
| "json_ok (PyInt i) = True"
| "json_ok (PyStr s) = True"
| "json_ok (PyDate y m d) = False"
| "json_ok (PyList xs) = json_ok_list xs"
| "json_ok (PyDict d) = json_ok_items d"
| "json_ok_list [] = True"
| "json_ok_list (x # xs) = (json_ok x \<and> json_ok_list xs)"
| "json_ok_items [] = True"
| "json_ok_items (e # d) = (json_ok_item e \<and> json_ok_items d)"
| "json_ok_item (k, v) = (json_key_ok k \<and> json_ok v)"

text \<open>The characters \<open>json.dumps\<close> writes with \<open>ensure_ascii\<close> and an indent:
  printable ASCII and the newline.\<close>

definition text_char :: "char \<Rightarrow> bool" where
  "text_char c \<longleftrightarrow> c = CHR 0x0A \<or> (32 \<le> (of_char c :: nat) \<and> (of_char c :: nat) \<le> 126)"

section \<open>Properties: Which values serialise\<close>

lemma json_key_isl: "isl (json_key k) \<longleftrightarrow> \<not> json_key_ok k"
  by (cases k) auto

text \<open>The encoder raises exactly on the values \<open>json_ok\<close> rejects, at every nesting
  level: one induction over the nested value, its lists and its items.\<close>

lemma json_enc_isl_all:
  "(\<forall>l. isl (json_enc l v) \<longleftrightarrow> \<not> json_ok v) \<and>
   (\<forall>l. isl (json_elems l xs) \<longleftrightarrow> \<not> json_ok_list xs) \<and>
   (\<forall>l. isl (json_member l e) \<longleftrightarrow> \<not> json_ok_item e) \<and>
   (\<forall>l. isl (json_members l d) \<longleftrightarrow> \<not> json_ok_items d)"
  by (rule json_ok_json_ok_list_json_ok_items_json_ok_item.induct) (auto simp: json_key_isl)

lemma json_dumps_isl: "isl (json_dumps v) \<longleftrightarrow> \<not> json_ok v"
  using json_enc_isl_all by (simp add: json_dumps_def)

lemma json_dumps_Inr: "json_ok v \<Longrightarrow> \<exists>j. json_dumps v = Inr j"
  using json_dumps_isl [of v] by (cases "json_dumps v") auto

lemma json_ok_list_iff [simp]: "json_ok_list xs \<longleftrightarrow> list_all json_ok xs"
  by (induction xs) auto

lemma json_ok_items_iff [simp]: "json_ok_items d \<longleftrightarrow> list_all (\<lambda>(k, v). json_key_ok k \<and> json_ok v) d"
  by (induction d) auto

lemma json_ok_dict_set:
  "json_ok (PyDict c) \<Longrightarrow> json_key_ok k \<Longrightarrow> json_ok v \<Longrightarrow> json_ok (PyDict (dict_set c k v))"
  by (induction c) auto

lemma json_dumps_ok: "json_dumps v = Inr j \<Longrightarrow> json_ok v"
  using json_dumps_isl [of v] by simp

lemma json_enc_Inl_all:
  "(\<forall>l e. json_enc l v = Inl e \<longrightarrow> e = TypeError) \<and>
   (\<forall>l e. json_elems l xs = Inl e \<longrightarrow> e = TypeError) \<and>
   (\<forall>l e. json_member l p = Inl e \<longrightarrow> e = TypeError) \<and>
   (\<forall>l e. json_members l d = Inl e \<longrightarrow> e = TypeError)"
proof (rule json_ok_json_ok_list_json_ok_items_json_ok_item.induct)
  fix k v assume "\<forall>l e. json_enc l k = Inl e \<longrightarrow> e = TypeError" "\<forall>l e. json_enc l v = Inl e \<longrightarrow> e = TypeError"
  then show "\<forall>l e. json_member l (k, v) = Inl e \<longrightarrow> e = TypeError"
    by (cases k) (auto simp: res_bind_eq_Inl)
qed (auto simp: res_bind_eq_Inl)

lemma hex_digit_printable: "d < 16 \<Longrightarrow> 32 \<le> (of_char (hex_digit d) :: nat) \<and> (of_char (hex_digit d) :: nat) \<le> 126"
  by (auto simp: hex_digit_def)

lemma json_esc_printable: "x \<in> set (json_esc c) \<Longrightarrow> 32 \<le> (of_char x :: nat) \<and> (of_char x :: nat) \<le> 126"
proof -
  have "of_char c div 16 < (16::nat)" "of_char c mod 16 < (16::nat)"
    using nat_of_char_less_256 [of c] by (simp_all add: less_mult_imp_div_less)
  then show "x \<in> set (json_esc c) \<Longrightarrow> ?thesis"
    by (auto simp: json_esc_def hex2_def hex_digit_printable split: if_splits)
qed

lemma list_all_text_char_join:
  "list_all text_char sep \<Longrightarrow> list_all (list_all text_char) xs \<Longrightarrow> list_all text_char (join sep xs)"
  by (induction sep xs rule: join.induct) (auto simp: join.simps)

lemma text_char_show_int: "list_all text_char (show_int i)"
  using show_nat_digits [of "nat (- i)"] show_nat_digits [of "nat i"]
  by (auto simp: show_int_def text_char_def list_all_iff less_eq_char_def)

lemma text_char_json_quote: "list_all text_char (json_quote s)"
  by (auto simp: list_all_iff text_char_def json_quote_def dest: json_esc_printable)

lemma text_char_json_nl: "list_all text_char (json_nl l)"
  by (simp add: json_nl_def text_char_def list_all_iff)

lemma text_char_Char [simp]:
  "text_char (Char b0 b1 b2 b3 b4 b5 b6 b7) \<longleftrightarrow>
   Char b0 b1 b2 b3 b4 b5 b6 b7 = CHR 0x0A \<or>
   (32 \<le> (of_char (Char b0 b1 b2 b3 b4 b5 b6 b7) :: nat) \<and> (of_char (Char b0 b1 b2 b3 b4 b5 b6 b7) :: nat) \<le> 126)"
  by (simp only: text_char_def)

lemma json_enc_text_all:
  "(\<forall>l s. json_enc l v = Inr s \<longrightarrow> list_all text_char s) \<and>
   (\<forall>l ss. json_elems l xs = Inr ss \<longrightarrow> list_all (list_all text_char) ss) \<and>
   (\<forall>l s. json_member l p = Inr s \<longrightarrow> list_all text_char s) \<and>
   (\<forall>l ss. json_members l d = Inr ss \<longrightarrow> list_all (list_all text_char) ss)"
proof (rule json_ok_json_ok_list_json_ok_items_json_ok_item.induct)
  fix k v assume "\<forall>l s. json_enc l k = Inr s \<longrightarrow> list_all text_char s" "\<forall>l s. json_enc l v = Inr s \<longrightarrow> list_all text_char s"
  then show "\<forall>l s. json_member l (k, v) = Inr s \<longrightarrow> list_all text_char s"
    by (cases k) (auto simp: res_bind_eq_Inr text_char_json_quote text_char_show_int)
qed (auto simp: res_bind_eq_Inr text_char_json_quote text_char_show_int text_char_json_nl
                intro!: list_all_text_char_join)

lemma json_dumps_Inl: "json_dumps v = Inl e \<Longrightarrow> e = TypeError"
  using json_enc_Inl_all by (simp add: json_dumps_def)

section \<open>Properties of the encoder\<close>

text \<open>C8: \<open>json.dumps(v, indent=2)\<close> raises, and then always \<open>TypeError\<close>, exactly when \<open>v\<close>
  holds a date or a dictionary key that is not a string, an integer, a boolean or null.\<close>

theorem json_dumps_raises_iff:
  "json_dumps v = Inl TypeError \<longleftrightarrow> \<not> json_ok v"
proof
  assume "json_dumps v = Inl TypeError"
  then show "\<not> json_ok v"
    using json_dumps_isl [of v] by simp
next
  assume "\<not> json_ok v"
  then obtain e where e: "json_dumps v = Inl e"
    using json_dumps_isl [of v] by (cases "json_dumps v") auto
  then have "e = TypeError"
    using json_enc_Inl_all by (simp add: json_dumps_def)
  with e show "json_dumps v = Inl TypeError" by simp
qed

text \<open>C9: With \<open>ensure_ascii\<close> and an indent, every character \<open>json.dumps\<close> writes is
  printable ASCII (codes 32 to 126) or a newline, whatever the strings in the value.\<close>

theorem json_dumps_text:
  "json_dumps v = Inr out \<Longrightarrow> c \<in> set out \<Longrightarrow> c = CHR 0x0A \<or> (32 \<le> (of_char c :: nat) \<and> (of_char c :: nat) \<le> 126)"
  using json_enc_text_all by (fastforce simp: json_dumps_def list_all_iff text_char_def)

theorem json_dumps_text_witness:
  "json_dumps (PyDict [(PyStr [CHR 0xE9], PyInt 1)]) = Inr (''{'' @ json_nl 1 @ json_quote [CHR 0xE9] @ '': 1'' @ json_nl 0 @ ''}'') \<and>
   CHR 0x5C \<in> set (''{'' @ json_nl 1 @ json_quote [CHR 0xE9] @ '': 1'' @ json_nl 0 @ ''}'') \<and>
   (CHR 0x5C = CHR 0x0A \<or> (32 \<le> (of_char (CHR 0x5C) :: nat) \<and> (of_char (CHR 0x5C) :: nat) \<le> 126))"
proof -
  let ?out = "''{'' @ json_nl 1 @ json_quote [CHR 0xE9] @ '': 1'' @ json_nl 0 @ ''}''"
  have h1: "json_dumps (PyDict [(PyStr [CHR 0xE9], PyInt 1)]) = Inr ?out"
    by (simp add: json_dumps_def show_int_def)
  have h2: "CHR 0x5C \<in> set ?out"
    by (simp add: json_quote_def json_esc_def)
  show ?thesis
    using h1 h2 json_dumps_text [OF h1 h2] by blast
qed

end
