(* ===== verification/PyString.thy ===== *)
theory PyString
  imports Prelude "HOL-Library.Sublist"
begin

text \<open>
  The \<open>str\<close> methods the two programs call: \<open>split\<close> with a one-character separator
  (the Model Hub's \<open>request.host.split(':')[0]\<close>), \<open>lower\<close>, \<open>startswith\<close> and
  \<open>endswith\<close> with a tuple of suffixes (the gallery's file filter). Each is the CPython
  behaviour on code points U+0000 to U+00FF.
\<close>

section \<open>str.split(sep)\<close>

text \<open>Splitting at every occurrence of the separator; the result is never empty
  (\<open>''.split(':') == ['']\<close>).\<close>

fun py_split :: "char \<Rightarrow> string \<Rightarrow> string list" where
  "py_split c [] = [[]]"
| "py_split c (x # xs) =
     (if x = c then [] # py_split c xs
      else (case py_split c xs of p # ps \<Rightarrow> (x # p) # ps | [] \<Rightarrow> [[x]]))"

section \<open>str.lower()\<close>

text \<open>Unicode lower-casing of Latin-1: A-Z and U+00C0 to U+00DE except the multiplication
  sign U+00D7 move up by 32; everything else is unchanged.\<close>

definition lower_char :: "char \<Rightarrow> char" where
  "lower_char c = (let n = of_char c :: nat in
     if (65 \<le> n \<and> n \<le> 90) \<or> (192 \<le> n \<and> n \<le> 222 \<and> n \<noteq> 215) then char_of (n + 32) else c)"

definition py_lower :: "string \<Rightarrow> string" where
  "py_lower s = map lower_char s"

section \<open>startswith and endswith\<close>

definition py_startswith :: "string \<Rightarrow> string \<Rightarrow> bool" where
  "py_startswith s p = prefix p s"

definition py_endswith_any :: "string \<Rightarrow> string list \<Rightarrow> bool" where
  "py_endswith_any s sufs = list_ex (\<lambda>x. suffix x s) sufs"

section \<open>int(s)\<close>

text \<open>\<open>int\<close> of a string in base 10: surrounding whitespace (\<open>str.isspace\<close> on Latin-1),
  an optional sign, and decimal digits with single underscores between them.\<close>

definition py_isspace :: "char \<Rightarrow> bool" where
  "py_isspace c = (let n = of_char c :: nat in (9 \<le> n \<and> n \<le> 13) \<or> (28 \<le> n \<and> n \<le> 32) \<or> n = 133 \<or> n = 160)"

definition py_strip :: "string \<Rightarrow> string" where
  "py_strip s = rev (dropWhile py_isspace (rev (dropWhile py_isspace s)))"

definition is_digit :: "char \<Rightarrow> bool" where
  "is_digit c \<longleftrightarrow> CHR ''0'' \<le> c \<and> c \<le> CHR ''9''"

fun no_double_us :: "string \<Rightarrow> bool" where
  "no_double_us (a # b # r) \<longleftrightarrow> \<not> (a = CHR ''_'' \<and> b = CHR ''_'') \<and> no_double_us (b # r)"
| "no_double_us _ \<longleftrightarrow> True"

definition digits_ok :: "string \<Rightarrow> bool" where
  "digits_ok ds \<longleftrightarrow> ds \<noteq> [] \<and> is_digit (hd ds) \<and> is_digit (last ds) \<and>
     list_all (\<lambda>c. is_digit c \<or> c = CHR ''_'') ds \<and> no_double_us ds"

fun digits_value :: "int \<Rightarrow> string \<Rightarrow> int" where
  "digits_value acc [] = acc"
| "digits_value acc (c # cs) =
     digits_value (if c = CHR ''_'' then acc else 10 * acc + int (of_char c - 48)) cs"

definition py_int :: "string \<Rightarrow> int option" where
  "py_int s =
     (case py_strip s of
        [] \<Rightarrow> None
      | c # r \<Rightarrow>
          if c = CHR ''-'' then (if digits_ok r then Some (- digits_value 0 r) else None)
          else if c = CHR ''+'' then (if digits_ok r then Some (digits_value 0 r) else None)
          else if digits_ok (c # r) then Some (digits_value 0 (c # r)) else None)"

section \<open>Properties: str.split(sep)\<close>

lemma py_split_ne [simp]: "py_split c s \<noteq> []"
  by (induction s) (auto split: list.splits)

text \<open>The first field of a split is the prefix before the first separator.\<close>

lemma hd_py_split: "hd (py_split c s) = takeWhile (\<lambda>x. x \<noteq> c) s"
  by (induction s) (auto split: list.splits)

lemma py_split_no_sep: "c \<notin> set s \<Longrightarrow> py_split c s = [s]"
  by (induction s) auto

lemma py_split_sep_append: "c \<notin> set s \<Longrightarrow> py_split c (s @ c # r) = s # py_split c r"
  by (induction s) auto

lemma py_split_path:
  "list_all (\<lambda>x. c \<notin> set x) ss \<Longrightarrow> ss \<noteq> [] \<Longrightarrow> py_split c (concat (map (\<lambda>x. c # x) ss)) = [] # ss"
proof (induction ss)
  case (Cons s ss)
  then show ?case
    by (cases ss) (auto simp: py_split_no_sep py_split_sep_append)
qed simp

lemma concat_py_split: "join [c] (py_split c s) = s"
proof (induction s)
  case Nil
  then show ?case by simp
next
  case (Cons x xs)
  then show ?case
    by (cases "py_split c xs") auto
qed

section \<open>Properties: startswith and endswith\<close>

lemma py_startswith_Cons [simp]: "py_startswith (x # xs) [c] = (x = c)"
  by (auto simp: py_startswith_def)

lemma py_startswith_Nil [simp]: "\<not> py_startswith [] [c]"
  by (auto simp: py_startswith_def)

text \<open>The definitions that evaluate \<open>int(s)\<close> on a literal string by \<open>simp\<close>.\<close>

lemmas py_int_eval = py_int_def py_strip_def py_isspace_def digits_ok_def is_digit_def

end
