(* ===== verification/ModelHub.thy ===== *)
theory ModelHub
  imports Json PyString
begin

text \<open>
  The live-status aggregation of the Model Hub (\<open>src/run/llama-server/app.py\<close>,
  \<open>get_live_data\<close>, lines 47-71). One request reads \<open>models.yaml\<close>, probes one tmux
  session \<open>svc-<name>\<close> per configured model, and adds to each model's dictionary an
  \<open>active\<close> flag, a \<open>url\<close> built from the request's scheme and host and the model's
  port, and a \<open>config_json\<close> dump of the record. Everything the function reads from
  outside is a field of \<open>hub_env\<close>: the outcome of loading the file, the outcome of each
  \<open>tmux has-session -t <target>\<close> command, and the request's scheme and Host header.
  The result pairs the list of tmux targets probed, in order, with the returned value or
  the exception that escapes the function (nothing after line 57 is inside a
  \<open>try\<close>).
\<close>

section \<open>The environment of one request\<close>

text \<open>What lines 49-54 observe: no file, a file that cannot be opened or parsed (the
  \<open>except Exception\<close> of line 56), or the value \<open>yaml.safe_load\<close> returned.\<close>

datatype config_file = ConfigMissing | ConfigUnreadable | ConfigLoaded pyval

text \<open>\<open>subprocess.run\<close> either reports the exit status of tmux or raises because the
  tmux binary cannot be started (\<open>FileNotFoundError\<close>).\<close>

datatype probe_outcome = ProbeExit int | ProbeSpawnError

record hub_env =
  config :: config_file
  tmux :: "string \<Rightarrow> probe_outcome"
  req_scheme :: string
  req_host :: string

section \<open>Loading the configuration (lines 49-57)\<close>

text \<open>\<open>None\<close> is one of the two early \<open>return {}\<close>; otherwise the value of
  \<open>raw.get("models", {})\<close>, which may be of any type. A document that is not a mapping
  has no \<open>get\<close>: the \<open>AttributeError\<close> is caught at line 56.\<close>

definition load_models :: "config_file \<Rightarrow> pyval option" where
  "load_models cf =
     (case cf of
        ConfigMissing \<Rightarrow> None
      | ConfigUnreadable \<Rightarrow> None
      | ConfigLoaded raw0 \<Rightarrow>
          (case (if py_truthy raw0 then raw0 else PyDict []) of
             PyDict raw \<Rightarrow>
               Some (case dict_get raw (PyStr ''models'') of None \<Rightarrow> PyDict [] | Some m \<Rightarrow> m)
           | _ \<Rightarrow> None))"

section \<open>Liveness probes (lines 60-64)\<close>

definition session_name :: "pyval \<Rightarrow> string" where
  "session_name key = ''svc-'' @ py_str key"

definition probe_active :: "(string \<Rightarrow> probe_outcome) \<Rightarrow> pyval \<Rightarrow> bool py_result" where
  "probe_active T key =
     (case T (session_name key) of
        ProbeExit rc \<Rightarrow> Inr (rc = 0)
      | ProbeSpawnError \<Rightarrow> Inl FileNotFoundError)"

text \<open>
  One iteration: run the probe, evaluate \<open>models[key]\<close>, assign its \<open>"active"\<close>
  item. The object \<open>models[key]\<close> is mutated in place; the model writes the updated
  object back at the same key, which cannot fail once the read of a dict or a list
  succeeded (\<open>py_setitem_after_getitem\<close>). The keys are those of \<open>for key in models\<close>, taken
  before the loop: only values are mutated, so they do not change during it.
\<close>

definition probe_step :: "(string \<Rightarrow> probe_outcome) \<Rightarrow> pyval \<Rightarrow> pyval \<Rightarrow> pyval py_result" where
  "probe_step T key models =
     res_bind (probe_active T key) (\<lambda>active.
       res_bind (py_getitem models key) (\<lambda>cfg.
         res_bind (py_setitem cfg (PyStr ''active'') (PyBool active)) (\<lambda>cfg'.
           py_setitem models key cfg')))"

fun probe_loop :: "(string \<Rightarrow> probe_outcome) \<Rightarrow> pyval list \<Rightarrow> pyval \<Rightarrow> string list \<times> pyval py_result" where
  "probe_loop T [] models = ([], Inr models)"
| "probe_loop T (key # keys) models =
     (case probe_step T key models of
        Inl e \<Rightarrow> ([session_name key], Inl e)
      | Inr models' \<Rightarrow> (let (tr, r) = probe_loop T keys models' in (session_name key # tr, r)))"

section \<open>Reference URLs and the JSON dump (lines 68-70)\<close>

text \<open>\<open>request.host.split(':')[0]\<close>\<close>

definition host_name :: "string \<Rightarrow> string" where
  "host_name h = hd (py_split (CHR '':'') h)"

text \<open>\<open>cfg.get('port', 0)\<close>\<close>

definition port_value :: "pydict \<Rightarrow> pyval" where
  "port_value c = (case dict_get c (PyStr ''port'') of None \<Rightarrow> PyInt 0 | Some p \<Rightarrow> p)"

definition model_url :: "string \<Rightarrow> string \<Rightarrow> pydict \<Rightarrow> string" where
  "model_url scheme host c = scheme @ ''://'' @ host_name host @ '':'' @ py_str (port_value c)"

text \<open>One iteration of the second loop; a \<open>cfg\<close> that is not a dict has no \<open>get\<close>.\<close>

definition enrich_cfg :: "string \<Rightarrow> string \<Rightarrow> pyval \<Rightarrow> pyval py_result" where
  "enrich_cfg scheme host cfg =
     (case cfg of
        PyDict c \<Rightarrow>
          (let c1 = dict_set c (PyStr ''url'') (PyStr (model_url scheme host c)) in
           res_bind (json_dumps (PyDict c1)) (\<lambda>j.
             Inr (PyDict (dict_set c1 (PyStr ''config_json'') (PyStr j)))))
      | _ \<Rightarrow> Inl AttributeError)"

fun enrich_loop :: "string \<Rightarrow> string \<Rightarrow> pydict \<Rightarrow> pydict py_result" where
  "enrich_loop scheme host [] = Inr []"
| "enrich_loop scheme host ((key, cfg) # rest) =
     res_bind (enrich_cfg scheme host cfg) (\<lambda>cfg'.
       res_bind (enrich_loop scheme host rest) (\<lambda>rest'. Inr ((key, cfg') # rest')))"

text \<open>\<open>models.items()\<close> exists only on a dict.\<close>

fun py_items :: "pyval \<Rightarrow> pydict py_result" where
  "py_items (PyDict d) = Inr d"
| "py_items _ = Inl AttributeError"

section \<open>get_live_data\<close>

definition get_live_data :: "hub_env \<Rightarrow> string list \<times> pyval py_result" where
  "get_live_data env =
     (case load_models (config env) of
        None \<Rightarrow> ([], Inr (PyDict []))
      | Some models \<Rightarrow>
          (case py_iter models of
             Inl e \<Rightarrow> ([], Inl e)
           | Inr keys \<Rightarrow>
               (let (tr, r) = probe_loop (tmux env) keys models in
                (tr, res_bind r (\<lambda>m. res_bind (py_items m) (\<lambda>d.
                       res_bind (enrich_loop (req_scheme env) (req_host env) d) (\<lambda>d'.
                         Inr (PyDict d'))))))))"

section \<open>The promised view\<close>

text \<open>
  What the specification promises of a request (its View Assembler): for each configured
  name, in configuration order, whether the session \<open>svc-<name>\<close> exists and the URL
  \<open>scheme://host:port\<close>. \<open>live_view\<close> computes it from the configuration alone;
  \<open>hub_view\<close> reads it back from the dictionary \<open>get_live_data\<close> returns (its
  \<open>active\<close> and \<open>url\<close> items), and is \<open>None\<close> when an entry lacks them.
  \<open>set_active\<close> is the effect of the first loop on one entry.
\<close>

fun is_dict :: "pyval \<Rightarrow> bool" where
  "is_dict (PyDict _) = True"
| "is_dict _ = False"

fun dict_of :: "pyval \<Rightarrow> pydict" where
  "dict_of (PyDict c) = c"
| "dict_of _ = []"

definition set_active :: "(string \<Rightarrow> probe_outcome) \<Rightarrow> pyval \<times> pyval \<Rightarrow> pyval \<times> pyval" where
  "set_active T e =
     (case e of
        (k, PyDict c) \<Rightarrow> (k, PyDict (dict_set c (PyStr ''active'') (PyBool (T (session_name k) = ProbeExit 0))))
      | _ \<Rightarrow> e)"

definition live_view ::
  "(string \<Rightarrow> probe_outcome) \<Rightarrow> string \<Rightarrow> string \<Rightarrow> pydict \<Rightarrow> (pyval \<times> bool \<times> string) list" where
  "live_view T scheme host d =
     map (\<lambda>(k, v). (k, T (session_name k) = ProbeExit 0,
                    scheme @ ''://'' @ host_name host @ '':'' @ py_str (port_value (dict_of v)))) d"

fun card_fields :: "pyval \<Rightarrow> (bool \<times> string) option" where
  "card_fields (PyDict c) =
     (case (dict_get c (PyStr ''active''), dict_get c (PyStr ''url'')) of
        (Some (PyBool b), Some (PyStr u)) \<Rightarrow> Some (b, u)
      | _ \<Rightarrow> None)"
| "card_fields _ = None"

fun hub_view :: "pydict \<Rightarrow> (pyval \<times> bool \<times> string) list option" where
  "hub_view [] = Some []"
| "hub_view ((k, v) # d) =
     (case (card_fields v, hub_view d) of
        (Some (b, u), Some rest) \<Rightarrow> Some ((k, b, u) # rest)
      | _ \<Rightarrow> None)"

section \<open>Example requests\<close>

text \<open>The scenario of the specification: two models on ports 8000 and 8001, only
  \<open>svc-alpha\<close> running, a request to \<open>http://10.0.0.5/\<close>.\<close>

definition example_models :: pydict where
  "example_models =
     [(PyStr ''alpha'', PyDict [(PyStr ''port'', PyInt 8000)]),
      (PyStr ''beta'', PyDict [(PyStr ''port'', PyInt 8001)])]"

definition example_env :: hub_env where
  "example_env =
     \<lparr>config = ConfigLoaded (PyDict [(PyStr ''models'', PyDict example_models)]),
      tmux = (\<lambda>t. if t = ''svc-alpha'' then ProbeExit 0 else ProbeExit 1),
      req_scheme = ''http'', req_host = ''10.0.0.5''\<rparr>"

text \<open>The same request with a configuration whose only entry is given by \<open>v\<close>.\<close>

definition one_model_env :: "pyval \<Rightarrow> hub_env" where
  "one_model_env v = example_env\<lparr>config := ConfigLoaded (PyDict [(PyStr ''models'', PyDict [(PyStr ''alpha'', v)])])\<rparr>"

lemmas example_defs = example_env_def example_models_def one_model_env_def

section \<open>The first loop\<close>

lemma dict_knorms_map_set_active [simp]: "dict_knorms (map (set_active T) d) = dict_knorms d"
  by (induction d) (auto simp: set_active_def split: pyval.splits)

lemma probe_step_dict:
  assumes "key_norm k \<notin> set (dict_knorms d1)" "hashable k" "T (session_name k) \<noteq> ProbeSpawnError"
  shows "probe_step T k (PyDict (d1 @ (k, PyDict c) # d2)) =
         Inr (PyDict (d1 @ set_active T (k, PyDict c) # d2))"
proof -
  obtain rc where "T (session_name k) = ProbeExit rc"
    using assms(3) by (cases "T (session_name k)") auto
  then show ?thesis
    using assms
    by (simp add: probe_step_def probe_active_def set_active_def dict_get_append_notin dict_set_append_notin)
qed

text \<open>On a dictionary with distinct keys whose values are dictionaries, the loop probes
  every key once, in order, and sets each entry's flag from its own probe. The prefix
  \<open>d1\<close> is the part already processed.\<close>

lemma probe_loop_dicts:
  assumes "distinct (dict_knorms (d1 @ d2))"
    and "list_all (\<lambda>(k, v). hashable k \<and> is_dict v \<and> T (session_name k) \<noteq> ProbeSpawnError) d2"
  shows "probe_loop T (map fst d2) (PyDict (d1 @ d2)) =
         (map (session_name \<circ> fst) d2, Inr (PyDict (d1 @ map (set_active T) d2)))"
  using assms
proof (induction d2 arbitrary: d1)
  case Nil
  then show ?case by simp
next
  case (Cons e d2)
  obtain k v where e: "e = (k, v)" by fastforce
  with Cons.prems obtain c where v: "v = PyDict c"
    by (cases v) auto
  from Cons.prems e have notin: "key_norm k \<notin> set (dict_knorms d1)"
    by simp
  have step: "probe_step T k (PyDict (d1 @ (k, v) # d2)) = Inr (PyDict ((d1 @ [set_active T (k, v)]) @ d2))"
    using probe_step_dict [OF notin] Cons.prems e v by simp
  have dist: "distinct (dict_knorms ((d1 @ [set_active T (k, v)]) @ d2))"
    using Cons.prems e v by (simp add: set_active_def)
  have rest: "list_all (\<lambda>(k, v). hashable k \<and> is_dict v \<and> T (session_name k) \<noteq> ProbeSpawnError) d2"
    using Cons.prems by simp
  show ?case
    using step Cons.IH [OF dist rest] e by simp
qed

text \<open>Conversely, a step that returns had a dictionary to mark and a tmux to run.\<close>

lemma probe_step_dict_Inr:
  assumes "key_norm k \<notin> set (dict_knorms d1)"
    and "probe_step T k (PyDict (d1 @ (k, v) # d2)) = Inr m'"
  shows "is_dict v \<and> hashable k \<and> T (session_name k) \<noteq> ProbeSpawnError \<and>
         m' = PyDict (d1 @ set_active T (k, v) # d2)"
  using assms
  by (cases v; cases "T (session_name k)")
     (auto simp: probe_step_def probe_active_def set_active_def res_bind_eq_Inr dict_get_append_notin
                 dict_set_append_notin split: if_splits)

lemma probe_loop_dict_Inr:
  assumes "distinct (dict_knorms (d1 @ d2))"
    and "probe_loop T (map fst d2) (PyDict (d1 @ d2)) = (tr, Inr m')"
  shows "m' = PyDict (d1 @ map (set_active T) d2) \<and> tr = map (session_name \<circ> fst) d2 \<and>
         list_all (\<lambda>(k, v). is_dict v \<and> T (session_name k) \<noteq> ProbeSpawnError) d2"
  using assms
proof (induction d2 arbitrary: d1 tr)
  case Nil
  then show ?case by simp
next
  case (Cons e d2)
  obtain k v where e: "e = (k, v)" by fastforce
  from Cons.prems e have notin: "key_norm k \<notin> set (dict_knorms d1)"
    by simp
  from Cons.prems(2) e obtain m1 tr' where
      m1: "probe_step T k (PyDict (d1 @ (k, v) # d2)) = Inr m1"
      and rest: "probe_loop T (map fst d2) m1 = (tr', Inr m')" and tr: "tr = session_name k # tr'"
    by (auto split: sum.splits prod.splits)
  from probe_step_dict_Inr [OF notin m1]
  have m1': "m1 = PyDict ((d1 @ [set_active T (k, v)]) @ d2)"
    and vd: "is_dict v \<and> T (session_name k) \<noteq> ProbeSpawnError"
    by auto
  have dist: "distinct (dict_knorms ((d1 @ [set_active T (k, v)]) @ d2))"
    using Cons.prems e vd by (cases v) (auto simp: set_active_def)
  from Cons.IH [OF dist] rest m1' tr e vd show ?case
    by auto
qed

text \<open>Whatever the keys, a step that returns keeps a dictionary's keys, and a result
  that is a dictionary came from one.\<close>

lemma probe_step_shape:
  assumes "probe_step T k m = Inr m'"
  shows "(\<forall>d. m = PyDict d \<longrightarrow> (\<exists>d'. m' = PyDict d' \<and> map fst d' = map fst d)) \<and>
         (is_dict m' \<longrightarrow> is_dict m)"
  using assms
  by (cases m) (auto simp: probe_step_def res_bind_eq_Inr map_fst_dict_set_present dict_get_key_present
                      split: if_splits option.splits)

lemma probe_loop_shape:
  "probe_loop T ks m = (tr, Inr m') \<Longrightarrow>
   (\<forall>d. m = PyDict d \<longrightarrow> (\<exists>d'. m' = PyDict d' \<and> map fst d' = map fst d)) \<and> (is_dict m' \<longrightarrow> is_dict m)"
proof (induction ks arbitrary: m tr)
  case Nil
  then show ?case by simp
next
  case (Cons k ks)
  then obtain m1 tr' where m1: "probe_step T k m = Inr m1" and rest: "probe_loop T ks m1 = (tr', Inr m')"
    by (auto split: sum.splits prod.splits)
  from Cons.IH [OF rest] probe_step_shape [OF m1] show ?case
    by metis
qed

section \<open>The second loop\<close>

lemma enrich_loop_Inr_iff:
  "enrich_loop s h d = Inr d' \<longleftrightarrow> list_all2 (\<lambda>(k, v) (k', v'). k' = k \<and> enrich_cfg s h v = Inr v') d d'"
proof (induction d arbitrary: d')
  case Nil
  then show ?case by auto
next
  case (Cons e d)
  then show ?case
    by (cases e) (auto simp: res_bind_eq_Inr list_all2_Cons1)
qed

lemma map_fst_enrich_loop: "enrich_loop s h d = Inr d' \<Longrightarrow> map fst d' = map fst d"
  by (induction d arbitrary: d') (auto simp: res_bind_eq_Inr)

lemma enrich_loop_exists:
  assumes "list_all (\<lambda>(k, v). \<exists>v'. enrich_cfg s h v = Inr v' \<and> P k v v') d"
  shows "\<exists>d'. enrich_loop s h d = Inr d' \<and> list_all2 (\<lambda>(k, v) (k', v'). k' = k \<and> P k v v') d d'"
  using assms
proof (induction d)
  case Nil
  then show ?case by simp
next
  case (Cons e d)
  obtain k v where e: "e = (k, v)" by fastforce
  with Cons.prems obtain v' where v': "enrich_cfg s h v = Inr v'" "P k v v'"
    by auto
  from Cons obtain d' where "enrich_loop s h d = Inr d'"
    and "list_all2 (\<lambda>(k, v) (k', v'). k' = k \<and> P k v v') d d'"
    by auto
  with v' e show ?case
    by auto
qed

lemma enrich_loop_Inl:
  "list_all (\<lambda>(k, v). is_dict v) d \<Longrightarrow> enrich_loop s h d = Inl e \<Longrightarrow> e = TypeError"
proof (induction d)
  case (Cons kv d)
  obtain k v where kv: "kv = (k, v)" by fastforce
  with Cons.prems obtain c where v: "v = PyDict c"
    by (cases v) auto
  show ?case
    using Cons kv v
    by (auto simp: enrich_cfg_def Let_def res_bind_eq_Inl dest: json_dumps_Inl)
qed simp

lemma port_value_set_other [simp]:
  "s \<noteq> ''port'' \<Longrightarrow> port_value (dict_set c (PyStr s) v) = port_value c"
  by (simp add: port_value_def)

lemma enrich_cfg_set_active:
  assumes "json_ok (PyDict c)"
  shows "\<exists>j. enrich_cfg s h (snd (set_active T (k, PyDict c))) =
    Inr (PyDict (dict_set (dict_set (dict_set c (PyStr ''active'') (PyBool (T (session_name k) = ProbeExit 0)))
      (PyStr ''url'') (PyStr (model_url s h c))) (PyStr ''config_json'') (PyStr j)))"
proof -
  let ?c0 = "dict_set c (PyStr ''active'') (PyBool (T (session_name k) = ProbeExit 0))"
  let ?c1 = "dict_set ?c0 (PyStr ''url'') (PyStr (model_url s h ?c0))"
  have "json_ok (PyDict ?c1)"
    using assms by (intro json_ok_dict_set) auto
  then obtain j where "json_dumps (PyDict ?c1) = Inr j"
    by (blast dest: json_dumps_Inr)
  moreover have "model_url s h ?c0 = model_url s h c"
    by (simp add: model_url_def)
  ultimately show ?thesis
    by (auto simp: set_active_def enrich_cfg_def Let_def)
qed

lemma hub_view_list_all2:
  "list_all2 (\<lambda>(k, v) (k', v'). k' = k \<and> card_fields v' = Some (f k v)) d d' \<Longrightarrow>
   hub_view d' = Some (map (\<lambda>(k, v). (k, f k v)) d)"
proof (induction d arbitrary: d')
  case Nil
  then show ?case by simp
next
  case (Cons e d)
  then show ?case
    by (cases e) (auto simp: list_all2_Cons1)
qed

section \<open>Runs of get_live_data\<close>

text \<open>A run that returns, on a configuration with distinct keys: it probed every name
  once, in order, and each entry of the result is the enrichment of its own entry.\<close>

lemma get_live_data_Inr:
  assumes load: "load_models (config env) = Some (PyDict d)"
    and dist: "distinct (dict_knorms d)"
    and run: "get_live_data env = (tr, Inr out)"
  shows "tr = map (session_name \<circ> fst) d \<and>
         list_all (\<lambda>(k, v). is_dict v \<and> tmux env (session_name k) \<noteq> ProbeSpawnError) d \<and>
         (\<exists>d'. out = PyDict d' \<and>
           list_all2 (\<lambda>(k, v) (k', v'). k' = k \<and>
             enrich_cfg (req_scheme env) (req_host env) (snd (set_active (tmux env) (k, v))) = Inr v') d d')"
proof -
  obtain tr0 r where loop: "probe_loop (tmux env) (map fst d) (PyDict d) = (tr0, r)"
    by fastforce
  with run load obtain m where r: "r = Inr m" and tr0: "tr0 = tr"
    by (cases r) (auto simp: get_live_data_def)
  from probe_loop_dict_Inr [of "[]" d] dist loop r tr0
  have m: "m = PyDict (map (set_active (tmux env)) d)" and "tr = map (session_name \<circ> fst) d"
    and "list_all (\<lambda>(k, v). is_dict v \<and> tmux env (session_name k) \<noteq> ProbeSpawnError) d"
    by auto
  moreover from run load loop r tr0 m obtain d' where
      "enrich_loop (req_scheme env) (req_host env) (map (set_active (tmux env)) d) = Inr d'" and "out = PyDict d'"
    by (auto simp: get_live_data_def res_bind_eq_Inr)
  ultimately show ?thesis
    by (auto simp: enrich_loop_Inr_iff list_all2_map1 set_active_def split: prod.splits pyval.splits
             elim!: list_all2_mono)
qed

text \<open>Any run that returns started from a dictionary of models and kept its keys.\<close>

lemma get_live_data_Inr_shape:
  assumes load: "load_models (config env) = Some models"
    and run: "snd (get_live_data env) = Inr out"
  shows "\<exists>d d'. models = PyDict d \<and> out = PyDict d' \<and> map fst d' = map fst d"
proof -
  obtain keys where keys: "py_iter models = Inr keys"
    using load run by (cases "py_iter models") (auto simp: get_live_data_def)
  obtain tr r where loop: "probe_loop (tmux env) keys models = (tr, r)"
    by fastforce
  have "res_bind r (\<lambda>m. res_bind (py_items m) (\<lambda>d.
          res_bind (enrich_loop (req_scheme env) (req_host env) d) (\<lambda>d'. Inr (PyDict d')))) = Inr out"
    using run load keys loop by (simp add: get_live_data_def)
  then obtain m d1 d' where r: "r = Inr m" and items: "py_items m = Inr d1"
    and d': "enrich_loop (req_scheme env) (req_host env) d1 = Inr d'" and out: "out = PyDict d'"
    by (auto simp: res_bind_eq_Inr)
  from items have m: "m = PyDict d1"
    by (cases m) auto
  from probe_loop_shape [of "tmux env" keys models tr m] loop r m
  obtain d where "models = PyDict d" and "map fst d1 = map fst d"
    by (cases models) auto
  with d' out show ?thesis
    by (auto dest: map_fst_enrich_loop)
qed

lemma set_active_agree:
  "(T1 (session_name (fst e)) = ProbeExit 0) = (T2 (session_name (fst e)) = ProbeExit 0) \<Longrightarrow>
   set_active T1 e = set_active T2 e"
  by (cases e) (simp add: set_active_def split: pyval.splits)

text \<open>The example request satisfies the hypotheses of the refinement.\<close>

lemma example_env_ok:
  "load_models (config example_env) = Some (PyDict example_models)"
  "dict_keys_ok example_models"
  "list_all (\<lambda>(k, v). is_dict v \<and> json_ok v) example_models"
  "list_all (\<lambda>k. tmux example_env (session_name k) \<noteq> ProbeSpawnError) (map fst example_models)"
  by (simp_all add: example_defs load_models_def dict_keys_ok_def session_name_def)

text \<open>The view a well-formed request returns.\<close>

lemma get_live_data_view:
  assumes load: "load_models (config env) = Some (PyDict d)"
    and keys: "dict_keys_ok d"
    and vals: "list_all (\<lambda>(k, v). is_dict v \<and> json_ok v) d"
    and probes: "list_all (\<lambda>k. tmux env (session_name k) \<noteq> ProbeSpawnError) (map fst d)"
  shows "\<exists>d'. get_live_data env = (map (session_name \<circ> fst) d, Inr (PyDict d')) \<and>
              hub_view d' = Some (live_view (tmux env) (req_scheme env) (req_host env) d)"
proof -
  let ?T = "tmux env" and ?s = "req_scheme env" and ?h = "req_host env"
  have pre: "list_all (\<lambda>(k, v). hashable k \<and> is_dict v \<and> ?T (session_name k) \<noteq> ProbeSpawnError) d"
    using keys vals probes by (auto simp: dict_keys_ok_def list_all_iff)
  have loop: "probe_loop ?T (map fst d) (PyDict d) =
              (map (session_name \<circ> fst) d, Inr (PyDict (map (set_active ?T) d)))"
    using probe_loop_dicts [of "[]" d ?T] keys pre by (simp add: dict_keys_ok_def)
  let ?f = "\<lambda>k v. (?T (session_name k) = ProbeExit 0,
                   ?s @ ''://'' @ host_name ?h @ '':'' @ py_str (port_value (dict_of v)))"
  have each: "list_all (\<lambda>(k, v). \<exists>v'. enrich_cfg ?s ?h v = Inr v' \<and> card_fields v' = Some (?f k v))
                (map (set_active ?T) d)"
  proof (unfold list_all_iff, intro ballI)
    fix e assume "e \<in> set (map (set_active ?T) d)"
    then obtain k v where kv: "(k, v) \<in> set d" and e: "e = set_active ?T (k, v)"
      by auto
    then obtain c where v: "v = PyDict c" and ok: "json_ok (PyDict c)"
      using vals by (cases v) (auto simp: list_all_iff)
    from enrich_cfg_set_active [OF ok, of ?s ?h ?T k] obtain j where
      "enrich_cfg ?s ?h (snd e) = Inr (PyDict (dict_set (dict_set (dict_set c (PyStr ''active'')
          (PyBool (?T (session_name k) = ProbeExit 0))) (PyStr ''url'') (PyStr (model_url ?s ?h c)))
          (PyStr ''config_json'') (PyStr j)))"
      using e v by auto
    then show "case e of (k, v) \<Rightarrow> \<exists>v'. enrich_cfg ?s ?h v = Inr v' \<and> card_fields v' = Some (?f k v)"
      using e v by (simp add: set_active_def model_url_def)
  qed
  obtain d' where d': "enrich_loop ?s ?h (map (set_active ?T) d) = Inr d'"
    and rel: "list_all2 (\<lambda>(k, v) (k', v'). k' = k \<and> card_fields v' = Some (?f k v)) (map (set_active ?T) d) d'"
    using enrich_loop_exists [OF each] by blast
  have view: "hub_view d' = Some (live_view ?T ?s ?h d)"
    using hub_view_list_all2 [OF rel]
    by (auto simp: live_view_def set_active_def split: pyval.splits)
  show ?thesis
    using load loop d' view by (auto simp: get_live_data_def)
qed

section \<open>Properties of a request\<close>

text \<open>C1: Refinement of the promised view. When the configuration is a dictionary with distinct hashable keys whose entries are JSON-serialisable dictionaries and tmux can be started, \<open>get_live_data\<close> probes \<open>svc-<name>\<close> once per configured name in configuration order, returns a dictionary, and that dictionary read back as (name, active, url) triples is exactly \<open>live_view\<close>: the flag is whether the probe exited with status 0, the URL is \<open>scheme://host:port\<close> from the request and the configured port.\<close>

theorem get_live_data_refines:
  assumes load: "load_models (config env) = Some (PyDict d)"
    and keys: "dict_keys_ok d"
    and vals: "list_all (\<lambda>(k, v). is_dict v \<and> json_ok v) d"
    and probes: "list_all (\<lambda>k. tmux env (session_name k) \<noteq> ProbeSpawnError) (map fst d)"
  shows "\<exists>d'. get_live_data env = (map (session_name \<circ> fst) d, Inr (PyDict d')) \<and>
              hub_view d' = Some (live_view (tmux env) (req_scheme env) (req_host env) d)"
  using get_live_data_view [OF load keys vals probes] .

theorem get_live_data_refines_witness:
  "load_models (config example_env) = Some (PyDict example_models) \<and> dict_keys_ok example_models \<and>
   list_all (\<lambda>(k, v). is_dict v \<and> json_ok v) example_models \<and>
   list_all (\<lambda>k. tmux example_env (session_name k) \<noteq> ProbeSpawnError) (map fst example_models) \<and>
   (\<exists>d'. get_live_data example_env = (map (session_name \<circ> fst) example_models, Inr (PyDict d')) \<and>
        hub_view d' = Some (live_view (tmux example_env) (req_scheme example_env) (req_host example_env) example_models))"
  using example_env_ok get_live_data_refines [of example_env example_models] by blast

text \<open>C2: No additions and no silent drops. Whenever a request that loaded a configuration returns, the configuration was a dictionary and the returned dictionary has exactly its keys, in the same order.\<close>

theorem get_live_data_keys:
  assumes "load_models (config env) = Some models" and "snd (get_live_data env) = Inr out"
  shows "\<exists>d d'. models = PyDict d \<and> out = PyDict d' \<and> map fst d' = map fst d"
  using get_live_data_Inr_shape [OF assms] .

theorem get_live_data_keys_witness:
  "load_models (config example_env) = Some (PyDict example_models) \<and>
   snd (get_live_data example_env) = Inr (projr (snd (get_live_data example_env))) \<and>
   (\<exists>d d'. PyDict example_models = PyDict d \<and> projr (snd (get_live_data example_env)) = PyDict d' \<and>
      map fst d' = map fst d)"
proof -
  have h1: "load_models (config example_env) = Some (PyDict example_models)"
    by (simp add: example_defs load_models_def)
  have h2: "snd (get_live_data example_env) = Inr (projr (snd (get_live_data example_env)))"
    by (simp add: example_defs get_live_data_def load_models_def probe_step_def probe_active_def
                  session_name_def enrich_cfg_def Let_def json_dumps_def)
  show ?thesis
    using h1 h2 get_live_data_keys [OF h1 h2] by blast
qed

text \<open>C3: Isolation across entries. Two requests that differ only in the tmux sessions, and both return, give the same i-th entry whenever the probe of the i-th configured name has the same outcome (exit status 0 or not) in both.\<close>

theorem get_live_data_isolation:
  assumes load: "load_models (config env1) = Some (PyDict d)" and dist: "distinct (dict_knorms d)"
    and same: "config env2 = config env1" "req_scheme env2 = req_scheme env1" "req_host env2 = req_host env1"
    and run1: "get_live_data env1 = (tr1, Inr (PyDict d1))"
    and run2: "get_live_data env2 = (tr2, Inr (PyDict d2))"
    and i: "i < length d"
    and agree: "(tmux env1 (session_name (fst (d ! i))) = ProbeExit 0) =
                (tmux env2 (session_name (fst (d ! i))) = ProbeExit 0)"
  shows "d1 ! i = d2 ! i"
proof -
  let ?R = "\<lambda>env. \<lambda>(k, v) (k', v'). k' = k \<and>
             enrich_cfg (req_scheme env) (req_host env) (snd (set_active (tmux env) (k, v))) = Inr v'"
  have load2: "load_models (config env2) = Some (PyDict d)"
    using load same by simp
  from get_live_data_Inr [OF load dist run1] have r1: "list_all2 (?R env1) d d1"
    by auto
  from get_live_data_Inr [OF load2 dist run2] have r2: "list_all2 (?R env2) d d2"
    by auto
  have e1: "?R env1 (d ! i) (d1 ! i)" and e2: "?R env2 (d ! i) (d2 ! i)"
    using list_all2_nthD [OF r1 i] list_all2_nthD [OF r2 i] by auto
  have "set_active (tmux env1) (d ! i) = set_active (tmux env2) (d ! i)"
    using agree by (rule set_active_agree)
  with e1 e2 same show ?thesis
    by (cases "d ! i"; cases "d1 ! i"; cases "d2 ! i") auto
qed

theorem get_live_data_isolation_witness:
  "load_models (config example_env) = Some (PyDict example_models) \<and> distinct (dict_knorms example_models) \<and>
   config (example_env\<lparr>tmux := \<lambda>_. ProbeExit 0\<rparr>) = config example_env \<and>
   req_scheme (example_env\<lparr>tmux := \<lambda>_. ProbeExit 0\<rparr>) = req_scheme example_env \<and>
   req_host (example_env\<lparr>tmux := \<lambda>_. ProbeExit 0\<rparr>) = req_host example_env \<and>
   get_live_data example_env = (fst (get_live_data example_env), Inr (PyDict (dict_of (projr (snd (get_live_data example_env)))))) \<and>
   get_live_data (example_env\<lparr>tmux := \<lambda>_. ProbeExit 0\<rparr>) =
     (fst (get_live_data (example_env\<lparr>tmux := \<lambda>_. ProbeExit 0\<rparr>)),
      Inr (PyDict (dict_of (projr (snd (get_live_data (example_env\<lparr>tmux := \<lambda>_. ProbeExit 0\<rparr>))))))) \<and>
   0 < length example_models \<and>
   (tmux example_env (session_name (fst (example_models ! 0))) = ProbeExit 0) =
     (tmux (example_env\<lparr>tmux := \<lambda>_. ProbeExit 0\<rparr>) (session_name (fst (example_models ! 0))) = ProbeExit 0) \<and>
   dict_of (projr (snd (get_live_data example_env))) ! 0 =
     dict_of (projr (snd (get_live_data (example_env\<lparr>tmux := \<lambda>_. ProbeExit 0\<rparr>)))) ! 0"
proof -
  let ?env2 = "example_env\<lparr>tmux := \<lambda>_. ProbeExit 0\<rparr>"
  have h1: "load_models (config example_env) = Some (PyDict example_models)"
    by (simp add: example_defs load_models_def)
  have h2: "distinct (dict_knorms example_models)"
    by (simp add: example_defs)
  have h3: "config ?env2 = config example_env" "req_scheme ?env2 = req_scheme example_env"
           "req_host ?env2 = req_host example_env"
    by simp_all
  have h4: "get_live_data example_env = (fst (get_live_data example_env),
              Inr (PyDict (dict_of (projr (snd (get_live_data example_env))))))"
    by (simp add: example_defs get_live_data_def load_models_def probe_step_def probe_active_def
                  session_name_def enrich_cfg_def Let_def json_dumps_def)
  have h5: "get_live_data ?env2 = (fst (get_live_data ?env2), Inr (PyDict (dict_of (projr (snd (get_live_data ?env2))))))"
    by (simp add: example_defs get_live_data_def load_models_def probe_step_def probe_active_def
                  session_name_def enrich_cfg_def Let_def json_dumps_def)
  have h6: "0 < length example_models"
    by (simp add: example_defs)
  have h7: "(tmux example_env (session_name (fst (example_models ! 0))) = ProbeExit 0) =
            (tmux ?env2 (session_name (fst (example_models ! 0))) = ProbeExit 0)"
    by (simp add: example_defs session_name_def)
  show ?thesis
    using h1 h2 h3 h4 h5 h6 h7 get_live_data_isolation [OF h1 h2 h3 h4 h5 h6 h7] by blast
qed

text \<open>C4: A configured entry that is not a mapping, or a tmux that cannot be started, makes the request raise: the loops of lines 60-70 are outside the \<open>try\<close>, so the failure is not degraded to an empty view.\<close>

theorem get_live_data_raises:
  assumes load: "load_models (config env) = Some (PyDict d)" and dist: "distinct (dict_knorms d)"
    and kv: "(k, v) \<in> set d"
    and bad: "\<not> is_dict v \<or> tmux env (session_name k) = ProbeSpawnError"
  shows "isl (snd (get_live_data env))"
proof (rule ccontr)
  assume "\<not> isl (snd (get_live_data env))"
  then obtain tr out where "get_live_data env = (tr, Inr out)"
    by (cases "get_live_data env"; cases "snd (get_live_data env)") auto
  from get_live_data_Inr [OF load dist this]
  have "list_all (\<lambda>(k, v). is_dict v \<and> tmux env (session_name k) \<noteq> ProbeSpawnError) d"
    by blast
  with kv bad show False
    by (auto simp: list_all_iff)
qed

theorem get_live_data_raises_witness:
  "load_models (config (one_model_env PyNone)) = Some (PyDict [(PyStr ''alpha'', PyNone)]) \<and>
   distinct (dict_knorms [(PyStr ''alpha'', PyNone)]) \<and>
   (PyStr ''alpha'', PyNone) \<in> set [(PyStr ''alpha'', PyNone)] \<and>
   is_dict PyNone = False \<and>
   isl (snd (get_live_data (one_model_env PyNone)))"
proof -
  have h1: "load_models (config (one_model_env PyNone)) = Some (PyDict [(PyStr ''alpha'', PyNone)])"
    by (simp add: example_defs load_models_def)
  have h2: "distinct (dict_knorms [(PyStr ''alpha'', PyNone)])"
    by simp
  have h3: "(PyStr ''alpha'', PyNone) \<in> set [(PyStr ''alpha'', PyNone)]"
    by simp
  have h4: "\<not> is_dict PyNone \<or> tmux (one_model_env PyNone) (session_name (PyStr ''alpha'')) = ProbeSpawnError"
    by simp
  show ?thesis
    using h1 get_live_data_raises [OF h1 h2 h3 h4] by simp
qed

text \<open>C5: URL synthesis uses the request host up to its first colon and the configured port: \<open>synthesize("https", "example.com:9999", 8080) == "https://example.com:8080"\<close>.\<close>

theorem model_url_strips_host_port:
  "CHR '':'' \<notin> set name \<Longrightarrow>
   model_url scheme (name @ '':'' @ p) c = scheme @ ''://'' @ name @ '':'' @ py_str (port_value c)"
  by (simp add: model_url_def host_name_def hd_py_split)

theorem model_url_strips_host_port_witness:
  "CHR '':'' \<notin> set ''example.com'' \<and>
   model_url ''https'' (''example.com'' @ '':'' @ ''9999'') [(PyStr ''port'', PyInt 8080)] = ''https://example.com:8080''"
proof -
  have h: "CHR '':'' \<notin> set ''example.com''"
    by simp
  show ?thesis
    using h model_url_strips_host_port [OF h, of "''https''" "''9999''" "[(PyStr ''port'', PyInt 8080)]"]
    by (simp add: port_value_def show_int_def)
qed

text \<open>C6: A model without a \<open>port\<close> item gets the sentinel port 0 and a well-formed URL.\<close>

theorem model_url_default_port:
  "dict_get c (PyStr ''port'') = None \<Longrightarrow> model_url scheme host c = scheme @ ''://'' @ host_name host @ '':0''"
  by (simp add: model_url_def port_value_def show_int_def)

theorem model_url_default_port_witness:
  "dict_get [(PyStr ''type'', PyStr ''llm'')] (PyStr ''port'') = None \<and>
   model_url ''http'' ''10.0.0.5'' [(PyStr ''type'', PyStr ''llm'')] = ''http://10.0.0.5:0''"
proof -
  have h: "dict_get [(PyStr ''type'', PyStr ''llm'')] (PyStr ''port'') = None"
    by simp
  show ?thesis
    using h model_url_default_port [OF h, of "''http''" "''10.0.0.5''"]
    by (simp add: host_name_def)
qed

text \<open>C7: A missing or unreadable file, a document that is empty, false or not a mapping,
  or one whose \<open>models\<close> item is absent or an empty mapping, gives the empty mapping and
  issues no probe: these are exactly the early returns of lines 50-57 and the loops over an
  empty dict.\<close>

theorem get_live_data_no_config:
  assumes "config env = ConfigMissing \<or> config env = ConfigUnreadable \<or>
    (\<exists>raw. config env = ConfigLoaded raw \<and>
       (\<not> py_truthy raw \<or> \<not> is_dict raw \<or> dict_get (dict_of raw) (PyStr ''models'') = None \<or>
        dict_get (dict_of raw) (PyStr ''models'') = Some (PyDict [])))"
  shows "get_live_data env = ([], Inr (PyDict []))"
  using assms by (cases "config env") (auto simp: get_live_data_def load_models_def split: pyval.splits)

theorem get_live_data_no_config_witness:
  "config (example_env\<lparr>config := ConfigUnreadable\<rparr>) = ConfigUnreadable \<and>
   get_live_data (example_env\<lparr>config := ConfigUnreadable\<rparr>) = ([], Inr (PyDict []))"
proof -
  have h: "config (example_env\<lparr>config := ConfigUnreadable\<rparr>) = ConfigUnreadable"
    by simp
  show ?thesis
    using h get_live_data_no_config [of "example_env\<lparr>config := ConfigUnreadable\<rparr>"] by blast
qed

text \<open>C10: A configured entry holding a value \<open>json.dumps\<close> cannot encode (a YAML date,
  or a dictionary with a key of another type) under an item the second loop does not
  overwrite makes the request fail with \<open>TypeError\<close>, after every service was probed.\<close>

theorem get_live_data_unserialisable:
  assumes load: "load_models (config env) = Some (PyDict d)" and keys: "dict_keys_ok d"
    and dicts: "list_all (\<lambda>(k, v). is_dict v) d"
    and probes: "list_all (\<lambda>k. tmux env (session_name k) \<noteq> ProbeSpawnError) (map fst d)"
    and kv: "(k, PyDict c) \<in> set d" and item: "(PyStr f, x) \<in> set c"
    and f: "f \<notin> {''active'', ''url'', ''config_json''}" and bad: "\<not> json_ok x"
  shows "get_live_data env = (map (session_name \<circ> fst) d, Inl TypeError)"
proof -
  let ?T = "tmux env" and ?s = "req_scheme env" and ?h = "req_host env"
  have pre: "list_all (\<lambda>(k, v). hashable k \<and> is_dict v \<and> ?T (session_name k) \<noteq> ProbeSpawnError) d"
    using keys dicts probes by (auto simp: dict_keys_ok_def list_all_iff)
  have loop: "probe_loop ?T (map fst d) (PyDict d) =
              (map (session_name \<circ> fst) d, Inr (PyDict (map (set_active ?T) d)))"
    using probe_loop_dicts [of "[]" d ?T] keys pre by (simp add: dict_keys_ok_def)
  have fails: "enrich_loop ?s ?h (map (set_active ?T) d) = Inl TypeError"
  proof (cases "enrich_loop ?s ?h (map (set_active ?T) d)")
    case (Inl e)
    have "list_all (\<lambda>(k, v). is_dict v) (map (set_active ?T) d)"
      using dicts by (auto simp: list_all_iff set_active_def split: pyval.splits)
    then show ?thesis
      using Inl enrich_loop_Inl by blast
  next
    case (Inr d')
    have "set_active ?T (k, PyDict c) \<in> set (map (set_active ?T) d)"
      using kv by auto
    then obtain v' where "enrich_cfg ?s ?h (snd (set_active ?T (k, PyDict c))) = Inr v'"
      using Inr by (fastforce simp: enrich_loop_Inr_iff list_all2_conv_all_nth in_set_conv_nth)
    moreover have "\<not> json_ok (PyDict (dict_set (dict_set c (PyStr ''active'') b) (PyStr ''url'') u))" for b u
      using item f bad dict_set_keeps [of "PyStr f" x c "PyStr ''active''" b]
        dict_set_keeps [of "PyStr f" x "dict_set c (PyStr ''active'') b" "PyStr ''url''" u]
      by (auto simp: list_all_iff)
    ultimately show ?thesis
      by (auto simp: set_active_def enrich_cfg_def Let_def res_bind_eq_Inr dest!: json_dumps_ok)
  qed
  show ?thesis
    using load loop fails by (simp add: get_live_data_def)
qed

theorem get_live_data_unserialisable_witness:
  "get_live_data (one_model_env (PyDict [(PyStr ''port'', PyInt 8000), (PyStr ''released'', PyDate 2024 5 1)])) =
   ([''svc-alpha''], Inl TypeError)"
proof -
  let ?c = "[(PyStr ''port'', PyInt 8000), (PyStr ''released'', PyDate 2024 5 1)]"
  let ?d = "[(PyStr ''alpha'', PyDict ?c)]"
  have h: "load_models (config (one_model_env (PyDict ?c))) = Some (PyDict ?d)" "dict_keys_ok ?d"
    "list_all (\<lambda>(k, v). is_dict v) ?d"
    "list_all (\<lambda>k. tmux (one_model_env (PyDict ?c)) (session_name k) \<noteq> ProbeSpawnError) (map fst ?d)"
    "(PyStr ''alpha'', PyDict ?c) \<in> set ?d" "(PyStr ''released'', PyDate 2024 5 1) \<in> set ?c"
    "''released'' \<notin> {''active'', ''url'', ''config_json''}" "\<not> json_ok (PyDate 2024 5 1)"
    by (simp_all add: example_defs load_models_def dict_keys_ok_def session_name_def)
  show ?thesis
    using get_live_data_unserialisable [OF h] by (simp add: session_name_def)
qed

text \<open>C11: The port item, when present, is written with \<open>str()\<close> whatever its value: the
  sentinel 0 of \<open>cfg.get('port', 0)\<close> replaces only a missing item, so a null port gives
  \<open>:None\<close> and a list \<open>:[8000]\<close>.\<close>

theorem model_url_present_port:
  "dict_get c (PyStr ''port'') = Some p \<Longrightarrow> model_url scheme host c = scheme @ ''://'' @ host_name host @ '':'' @ py_str p"
  by (simp add: model_url_def port_value_def)

theorem model_url_present_port_witness:
  "dict_get [(PyStr ''port'', PyNone)] (PyStr ''port'') = Some PyNone \<and>
   model_url ''http'' ''10.0.0.5'' [(PyStr ''port'', PyNone)] = ''http://10.0.0.5:None''"
proof -
  have h: "dict_get [(PyStr ''port'', PyNone)] (PyStr ''port'') = Some PyNone"
    by simp
  show ?thesis
    using h model_url_present_port [OF h, of "''http''" "''10.0.0.5''"] by (simp add: host_name_def)
qed

end
