(* ===== verification/Ansi.thy ===== *)
theory Ansi
  imports PyValue "HOL-Library.Sublist"
begin

text \<open>
  The GPU monitor of the Model Hub (\<open>get_nvtop_output\<close>, app.py lines 23-41): a snapshot
  of \<open>nvtop\<close> from which the regular expression of line 36,
  \<open>\x1B(?:[@-Z\\-_]|\[[0-?]*[ -/]*[@-~])\<close>, removes ANSI escape sequences with
  \<open>re.sub\<close>. The pattern is written down as a value of a small regular-expression
  type with its language (\<open>rx_match\<close>), \<open>re.sub\<close> as the relation \<open>re_sub\<close> (scan
  left to right, delete a match at the current position, otherwise copy one character),
  and the substitution the program computes as the one-pass scanner \<open>ansi_strip\<close>.
  The theory proves that the scanner computes exactly \<open>re.sub\<close> with this pattern,
  what it keeps and removes, and the messages of the error paths.
\<close>

section \<open>Regular expressions and re.sub\<close>

text \<open>Character classes are lists of code-point ranges, as \<open>[@-Z\\-_]\<close> is the ranges
  U+0040-U+005A and U+005C-U+005F.\<close>

datatype rx =
    RLit char
  | RClass "(nat \<times> nat) list"
  | RSeq rx rx
  | RAlt rx rx
  | RStar rx

definition in_class :: "(nat \<times> nat) list \<Rightarrow> char \<Rightarrow> bool" where
  "in_class rs c = list_ex (\<lambda>(lo, hi). lo \<le> of_char c \<and> of_char c \<le> hi) rs"

inductive rx_match :: "rx \<Rightarrow> string \<Rightarrow> bool" where
  lit: "rx_match (RLit c) [c]"
| cls: "in_class rs c \<Longrightarrow> rx_match (RClass rs) [c]"
| seq: "rx_match r xs \<Longrightarrow> rx_match s ys \<Longrightarrow> rx_match (RSeq r s) (xs @ ys)"
| alt1: "rx_match r xs \<Longrightarrow> rx_match (RAlt r s) xs"
| alt2: "rx_match s xs \<Longrightarrow> rx_match (RAlt r s) xs"
| star0: "rx_match (RStar r) []"
| star: "rx_match r xs \<Longrightarrow> rx_match (RStar r) ys \<Longrightarrow> rx_match (RStar r) (xs @ ys)"

text \<open>
  \<open>re.sub(pattern, "", s)\<close> for a pattern without empty matches: at each position a
  non-empty prefix of the rest that the pattern matches is deleted and the scan resumes
  after it; where nothing matches, the character is copied. (Python takes the match its
  backtracking engine finds first; for the pattern of line 36 there is never more than
  one, \<open>ansi_re_prefix_iff\<close>.)
\<close>

inductive re_sub :: "rx \<Rightarrow> string \<Rightarrow> string \<Rightarrow> bool" where
  sub_nil: "re_sub r [] []"
| sub_match: "rx_match r p \<Longrightarrow> p \<noteq> [] \<Longrightarrow> re_sub r s out \<Longrightarrow> re_sub r (p @ s) out"
| sub_copy: "\<not> (\<exists>p. prefix p (c # s) \<and> rx_match r p) \<Longrightarrow> re_sub r s out \<Longrightarrow> re_sub r (c # s) (c # out)"

section \<open>The pattern of line 36\<close>

definition esc :: char where
  "esc = CHR 0x1B"

definition ansi_fe :: "(nat \<times> nat) list" where
  "ansi_fe = [(64, 90), (92, 95)]"

definition ansi_param :: "(nat \<times> nat) list" where
  "ansi_param = [(48, 63)]"

definition ansi_inter :: "(nat \<times> nat) list" where
  "ansi_inter = [(32, 47)]"

definition ansi_final :: "(nat \<times> nat) list" where
  "ansi_final = [(64, 126)]"

definition ansi_re :: rx where
  "ansi_re =
     RSeq (RLit esc)
       (RAlt (RClass ansi_fe)
          (RSeq (RLit CHR ''['')
             (RSeq (RStar (RClass ansi_param)) (RSeq (RStar (RClass ansi_inter)) (RClass ansi_final)))))"

text \<open>The match of the pattern at the start of a string, computed directly: the pattern
  is deterministic, so there is at most one.\<close>

fun ansi_prefix :: "string \<Rightarrow> string option" where
  "ansi_prefix (e # c # r) =
     (if e \<noteq> esc then None
      else if in_class ansi_fe c then Some [e, c]
      else if c \<noteq> CHR ''['' then None
      else (let ps = takeWhile (in_class ansi_param) r;
                r1 = dropWhile (in_class ansi_param) r;
                is = takeWhile (in_class ansi_inter) r1
            in case dropWhile (in_class ansi_inter) r1 of
                 f # _ \<Rightarrow> if in_class ansi_final f then Some (e # c # ps @ is @ [f]) else None
               | [] \<Rightarrow> None))"
| "ansi_prefix _ = None"

section \<open>The substitution as a one-pass scanner (line 37)\<close>

text \<open>
  The scanner reads each character once. After an ESC it waits for the second character;
  inside a control sequence it buffers \<open>[\<close>, the parameter and the intermediate
  characters. When the sequence cannot be completed, the ESC and the buffer are written
  out (they contain no ESC, so \<open>re.sub\<close>, which resumes one character after the ESC,
  copies them unchanged) and the offending character is scanned afresh.
\<close>

datatype ansi_state = Plain | AfterEsc | InParams string | InInters string

fun ansi_scan :: "ansi_state \<Rightarrow> string \<Rightarrow> string" where
  "ansi_scan Plain [] = []"
| "ansi_scan Plain (c # cs) = (if c = esc then ansi_scan AfterEsc cs else c # ansi_scan Plain cs)"
| "ansi_scan AfterEsc [] = [esc]"
| "ansi_scan AfterEsc (c # cs) =
     (if in_class ansi_fe c then ansi_scan Plain cs
      else if c = CHR ''['' then ansi_scan (InParams [c]) cs
      else esc # (if c = esc then ansi_scan AfterEsc cs else c # ansi_scan Plain cs))"
| "ansi_scan (InParams b) [] = esc # b"
| "ansi_scan (InParams b) (c # cs) =
     (if in_class ansi_param c then ansi_scan (InParams (b @ [c])) cs
      else if in_class ansi_inter c then ansi_scan (InInters (b @ [c])) cs
      else if in_class ansi_final c then ansi_scan Plain cs
      else esc # b @ (if c = esc then ansi_scan AfterEsc cs else c # ansi_scan Plain cs))"
| "ansi_scan (InInters b) [] = esc # b"
| "ansi_scan (InInters b) (c # cs) =
     (if in_class ansi_inter c then ansi_scan (InInters (b @ [c])) cs
      else if in_class ansi_final c then ansi_scan Plain cs
      else esc # b @ (if c = esc then ansi_scan AfterEsc cs else c # ansi_scan Plain cs))"

definition ansi_strip :: "string \<Rightarrow> string" where
  "ansi_strip s = ansi_scan Plain s"

section \<open>get_nvtop_output (lines 23-41)\<close>

text \<open>
  What \<open>subprocess.check_output(cmd, ..., stderr=STDOUT, timeout=1.5)\<close> can do: nvtop
  exits with a status and its output (standard output and error, decoded as UTF-8 with
  undecodable bytes dropped); it is killed by a signal (negative \<open>returncode\<close>, with the
  \<open>repr\<close> of the signal); it runs past the timeout; or it cannot be started (an
  \<open>OSError\<close> with its message, e.g. \<open>[Errno 2] No such file or directory: 'nvtop'\<close>).
\<close>

datatype nvtop_outcome =
    NvtopExit nat string
  | NvtopKilled string
  | NvtopTimeout
  | NvtopOSError string

definition nvtop_cmd :: "string list" where
  "nvtop_cmd = [''nvtop'', ''-p'', ''-d'', ''1'']"

text \<open>\<open>str\<close> of the \<open>CalledProcessError\<close> that \<open>check_output\<close> raises for a non-zero
  status: \<open>"Command '%s' returned non-zero exit status %d." % (cmd, returncode)\<close>, and
  \<open>"Command '%s' died with %r."\<close> for a signal.\<close>

definition called_process_error_str :: "nvtop_outcome \<Rightarrow> string" where
  "called_process_error_str oc =
     ''Command '' @ [CHR 0x27] @ py_repr (PyList (map PyStr nvtop_cmd)) @ [CHR 0x27] @
     (case oc of
        NvtopExit rc _ \<Rightarrow> '' returned non-zero exit status '' @ show_nat rc @ ''.''
      | NvtopKilled sig \<Rightarrow> '' died with '' @ sig @ ''.''
      | _ \<Rightarrow> [])"

text \<open>The handler of line 40: \<open>f"Error: {e}\nMake sure nvtop is installed (sudo apt install nvtop)."\<close>\<close>

definition nvtop_error :: "string \<Rightarrow> string" where
  "nvtop_error msg = ''Error: '' @ msg @ [CHR 0x0A] @ ''Make sure nvtop is installed (sudo apt install nvtop).''"

definition get_nvtop_output :: "nvtop_outcome \<Rightarrow> string" where
  "get_nvtop_output oc =
     (case oc of
        NvtopExit 0 out \<Rightarrow> ansi_strip out
      | NvtopExit rc out \<Rightarrow> nvtop_error (called_process_error_str oc)
      | NvtopKilled sig \<Rightarrow> nvtop_error (called_process_error_str oc)
      | NvtopTimeout \<Rightarrow> ''Error: nvtop timed out. Run `nvtop` manually to verify access.''
      | NvtopOSError msg \<Rightarrow> nvtop_error msg)"

section \<open>Properties: the pattern and the scanner\<close>

lemmas ansi_class_defs = in_class_def ansi_fe_def ansi_param_def ansi_inter_def ansi_final_def

lemma of_char_esc [simp]: "of_char esc = (27::nat)"
  by (simp add: esc_def)

lemma ansi_class_iff [simp]:
  "in_class ansi_fe c \<longleftrightarrow> (64 \<le> (of_char c :: nat) \<and> (of_char c :: nat) \<le> 90) \<or> (92 \<le> (of_char c :: nat) \<and> (of_char c :: nat) \<le> 95)"
  "in_class ansi_param c \<longleftrightarrow> 48 \<le> (of_char c :: nat) \<and> (of_char c :: nat) \<le> 63"
  "in_class ansi_inter c \<longleftrightarrow> 32 \<le> (of_char c :: nat) \<and> (of_char c :: nat) \<le> 47"
  "in_class ansi_final c \<longleftrightarrow> 64 \<le> (of_char c :: nat) \<and> (of_char c :: nat) \<le> 126"
  by (simp_all add: ansi_class_defs)

lemma lbracket_not_fe [simp]: "\<not> in_class ansi_fe CHR ''[''"
  by (simp add: ansi_class_defs)

lemma esc_ne_lbracket [simp]: "esc \<noteq> CHR ''[''" "CHR ''['' \<noteq> esc"
  by (simp_all add: esc_def)


lemma ansi_strip_Nil [simp]: "ansi_strip [] = []"
  by (simp add: ansi_strip_def)

lemma ansi_strip_Cons_not_esc [simp]: "c \<noteq> esc \<Longrightarrow> ansi_strip (c # cs) = c # ansi_strip cs"
  by (simp add: ansi_strip_def)

lemma ansi_strip_append_no_esc: "esc \<notin> set xs \<Longrightarrow> ansi_strip (xs @ ys) = xs @ ansi_strip ys"
  by (induction xs) auto

lemma ansi_strip_id: "esc \<notin> set xs \<Longrightarrow> ansi_strip xs = xs"
  using ansi_strip_append_no_esc [of xs "[]"] by simp

lemma ansi_scan_fail:
  "ansi_strip (c # cs) = (if c = esc then ansi_scan AfterEsc cs else c # ansi_scan Plain cs)"
  by (simp add: ansi_strip_def)

lemma ansi_scan_inters:
  "list_all (in_class ansi_inter) is \<Longrightarrow> ansi_scan (InInters b) (is @ t) = ansi_scan (InInters (b @ is)) t"
  by (induction "is" arbitrary: b) auto

lemma ansi_scan_params:
  "list_all (in_class ansi_param) ps \<Longrightarrow> ansi_scan (InParams b) (ps @ t) = ansi_scan (InParams (b @ ps)) t"
  by (induction ps arbitrary: b) auto

lemma ansi_scan_params_inters:
  assumes "list_all (in_class ansi_inter) is" and "is = [] \<Longrightarrow> t = [] \<or> \<not> in_class ansi_param (hd t)"
    and "t = [] \<or> \<not> in_class ansi_inter (hd t)"
  shows "ansi_scan (InParams b) (is @ t) = ansi_scan (InInters (b @ is)) t"
proof (cases "is")
  case Nil
  with assms show ?thesis
    by (cases t) auto
next
  case (Cons i is')
  with assms show ?thesis
    by (simp add: ansi_scan_inters)
qed

lemma ansi_scan_inters_end:
  "t = [] \<or> \<not> in_class ansi_inter (hd t) \<Longrightarrow>
   ansi_scan (InInters b) t =
     (case t of [] \<Rightarrow> esc # b
      | f # rest \<Rightarrow> if in_class ansi_final f then ansi_strip rest else esc # b @ ansi_strip (f # rest))"
  by (cases t) (auto simp: ansi_scan_fail ansi_strip_def)

lemma hd_dropWhile_not:
  "dropWhile P xs \<noteq> [] \<Longrightarrow> \<not> P (hd (dropWhile P xs))"
  by (induction xs) auto

lemma ansi_scan_csi:
  "ansi_scan (InParams b) r =
     (case dropWhile (in_class ansi_inter) (dropWhile (in_class ansi_param) r) of
        [] \<Rightarrow> esc # b @ r
      | f # rest \<Rightarrow>
          if in_class ansi_final f then ansi_strip rest
          else esc # b @ takeWhile (in_class ansi_param) r
                 @ takeWhile (in_class ansi_inter) (dropWhile (in_class ansi_param) r) @ ansi_strip (f # rest))"
proof -
  define ps where "ps = takeWhile (in_class ansi_param) r"
  define r1 where "r1 = dropWhile (in_class ansi_param) r"
  define iss where "iss = takeWhile (in_class ansi_inter) r1"
  define t where "t = dropWhile (in_class ansi_inter) r1"
  have r: "r = ps @ iss @ t"
    by (simp add: ps_def r1_def iss_def t_def)
  have ps: "list_all (in_class ansi_param) ps" and iss: "list_all (in_class ansi_inter) iss"
    by (auto simp: ps_def iss_def list_all_iff dest: set_takeWhileD)
  have hd_r1: "r1 = [] \<or> \<not> in_class ansi_param (hd r1)"
    using hd_dropWhile_not [of "in_class ansi_param" r] by (auto simp: r1_def)
  have t_r1: "iss = [] \<Longrightarrow> t = r1"
    by (cases r1) (auto simp: iss_def t_def split: if_splits)
  have hd_t: "t = [] \<or> \<not> in_class ansi_inter (hd t)"
    using hd_dropWhile_not [of "in_class ansi_inter" r1] by (auto simp: t_def)
  have eqs: "takeWhile (in_class ansi_param) r = ps"
      "takeWhile (in_class ansi_inter) (dropWhile (in_class ansi_param) r) = iss"
      "dropWhile (in_class ansi_inter) (dropWhile (in_class ansi_param) r) = t"
    by (simp_all add: ps_def r1_def iss_def t_def)
  have "ansi_scan (InParams b) r = ansi_scan (InInters (b @ ps @ iss)) t"
    using ps iss hd_r1 t_r1 hd_t
    by (simp add: r ansi_scan_params ansi_scan_params_inters del: ansi_class_iff)
  also have "\<dots> = (case t of [] \<Rightarrow> esc # b @ ps @ iss
      | f # rest \<Rightarrow> if in_class ansi_final f then ansi_strip rest else esc # (b @ ps @ iss) @ ansi_strip (f # rest))"
    using hd_t by (simp add: ansi_scan_inters_end del: ansi_class_iff)
  finally show ?thesis
    unfolding eqs by (cases t) (simp_all add: r del: ansi_class_iff)
qed

lemma ansi_strip_csi:
  "ansi_strip (esc # CHR ''['' # r) =
     (case ansi_prefix (esc # CHR ''['' # r) of
        Some p \<Rightarrow> ansi_strip (drop (length p) (esc # CHR ''['' # r))
      | None \<Rightarrow> esc # CHR ''['' # ansi_strip r)"
proof -
  define ps where "ps = takeWhile (in_class ansi_param) r"
  define iss where "iss = takeWhile (in_class ansi_inter) (dropWhile (in_class ansi_param) r)"
  define t where "t = dropWhile (in_class ansi_inter) (dropWhile (in_class ansi_param) r)"
  have r: "r = ps @ iss @ t"
    by (simp add: ps_def iss_def t_def)
  have no_esc: "esc \<notin> set ps" "esc \<notin> set iss"
    by (auto simp: ps_def iss_def dest: set_takeWhileD)
  have eqs: "takeWhile (in_class ansi_param) r = ps"
      "takeWhile (in_class ansi_inter) (dropWhile (in_class ansi_param) r) = iss"
      "dropWhile (in_class ansi_inter) (dropWhile (in_class ansi_param) r) = t"
    by (simp_all add: ps_def iss_def t_def)
  have pre: "ansi_prefix (esc # CHR ''['' # r) =
      (case t of f # _ \<Rightarrow> if in_class ansi_final f then Some (esc # CHR ''['' # ps @ iss @ [f]) else None
       | [] \<Rightarrow> None)"
    unfolding ansi_prefix.simps Let_def eqs by simp
  have scan: "ansi_strip (esc # CHR ''['' # r) =
      (case t of [] \<Rightarrow> esc # CHR ''['' # r
       | f # rest \<Rightarrow> if in_class ansi_final f then ansi_strip rest
                     else esc # CHR ''['' # ps @ iss @ ansi_strip (f # rest))"
    unfolding ansi_strip_def [of "esc # _"] by (simp add: ansi_scan_csi eqs del: ansi_class_iff split: list.split)
  show ?thesis
    unfolding pre scan using no_esc by (cases t) (auto simp: r ansi_strip_append_no_esc ansi_strip_id)
qed

lemma ansi_strip_unfold:
  "ansi_strip s =
     (case ansi_prefix s of
        Some p \<Rightarrow> ansi_strip (drop (length p) s)
      | None \<Rightarrow> (case s of [] \<Rightarrow> [] | c # cs \<Rightarrow> c # ansi_strip cs))"
proof (cases s rule: ansi_prefix.cases)
  case (1 e c r)
  show ?thesis
  proof (cases "e = esc \<and> c = CHR ''[''")
    case True
    then show ?thesis
      using ansi_strip_csi [of r] by (simp add: 1 split: option.split)
  next
    case False
    then show ?thesis
      by (auto simp: 1 ansi_scan_fail ansi_strip_def [symmetric])
  qed
qed (auto simp: ansi_scan_fail ansi_strip_def)

inductive_cases rx_litE: "rx_match (RLit c) xs"
inductive_cases rx_clsE: "rx_match (RClass rs) xs"
inductive_cases rx_seqE: "rx_match (RSeq r s) xs"
inductive_cases rx_altE: "rx_match (RAlt r s) xs"

lemma rx_star_class_sound: "rx_match r xs \<Longrightarrow> r = RStar (RClass rs) \<Longrightarrow> list_all (in_class rs) xs"
  by (induction rule: rx_match.induct) (auto elim: rx_clsE)

lemma rx_star_class [simp]: "rx_match (RStar (RClass rs)) xs \<longleftrightarrow> list_all (in_class rs) xs"
proof
  assume "list_all (in_class rs) xs"
  then show "rx_match (RStar (RClass rs)) xs"
  proof (induction xs)
    case Nil
    show ?case by (rule rx_match.star0)
  next
    case (Cons x xs)
    then show ?case
      using rx_match.star [OF rx_match.cls, of rs x xs] by simp
  qed
qed (rule rx_star_class_sound [OF _ refl])

lemma ansi_re_match:
  "rx_match ansi_re p \<longleftrightarrow>
     (\<exists>c. p = [esc, c] \<and> in_class ansi_fe c) \<or>
     (\<exists>ps iss f. p = esc # CHR ''['' # ps @ iss @ [f] \<and> list_all (in_class ansi_param) ps \<and>
        list_all (in_class ansi_inter) iss \<and> in_class ansi_final f)"
proof
  assume "rx_match ansi_re p"
  then show "(\<exists>c. p = [esc, c] \<and> in_class ansi_fe c) \<or>
     (\<exists>ps iss f. p = esc # CHR ''['' # ps @ iss @ [f] \<and> list_all (in_class ansi_param) ps \<and>
        list_all (in_class ansi_inter) iss \<and> in_class ansi_final f)"
    unfolding ansi_re_def
    by (elim rx_seqE rx_altE rx_litE rx_clsE) (simp_all del: ansi_class_iff, blast)
next
  have esc: "rx_match (RLit esc) [esc]" and lb: "rx_match (RLit CHR ''['') [CHR ''['']"
    by (rule rx_match.lit)+
  assume "(\<exists>c. p = [esc, c] \<and> in_class ansi_fe c) \<or>
     (\<exists>ps iss f. p = esc # CHR ''['' # ps @ iss @ [f] \<and> list_all (in_class ansi_param) ps \<and>
        list_all (in_class ansi_inter) iss \<and> in_class ansi_final f)"
  then show "rx_match ansi_re p"
  proof (elim disjE exE conjE)
    fix c
    assume "p = [esc, c]" "in_class ansi_fe c"
    then show ?thesis
      unfolding ansi_re_def using rx_match.seq [OF esc rx_match.alt1 [OF rx_match.cls]] by simp
  next
    fix ps iss f
    assume p: "p = esc # CHR ''['' # ps @ iss @ [f]" and ps: "list_all (in_class ansi_param) ps"
      and iss: "list_all (in_class ansi_inter) iss" and f: "in_class ansi_final f"
    have "rx_match (RSeq (RStar (RClass ansi_param)) (RSeq (RStar (RClass ansi_inter)) (RClass ansi_final)))
        (ps @ iss @ [f])"
      using ps iss f by (intro rx_match.seq rx_match.cls) (simp_all del: ansi_class_iff)
    then show ?thesis
      unfolding ansi_re_def p using rx_match.seq [OF esc rx_match.alt2 [OF rx_match.seq [OF lb]]] by simp
  qed
qed

lemma takeWhile_stop: "list_all P xs \<Longrightarrow> \<not> P y \<Longrightarrow> takeWhile P (xs @ y # ys) = xs"
  by (induction xs) auto

lemma dropWhile_stop: "list_all P xs \<Longrightarrow> \<not> P y \<Longrightarrow> dropWhile P (xs @ y # ys) = y # ys"
  by (induction xs) auto

lemma ansi_prefix_complete:
  assumes m: "rx_match ansi_re p" and pre: "prefix p s"
  shows "ansi_prefix s = Some p"
proof -
  from pre obtain t where s: "s = p @ t"
    by (auto simp: prefix_def)
  from m show ?thesis
    unfolding ansi_re_match
  proof (elim disjE exE conjE)
    fix c
    assume "p = [esc, c]" "in_class ansi_fe c"
    then show ?thesis
      by (simp add: s del: ansi_class_iff)
  next
    fix ps iss f
    assume p: "p = esc # CHR ''['' # ps @ iss @ [f]" and ps: "list_all (in_class ansi_param) ps"
      and iss: "list_all (in_class ansi_inter) iss" and f: "in_class ansi_final f"
    have "takeWhile (in_class ansi_param) (ps @ iss @ f # t) = ps \<and>
        dropWhile (in_class ansi_param) (ps @ iss @ f # t) = iss @ f # t"
      using ps iss f by (cases iss) (auto simp: takeWhile_stop dropWhile_stop)
    moreover have "takeWhile (in_class ansi_inter) (iss @ f # t) = iss \<and>
        dropWhile (in_class ansi_inter) (iss @ f # t) = f # t"
      using iss f by (simp add: takeWhile_stop dropWhile_stop)
    ultimately show ?thesis
      using f by (simp add: s p Let_def del: ansi_class_iff)
  qed
qed

lemma ansi_prefix_sound: "ansi_prefix s = Some p \<Longrightarrow> prefix p s \<and> rx_match ansi_re p"
proof (induction s rule: ansi_prefix.induct)
  case (1 e c r)
  define ps where "ps = takeWhile (in_class ansi_param) r"
  define iss where "iss = takeWhile (in_class ansi_inter) (dropWhile (in_class ansi_param) r)"
  define t where "t = dropWhile (in_class ansi_inter) (dropWhile (in_class ansi_param) r)"
  have r: "r = ps @ iss @ t"
    by (simp add: ps_def iss_def t_def)
  have ps: "list_all (in_class ansi_param) ps" and iss: "list_all (in_class ansi_inter) iss"
    by (auto simp: ps_def iss_def list_all_iff dest: set_takeWhileD)
  have eqs: "takeWhile (in_class ansi_param) r = ps"
      "takeWhile (in_class ansi_inter) (dropWhile (in_class ansi_param) r) = iss"
      "dropWhile (in_class ansi_inter) (dropWhile (in_class ansi_param) r) = t"
    by (simp_all add: ps_def iss_def t_def)
  show ?case
    using 1 ps iss unfolding ansi_re_match ansi_prefix.simps Let_def eqs
    by (auto simp: r split: if_splits list.splits simp del: ansi_class_iff)
qed simp_all

lemma ansi_re_prefix_iff: "ansi_prefix s = Some p \<longleftrightarrow> prefix p s \<and> rx_match ansi_re p"
  using ansi_prefix_sound ansi_prefix_complete by blast

lemma ansi_prefix_ne: "ansi_prefix s = Some p \<Longrightarrow> p \<noteq> []"
  by (induction s rule: ansi_prefix.induct) (auto split: if_splits list.splits simp: Let_def)


lemma re_sub_ansi_strip: "re_sub r s out \<Longrightarrow> r = ansi_re \<Longrightarrow> out = ansi_strip s"
proof (induction rule: re_sub.induct)
  case (sub_match r p s out)
  then have "ansi_prefix (p @ s) = Some p"
    by (simp add: ansi_prefix_complete)
  with sub_match show ?case
    using ansi_strip_unfold [of "p @ s"] by simp
next
  case (sub_copy c s r out)
  then have "ansi_prefix (c # s) = None"
    using ansi_prefix_sound by (cases "ansi_prefix (c # s)") blast+
  with sub_copy show ?case
    using ansi_strip_unfold [of "c # s"] by simp
qed simp

lemma re_sub_strip: "re_sub ansi_re s (ansi_strip s)"
proof (induction "length s" arbitrary: s rule: less_induct)
  case less
  show ?case
  proof (cases "ansi_prefix s")
    case (Some p)
    then obtain t where s: "s = p @ t" and m: "rx_match ansi_re p" and ne: "p \<noteq> []"
      using ansi_prefix_sound ansi_prefix_ne by (fastforce simp: prefix_def)
    have "re_sub ansi_re t (ansi_strip t)"
      using less ne by (simp add: s)
    then have "re_sub ansi_re (p @ t) (ansi_strip t)"
      using m ne by (rule re_sub.sub_match [rotated 2])
    then show ?thesis
      using ansi_strip_unfold [of s] Some by (simp add: s)
  next
    case None
    show ?thesis
    proof (cases s)
      case Nil
      then show ?thesis by (simp add: re_sub.sub_nil)
    next
      case (Cons c cs)
      have "\<not> (\<exists>p. prefix p (c # cs) \<and> rx_match ansi_re p)"
        using None ansi_prefix_complete by (auto simp: Cons)
      moreover have "re_sub ansi_re cs (ansi_strip cs)"
        using less by (simp add: Cons)
      ultimately show ?thesis
        using ansi_strip_unfold [of s] None by (simp add: Cons re_sub.sub_copy)
    qed
  qed
qed

lemma ansi_prefix_esc_free: "ansi_prefix s = Some p \<Longrightarrow> \<exists>q. p = esc # q \<and> esc \<notin> set q"
  unfolding ansi_re_prefix_iff ansi_re_match by (fastforce simp: list_all_iff)



section \<open>Properties of the GPU monitor\<close>

text \<open>An \<open>ESC\<close> that no match can start is never inside a complete match: the stranded
  ones of \<open>p @ t\<close>, for a match \<open>p\<close>, are those of \<open>t\<close>.\<close>

lemma stranded_esc_after_match:
  assumes p: "p = esc # q" and q: "esc \<notin> set q" and m: "ansi_prefix (p @ t) = Some p"
  shows "(\<exists>u v. p @ t = u @ esc # v \<and> ansi_prefix (esc # v) = None) \<longleftrightarrow>
       (\<exists>u v. t = u @ esc # v \<and> ansi_prefix (esc # v) = None)"
proof
  assume "\<exists>u v. p @ t = u @ esc # v \<and> ansi_prefix (esc # v) = None"
  then obtain u v where uv: "p @ t = u @ esc # v" and n: "ansi_prefix (esc # v) = None"
    by blast
  show "\<exists>u v. t = u @ esc # v \<and> ansi_prefix (esc # v) = None"
  proof (cases "length u < length p")
    case True
    then have "u = []"
      using uv q by (cases u) (auto simp: p append_eq_Cons_conv append_eq_append_conv2 dest: in_set_takeD)
    then show ?thesis
      using uv n m by simp
  next
    case False
    then have "t = drop (length p) u @ esc # v"
      using uv by (auto simp: append_eq_append_conv_if)
    then show ?thesis
      using n by blast
  qed
next
  assume "\<exists>u v. t = u @ esc # v \<and> ansi_prefix (esc # v) = None"
  then show "\<exists>u v. p @ t = u @ esc # v \<and> ansi_prefix (esc # v) = None"
    by (metis append.assoc)
qed

text \<open>C12: The scanner computes \<open>re.sub\<close> with the pattern of line 36: for every text,
  the output of \<open>ansi_escape.sub("", out)\<close> is exactly \<open>ansi_strip out\<close>.\<close>

theorem ansi_strip_re_sub: "re_sub ansi_re s out \<longleftrightarrow> out = ansi_strip s"
  using re_sub_ansi_strip re_sub_strip by blast

theorem ansi_strip_re_sub_witness:
  "re_sub ansi_re [esc, CHR ''['', CHR ''1'', CHR ''m'', CHR ''G''] ''G''"
  using ansi_strip_re_sub [of "[esc, CHR ''['', CHR ''1'', CHR ''m'', CHR ''G'']" "''G''"]
  by (simp add: ansi_strip_def esc_def)

text \<open>C13: An ESC survives the stripping exactly when it occurs in the snapshot at a place
  where no complete escape sequence starts.\<close>

theorem ansi_strip_esc_survives:
  "esc \<in> set (ansi_strip s) \<longleftrightarrow> (\<exists>u v. s = u @ esc # v \<and> ansi_prefix (esc # v) = None)"
proof (induction "length s" arbitrary: s rule: less_induct)
  case less
  show ?case
  proof (cases "ansi_prefix s")
    case (Some p)
    then obtain t q where s: "s = p @ t" and p: "p = esc # q" and q: "esc \<notin> set q"
      using ansi_prefix_sound ansi_prefix_esc_free by (fastforce simp: prefix_def)
    have ih: "esc \<in> set (ansi_strip t) \<longleftrightarrow> (\<exists>u v. t = u @ esc # v \<and> ansi_prefix (esc # v) = None)"
      using less by (simp add: s p)
    have "(\<exists>u v. s = u @ esc # v \<and> ansi_prefix (esc # v) = None) \<longleftrightarrow>
        (\<exists>u v. t = u @ esc # v \<and> ansi_prefix (esc # v) = None)"
      using stranded_esc_after_match [OF p q] Some by (simp add: s)
    then show ?thesis
      using ansi_strip_unfold [of s] Some ih by (simp add: s)
  next
    case None
    show ?thesis
    proof (cases s)
      case Nil
      then show ?thesis by simp
    next
      case (Cons c cs)
      have ih: "esc \<in> set (ansi_strip cs) \<longleftrightarrow> (\<exists>u v. cs = u @ esc # v \<and> ansi_prefix (esc # v) = None)"
        using less by (simp add: Cons)
      have "(\<exists>u v. c # cs = u @ esc # v \<and> ansi_prefix (esc # v) = None) \<longleftrightarrow>
          (c = esc \<and> ansi_prefix (c # cs) = None) \<or> (\<exists>u v. cs = u @ esc # v \<and> ansi_prefix (esc # v) = None)"
        by (auto simp: Cons_eq_append_conv)
      then show ?thesis
        using ansi_strip_unfold [of s] None ih by (auto simp: Cons)
    qed
  qed
qed


text \<open>C14: Stripping only deletes characters: the displayed snapshot is a subsequence of
  nvtop's output.\<close>

theorem ansi_strip_subseq: "subseq (ansi_strip s) s"
proof (induction "length s" arbitrary: s rule: less_induct)
  case less
  show ?case
  proof (cases "ansi_prefix s")
    case (Some p)
    then obtain t where s: "s = p @ t" and ne: "p \<noteq> []"
      using ansi_prefix_sound ansi_prefix_ne by (fastforce simp: prefix_def)
    have "subseq (ansi_strip t) t"
      using less ne by (simp add: s)
    then show ?thesis
      using ansi_strip_unfold [of s] Some by (simp add: s list_emb_append2)
  next
    case None
    with less show ?thesis
      using ansi_strip_unfold [of s] by (cases s) auto
  qed
qed


text \<open>C15: A successful snapshot without ESC characters is displayed unchanged.\<close>

theorem get_nvtop_output_plain: "esc \<notin> set out \<Longrightarrow> get_nvtop_output (NvtopExit 0 out) = out"
  by (simp add: get_nvtop_output_def ansi_strip_id)

theorem get_nvtop_output_plain_witness:
  "esc \<notin> set ''GPU0 45C'' \<and> get_nvtop_output (NvtopExit 0 ''GPU0 45C'') = ''GPU0 45C''"
  using get_nvtop_output_plain [of "''GPU0 45C''"] by (simp add: esc_def)



text \<open>C17: When nvtop exits with a non-zero status, the monitor shows the
  \<open>CalledProcessError\<close> message with the advice to install nvtop; nvtop's own output
  (standard error included) is discarded.\<close>

theorem get_nvtop_output_exit_status:
  "0 < rc \<Longrightarrow> get_nvtop_output (NvtopExit rc out) =
     ''Error: Command '' @ [CHR 0x27, CHR ''['', CHR 0x27] @ ''nvtop'' @ [CHR 0x27] @ '', '' @ [CHR 0x27] @ ''-p'' @
     [CHR 0x27] @ '', '' @ [CHR 0x27] @ ''-d'' @ [CHR 0x27] @ '', '' @ [CHR 0x27] @ ''1'' @
     [CHR 0x27, CHR '']'', CHR 0x27] @ '' returned non-zero exit status '' @ show_nat rc @ ''.'' @ [CHR 0x0A] @
     ''Make sure nvtop is installed (sudo apt install nvtop).''"
  by (cases rc) (simp_all add: get_nvtop_output_def nvtop_error_def called_process_error_str_def nvtop_cmd_def
      str_repr_def repr_char_def py_printable_def Let_def)

theorem get_nvtop_output_exit_status_witness:
  "get_nvtop_output (NvtopExit 1 ''No GPU to monitor.'') =
     ''Error: Command '' @ [CHR 0x27, CHR ''['', CHR 0x27] @ ''nvtop'' @ [CHR 0x27] @ '', '' @ [CHR 0x27] @ ''-p'' @
     [CHR 0x27] @ '', '' @ [CHR 0x27] @ ''-d'' @ [CHR 0x27] @ '', '' @ [CHR 0x27] @ ''1'' @
     [CHR 0x27, CHR '']'', CHR 0x27] @ '' returned non-zero exit status 1.'' @ [CHR 0x0A] @
     ''Make sure nvtop is installed (sudo apt install nvtop).''"
  using get_nvtop_output_exit_status [of 1 "''No GPU to monitor.''"] by simp



end
