(* ===== verification/Jinja.thy ===== *)
theory Jinja
  imports PyValue
begin

text \<open>
  The part of Jinja2 the two templates use, as Flask's \<open>render_template_string\<close>
  configures it: autoescaping is on for templates given as strings, so every
  \<open>{{ expr }}\<close> writes \<open>markupsafe.escape(str(value))\<close>; \<open>obj.attr\<close> looks the attribute up
  and falls back to \<open>obj['attr']\<close>, giving \<open>Undefined\<close> (printed as the empty string,
  false in a test) when both fail; \<open>{% if %}\<close> uses Python truthiness.
\<close>

section \<open>Values and attribute lookup\<close>

datatype jval = JUndef | JVal pyval

text \<open>\<open>cfg.attr\<close> on a value: dictionaries have no attribute of the names the templates use
  (\<open>active\<close>, \<open>port\<close>, \<open>type\<close>, \<open>url\<close>, \<open>config_json\<close>), so the lookup is the item; the
  other values have neither, and the subscript's \<open>TypeError\<close> is turned into
  \<open>Undefined\<close>.\<close>

fun jinja_getattr :: "pyval \<Rightarrow> string \<Rightarrow> jval" where
  "jinja_getattr (PyDict d) a = (case dict_get d (PyStr a) of Some v \<Rightarrow> JVal v | None \<Rightarrow> JUndef)"
| "jinja_getattr _ a = JUndef"

fun jinja_truthy :: "jval \<Rightarrow> bool" where
  "jinja_truthy JUndef = False"
| "jinja_truthy (JVal v) = py_truthy v"

section \<open>Autoescaping\<close>

text \<open>\<open>markupsafe.escape\<close> on a string.\<close>

definition html_escape_char :: "char \<Rightarrow> string" where
  "html_escape_char c =
     (if c = CHR ''&'' then ''&amp;''
      else if c = CHR ''<'' then ''&lt;''
      else if c = CHR ''>'' then ''&gt;''
      else if c = CHR 0x27 then ''&#39;''
      else if c = CHR 0x22 then ''&#34;''
      else [c])"

definition html_escape :: "string \<Rightarrow> string" where
  "html_escape s = concat (map html_escape_char s)"

text \<open>\<open>{{ expr }}\<close>: \<open>Undefined\<close> prints as nothing, a value as its escaped \<open>str\<close>.\<close>

fun jinja_text :: "jval \<Rightarrow> string" where
  "jinja_text JUndef = []"
| "jinja_text (JVal v) = html_escape (py_str v)"

section \<open>What a browser reads back\<close>

text \<open>
  The browser's decoding of the character references \<open>markupsafe\<close> produces (in text and
  in attribute values alike); any other character is read as itself. On the output of
  \<open>html_escape\<close> this is the whole of HTML's decoding, since every \<open>&\<close> it writes starts one
  of these five references.
\<close>

fun html_unescape :: "string \<Rightarrow> string" where
  "html_unescape [] = []"
| "html_unescape (c # r) =
     (if c = CHR ''&'' \<and> take 4 r = ''amp;'' then CHR ''&'' # html_unescape (drop 4 r)
      else if c = CHR ''&'' \<and> take 3 r = ''lt;'' then CHR ''<'' # html_unescape (drop 3 r)
      else if c = CHR ''&'' \<and> take 3 r = ''gt;'' then CHR ''>'' # html_unescape (drop 3 r)
      else if c = CHR ''&'' \<and> take 4 r = ''#39;'' then CHR 0x27 # html_unescape (drop 4 r)
      else if c = CHR ''&'' \<and> take 4 r = ''#34;'' then CHR 0x22 # html_unescape (drop 4 r)
      else c # html_unescape r)"

text \<open>Text that cannot end an element's text, an attribute value or start a tag.\<close>

definition html_safe :: "string \<Rightarrow> bool" where
  "html_safe s = list_all (\<lambda>c. c \<notin> set [CHR ''<'', CHR ''>'', CHR 0x22, CHR 0x27]) s"

section \<open>Properties: autoescaping\<close>

lemma html_escape_Nil [simp]: "html_escape [] = []"
  by (simp add: html_escape_def)

lemma html_escape_Cons [simp]: "html_escape (c # s) = html_escape_char c @ html_escape s"
  by (simp add: html_escape_def)

lemma html_escape_append [simp]: "html_escape (s @ t) = html_escape s @ html_escape t"
  by (simp add: html_escape_def)

lemma html_safe_append [simp]: "html_safe (s @ t) \<longleftrightarrow> html_safe s \<and> html_safe t"
  by (simp add: html_safe_def)

lemma html_safe_escape [simp]: "html_safe (html_escape s)"
  by (induction s) (auto simp: html_escape_char_def html_safe_def)

lemma html_safe_jinja_text [simp]: "html_safe (jinja_text v)"
  by (cases v) (simp_all add: html_safe_def [of "[]"])

lemma html_unescape_escape_char [simp]: "html_unescape (html_escape_char c @ s) = c # html_unescape s"
  by (auto simp: html_escape_char_def)

lemma html_unescape_escape_append [simp]: "html_unescape (html_escape s @ t) = s @ html_unescape t"
  by (induction s) simp_all

lemma html_unescape_escape [simp]: "html_unescape (html_escape s) = s"
  using html_unescape_escape_append [of s "[]"] by simp

end
