(* ===== verification/HubPage.thy ===== *)
theory HubPage
  imports ModelHub Ansi Jinja
begin

text \<open>
  The Model Hub page (app.py lines 77-174): \<open>index\<close> calls \<open>get_live_data\<close>, then
  \<open>get_nvtop_output\<close>, and renders the template of lines 87-171. The model keeps what the
  template computes, in the order it writes it: the monitor text (line 129) and, for each
  item of \<open>models.items()\<close> (lines 135-167), the text of every \<open>{{ }}\<close> placeholder and
  whether the \<open>{% if cfg.active %}\<close> link is written. The static markup, the CSS and the
  refresh header are constant text and are left out.
\<close>

section \<open>One card (lines 135-167)\<close>

record card =
  card_class :: string
  card_name :: string
  card_dot :: string
  card_port :: string
  card_type :: string
  card_link :: "string option"
  card_url :: string
  card_params :: string

definition render_card :: "pyval \<Rightarrow> pyval \<Rightarrow> card" where
  "render_card name cfg =
     (let active = jinja_truthy (jinja_getattr cfg ''active'');
          url = jinja_text (jinja_getattr cfg ''url'')
      in \<lparr>card_class = (if active then ''active-border'' else []),
          card_name = jinja_text (JVal name),
          card_dot = (if active then ''dot-active'' else ''dot-idle''),
          card_port = jinja_text (jinja_getattr cfg ''port''),
          card_type = jinja_text (jinja_getattr cfg ''type''),
          card_link = (if active then Some url else None),
          card_url = url,
          card_params = jinja_text (jinja_getattr cfg ''config_json'')\<rparr>)"

section \<open>The page (lines 77-174)\<close>

record hub_page =
  page_nvtop :: string
  page_cards :: "card list"

text \<open>\<open>index\<close> for a request and an nvtop run: the probes it issued and the page, or the
  exception that escaped \<open>get_live_data\<close> (then nvtop is never started).\<close>

definition hub_index :: "hub_env \<Rightarrow> nvtop_outcome \<Rightarrow> string list \<times> hub_page py_result" where
  "hub_index env nv =
     (let (tr, r) = get_live_data env
      in (tr, res_bind r (\<lambda>models. res_bind (py_items models) (\<lambda>items.
            Inr \<lparr>page_nvtop = jinja_text (JVal (PyStr (get_nvtop_output nv))),
                 page_cards = map (\<lambda>(name, cfg). render_card name cfg) items\<rparr>))))"

text \<open>A card cannot break out of its element or attribute: every placeholder's text is
  free of \<open><\<close>, \<open>>\<close> and quotes.\<close>

definition card_safe :: "card \<Rightarrow> bool" where
  "card_safe c =
     (html_safe (card_class c) \<and> html_safe (card_name c) \<and> html_safe (card_dot c) \<and>
      html_safe (card_port c) \<and> html_safe (card_type c) \<and> case_option True html_safe (card_link c) \<and>
      html_safe (card_url c) \<and> html_safe (card_params c))"

section \<open>Properties: cards\<close>

lemma render_card_dict:
  "card_fields v = Some (b, u) \<Longrightarrow>
   card_name (render_card k v) = html_escape (py_str k) \<and>
   card_link (render_card k v) = (if b then Some (html_escape u) else None) \<and>
   card_url (render_card k v) = html_escape u"
  by (cases v) (auto simp: render_card_def Let_def split: option.splits pyval.splits)

lemma render_card_view:
  "hub_view d = Some vw \<Longrightarrow>
   map (\<lambda>c. (card_name c, card_link c, card_url c)) (map (\<lambda>(k, v). render_card k v) d) =
   map (\<lambda>(k, b, u). (html_escape (py_str k), if b then Some (html_escape u) else None, html_escape u)) vw"
proof (induction d arbitrary: vw)
  case (Cons e d)
  obtain k v where e: "e = (k, v)"
    by fastforce
  with Cons.prems obtain b u rest where cf: "card_fields v = Some (b, u)" and
    rest: "hub_view d = Some rest" and vw: "vw = (k, b, u) # rest"
    by (auto split: option.splits)
  show ?case
    using Cons.IH [OF rest] render_card_dict [OF cf, of k] by (simp add: e vw)
qed simp

lemma card_safe_render [simp]: "card_safe (render_card k v)"
  by (simp add: card_safe_def render_card_def Let_def html_safe_def [of "''active-border''"]
      html_safe_def [of "''dot-active''"] html_safe_def [of "''dot-idle''"] html_safe_def [of "[]"])

lemma get_live_data_Inr_dict:
  "get_live_data env = (tr, Inr m) \<Longrightarrow> \<exists>d. m = PyDict d"
  by (auto simp: get_live_data_def py_result_simps split: option.splits sum.splits prod.splits)

section \<open>Properties of the page\<close>

text \<open>C19: The page refines the specification's rendered view: for a well-formed
  configuration, \<open>index\<close> probes each name once, in order, shows the monitor text escaped,
  and writes one card per configured name, in order, with the escaped name, the escaped
  URL, and the clickable link exactly when the session exists.\<close>

theorem hub_index_refines:
  assumes load: "load_models (config env) = Some (PyDict d)"
    and keys: "dict_keys_ok d"
    and vals: "list_all (\<lambda>(k, v). is_dict v \<and> json_ok v) d"
    and probes: "list_all (\<lambda>k. tmux env (session_name k) \<noteq> ProbeSpawnError) (map fst d)"
  shows "\<exists>page. hub_index env nv = (map (session_name \<circ> fst) d, Inr page) \<and>
           page_nvtop page = html_escape (get_nvtop_output nv) \<and>
           map (\<lambda>c. (card_name c, card_link c, card_url c)) (page_cards page) =
           map (\<lambda>(k, b, u). (html_escape (py_str k), if b then Some (html_escape u) else None, html_escape u))
             (live_view (tmux env) (req_scheme env) (req_host env) d)"
proof -
  obtain d' where run: "get_live_data env = (map (session_name \<circ> fst) d, Inr (PyDict d'))"
    and view: "hub_view d' = Some (live_view (tmux env) (req_scheme env) (req_host env) d)"
    using get_live_data_view [OF load keys vals probes] by blast
  show ?thesis
    using render_card_view [OF view] by (simp add: hub_index_def run del: map_map)
qed

theorem hub_index_refines_witness:
  "load_models (config example_env) = Some (PyDict example_models) \<and> dict_keys_ok example_models \<and>
   list_all (\<lambda>(k, v). is_dict v \<and> json_ok v) example_models \<and>
   list_all (\<lambda>k. tmux example_env (session_name k) \<noteq> ProbeSpawnError) (map fst example_models) \<and>
   (\<exists>page. hub_index example_env NvtopTimeout = (map (session_name \<circ> fst) example_models, Inr page) \<and>
      page_nvtop page = html_escape (get_nvtop_output NvtopTimeout) \<and>
      map (\<lambda>c. (card_name c, card_link c, card_url c)) (page_cards page) =
      map (\<lambda>(k, b, u). (html_escape (py_str k), if b then Some (html_escape u) else None, html_escape u))
        (live_view (tmux example_env) (req_scheme example_env) (req_host example_env) example_models))"
  using example_env_ok hub_index_refines [of example_env example_models NvtopTimeout] by blast

text \<open>C20: Whatever the configuration and the monitor output, a page that is rendered
  contains no \<open><\<close>, \<open>>\<close> or quote in any placeholder: configuration values and nvtop's
  output cannot inject markup.\<close>

theorem hub_index_safe:
  "hub_index env nv = (tr, Inr page) \<Longrightarrow> html_safe (page_nvtop page) \<and> list_all card_safe (page_cards page)"
  by (auto simp: hub_index_def list_all_iff res_bind_eq_Inr split: prod.splits dest!: get_live_data_Inr_dict)

theorem hub_index_safe_witness:
  "\<exists>page. hub_index (one_model_env (PyDict [(PyStr ''port'', PyStr ''<b>8000'')])) NvtopTimeout =
      ([''svc-alpha''], Inr page) \<and> html_safe (page_nvtop page) \<and> list_all card_safe (page_cards page)"
proof -
  obtain page where run: "hub_index (one_model_env (PyDict [(PyStr ''port'', PyStr ''<b>8000'')])) NvtopTimeout =
      ([''svc-alpha''], Inr page)"
    by (simp add: hub_index_def example_defs get_live_data_def load_models_def probe_step_def probe_active_def
        session_name_def enrich_cfg_def Let_def json_dumps_def model_url_def port_value_def host_name_def)
  then show ?thesis
    using hub_index_safe [OF run] by blast
qed

end
