(* ===== verification/FileSys.thy ===== *)
theory FileSys
  imports Prelude PyString
begin

text \<open>
  The file-system operations the gallery's \<open>delete_images\<close> performs (flask_img_viewer.py
  lines 184-198): \<open>os.path.join\<close>, \<open>os.path.exists\<close> and \<open>os.path.isdir\<close>, \<open>os.makedirs\<close>,
  and \<open>shutil.move\<close> with the \<open>os.rename\<close> it is built on. A file system maps absolute,
  normalised paths (lists of names) to files, identified by their contents, and
  directories; a path string is resolved component by component as the kernel does,
  every component before the last one having to be a directory. Symbolic links,
  permissions and devices are not modelled: every rename stays on one file system.
\<close>

section \<open>File systems and path strings\<close>

type_synonym path = "string list"

datatype node = NFile nat | NDir

type_synonym fs = "path \<Rightarrow> node option"

text \<open>A name a directory can hold.\<close>

definition valid_name :: "string \<Rightarrow> bool" where
  "valid_name x \<longleftrightarrow> x \<noteq> [] \<and> x \<noteq> ''.'' \<and> x \<noteq> ''..'' \<and> CHR ''/'' \<notin> set x \<and> CHR 0x00 \<notin> set x"

text \<open>The root is a directory, every entry sits in a directory and has a valid name.\<close>

definition fs_wf :: "fs \<Rightarrow> bool" where
  "fs_wf fs \<longleftrightarrow> fs [] = Some NDir \<and>
     (\<forall>p x. fs (p @ [x]) \<noteq> None \<longrightarrow> fs p = Some NDir \<and> valid_name x)"

text \<open>The string of a normalised absolute path, as \<open>os.path.abspath\<close> returns it.\<close>

definition path_str :: "path \<Rightarrow> string" where
  "path_str p = (if p = [] then ''/'' else concat (map (\<lambda>c. CHR ''/'' # c) p))"

text \<open>\<open>os.path.join(a, b)\<close> (posixpath): an absolute \<open>b\<close> replaces \<open>a\<close>.\<close>

definition path_join :: "string \<Rightarrow> string \<Rightarrow> string" where
  "path_join a b =
     (if py_startswith b ''/'' then b
      else if a = [] \<or> last a = CHR ''/'' then a @ b
      else a @ ''/'' @ b)"

text \<open>Resolution of the components of a path string from a directory: empty components
  and \<open>.\<close> stay, \<open>..\<close> goes to the parent (the root is its own parent), and every step
  needs the current path to be a directory.\<close>

fun walk :: "fs \<Rightarrow> path \<Rightarrow> string list \<Rightarrow> path option" where
  "walk fs cur [] = Some cur"
| "walk fs cur (c # cs) =
     (if fs cur \<noteq> Some NDir then None
      else if c = [] \<or> c = ''.'' then walk fs cur cs
      else if c = ''..'' then walk fs (butlast cur) cs
      else walk fs (cur @ [c]) cs)"

text \<open>A path string with an embedded NUL makes the system calls raise \<open>ValueError\<close>;
  \<open>os.path.exists\<close> reports it as missing.\<close>

definition resolve :: "fs \<Rightarrow> path \<Rightarrow> string \<Rightarrow> path option" where
  "resolve fs cwd s =
     (if s = [] \<or> CHR 0x00 \<in> set s then None
      else (case py_split (CHR ''/'') s of
              c # cs \<Rightarrow> if c = [] then walk fs [] cs else walk fs cwd (c # cs)
            | [] \<Rightarrow> None))"

definition path_exists :: "fs \<Rightarrow> path \<Rightarrow> string \<Rightarrow> bool" where
  "path_exists fs cwd s = (case resolve fs cwd s of Some p \<Rightarrow> fs p \<noteq> None | None \<Rightarrow> False)"

definition path_isdir :: "fs \<Rightarrow> path \<Rightarrow> string \<Rightarrow> bool" where
  "path_isdir fs cwd s = (case resolve fs cwd s of Some p \<Rightarrow> fs p = Some NDir | None \<Rightarrow> False)"

text \<open>\<open>shutil._basename\<close>: the last component after trailing separators are removed.\<close>

definition move_basename :: "string \<Rightarrow> string" where
  "move_basename s = last (py_split (CHR ''/'') (rev (dropWhile (\<lambda>c. c = CHR ''/'') (rev s))))"

section \<open>Creating directories and moving\<close>

text \<open>\<open>os.makedirs\<close> on a normalised absolute path: each missing component is created; a
  file in the way raises.\<close>

fun makedirs :: "fs \<Rightarrow> path \<Rightarrow> string list \<Rightarrow> fs py_result" where
  "makedirs fs cur [] = Inr fs"
| "makedirs fs cur (c # cs) =
     (case fs (cur @ [c]) of
        None \<Rightarrow> makedirs (fs(cur @ [c] \<mapsto> NDir)) (cur @ [c]) cs
      | Some NDir \<Rightarrow> makedirs fs (cur @ [c]) cs
      | Some (NFile _) \<Rightarrow> Inl (if cs = [] then FileExistsError else NotADirectoryError))"

text \<open>The effect of a successful rename: the tree at \<open>ps\<close> appears at \<open>pd\<close>, replacing what
  was there.\<close>

definition move_tree :: "fs \<Rightarrow> path \<Rightarrow> path \<Rightarrow> fs" where
  "move_tree fs ps pd =
     (\<lambda>p. if prefix pd p then fs (ps @ drop (length pd) p) else if prefix ps p then None else fs p)"

text \<open>\<open>os.rename\<close> on resolved paths (POSIX \<open>rename(2)\<close>). A directory onto an existing
  directory is reported as an error; \<open>shutil.move\<close> never asks for it, since it moves
  into an existing directory instead.\<close>

definition os_rename :: "fs \<Rightarrow> path \<Rightarrow> path \<Rightarrow> fs py_result" where
  "os_rename fs ps pd =
     (if ps = pd then (if fs ps = None then Inl FileNotFoundError else Inr fs)
      else case (fs ps, fs pd) of
        (None, _) \<Rightarrow> Inl FileNotFoundError
      | (Some (NFile _), Some NDir) \<Rightarrow> Inl IsADirectoryError
      | (Some (NFile _), _) \<Rightarrow> Inr (move_tree fs ps pd)
      | (Some NDir, _) \<Rightarrow>
          if prefix ps pd then Inl OSError
          else (case fs pd of
                  None \<Rightarrow> Inr (move_tree fs ps pd)
                | Some (NFile _) \<Rightarrow> Inl NotADirectoryError
                | Some NDir \<Rightarrow> Inl OSError))"

text \<open>When the rename fails, \<open>shutil.move\<close> copies and deletes instead; that fails for the
  same reasons, except that a directory moved into itself raises \<open>shutil.Error\<close> and a
  directory copied onto an existing path raises \<open>FileExistsError\<close>.\<close>

definition rename_or_copy :: "fs \<Rightarrow> path \<Rightarrow> path \<Rightarrow> fs py_result" where
  "rename_or_copy fs ps pd =
     (case os_rename fs ps pd of
        Inr fs' \<Rightarrow> Inr fs'
      | Inl e \<Rightarrow> Inl (if fs ps = Some NDir then (if prefix ps pd then ShutilError else FileExistsError) else e))"

text \<open>\<open>shutil.move(src, dst)\<close>: into \<open>dst\<close> when it is a directory (an existing entry of
  the same name there raises \<open>shutil.Error\<close>), otherwise onto \<open>dst\<close>.\<close>

definition shutil_move :: "fs \<Rightarrow> path \<Rightarrow> string \<Rightarrow> string \<Rightarrow> fs py_result" where
  "shutil_move fs cwd src dst =
     (case resolve fs cwd src of
        None \<Rightarrow> Inl FileNotFoundError
      | Some ps \<Rightarrow>
          if path_isdir fs cwd dst then
            (if resolve fs cwd dst = Some ps then os_rename fs ps ps
             else (let real = path_join dst (move_basename src) in
                   if path_exists fs cwd real then Inl ShutilError
                   else case resolve fs cwd real of
                          None \<Rightarrow> Inl FileNotFoundError
                        | Some pr \<Rightarrow> rename_or_copy fs ps pr))
          else (case resolve fs cwd dst of
                  None \<Rightarrow> Inl FileNotFoundError
                | Some pd \<Rightarrow> rename_or_copy fs ps pd))"

section \<open>Properties: paths and moves\<close>

lemma wf_parent: "fs_wf fs \<Longrightarrow> fs (p @ [x]) \<noteq> None \<Longrightarrow> fs p = Some NDir \<and> valid_name x"
  by (simp add: fs_wf_def)

lemma wf_prefix_dir: "fs_wf fs \<Longrightarrow> fs (p @ q) \<noteq> None \<Longrightarrow> q \<noteq> [] \<Longrightarrow> fs p = Some NDir"
proof (induction q rule: rev_induct)
  case (snoc x q)
  then have "fs (p @ q) = Some NDir"
    using wf_parent [of fs "p @ q" x] by simp
  with snoc show ?case
    by (cases "q = []") auto
qed simp

lemma wf_valid_names: "fs_wf fs \<Longrightarrow> fs p \<noteq> None \<Longrightarrow> list_all valid_name p"
proof (induction p rule: rev_induct)
  case (snoc x p)
  then show ?case
    using wf_parent [of fs p x] by simp
qed simp

lemma valid_name_simps:
  "valid_name x \<Longrightarrow> x \<noteq> []" "valid_name x \<Longrightarrow> x \<noteq> ''.''" "valid_name x \<Longrightarrow> x \<noteq> ''..''"
  by (simp_all add: valid_name_def)

lemma walk_valid:
  "list_all valid_name cs \<Longrightarrow> fs cur = Some NDir \<Longrightarrow> (cs \<noteq> [] \<Longrightarrow> fs (cur @ butlast cs) = Some NDir) \<Longrightarrow>
   fs_wf fs \<Longrightarrow> walk fs cur cs = Some (cur @ cs)"
proof (induction cs arbitrary: cur)
  case (Cons c cs)
  have "cs \<noteq> [] \<Longrightarrow> fs (cur @ [c]) = Some NDir"
  proof -
    assume ne: "cs \<noteq> []"
    show "fs (cur @ [c]) = Some NDir"
    proof (cases "butlast cs = []")
      case True
      then show ?thesis using Cons.prems(3) ne by simp
    next
      case False
      then show ?thesis
        using wf_prefix_dir [of fs "cur @ [c]" "butlast cs"] Cons.prems(3,4) ne by simp
    qed
  qed
  moreover have "cs \<noteq> [] \<Longrightarrow> fs ((cur @ [c]) @ butlast cs) = Some NDir"
    using Cons.prems(3) by simp
  ultimately show ?case
    using Cons.prems Cons.IH [of "cur @ [c]"] valid_name_simps [of c] by (cases cs) auto
qed simp

lemma resolve_path_str:
  assumes "fs_wf fs" "list_all valid_name q" "q \<noteq> []" "fs (butlast q) = Some NDir"
  shows "resolve fs cwd (path_str q) = Some q"
proof -
  have sl: "list_all (\<lambda>x. CHR ''/'' \<notin> set x) q"
    using assms(2) by (auto simp: list_all_iff valid_name_def)
  have nul: "CHR 0x00 \<notin> set (path_str q)"
    using assms(2,3) by (auto simp: list_all_iff valid_name_def path_str_def)
  have ne: "path_str q \<noteq> []"
    using assms(3) by (cases q) (auto simp: path_str_def)
  have root: "fs [] = Some NDir"
    using assms(1) by (simp add: fs_wf_def)
  have "walk fs [] q = Some q"
    using walk_valid [of q fs "[]"] assms(1,2,4) root by simp
  moreover have "py_split (CHR ''/'') (path_str q) = [] # q"
    using assms(3) sl by (simp add: path_str_def py_split_path)
  ultimately show ?thesis
    using nul ne by (simp add: resolve_def)
qed

lemma last_path_str: "p \<noteq> [] \<Longrightarrow> last p \<noteq> [] \<Longrightarrow> last (path_str p) = last (last p)"
proof (induction p rule: rev_induct)
  case (snoc x p)
  then show ?case by (simp add: path_str_def)
qed simp

lemma path_join_child:
  "list_all valid_name p \<Longrightarrow> valid_name x \<Longrightarrow> path_join (path_str p) x = path_str (p @ [x])"
proof -
  assume vp: "list_all valid_name p" and v: "valid_name x"
  then obtain c r where x: "x = c # r" and c: "c \<noteq> CHR ''/''"
    by (cases x) (auto simp: valid_name_def)
  have ns: "\<not> py_startswith x ''/''"
    using x c by (simp add: py_startswith_def)
  show ?thesis
  proof (cases "p = []")
    case True
    then show ?thesis using ns by (simp add: path_join_def path_str_def)
  next
    case False
    then have "valid_name (last p)"
      using vp by (simp add: list_all_iff)
    then have "last (path_str p) \<noteq> CHR ''/''"
      using last_path_str [OF False] by (cases "last p" rule: rev_cases) (auto simp: valid_name_def)
    then show ?thesis
      using ns False by (simp add: path_join_def path_str_def)
  qed
qed


lemma move_tree_other [simp]: "\<not> prefix ps p \<Longrightarrow> \<not> prefix pd p \<Longrightarrow> move_tree fs ps pd p = fs p"
  by (simp add: move_tree_def)

lemma move_tree_dst [simp]: "move_tree fs ps pd pd = fs ps"
  by (simp add: move_tree_def)

lemma file_no_children: "fs_wf fs \<Longrightarrow> fs ps = Some (NFile k) \<Longrightarrow> q \<noteq> [] \<Longrightarrow> fs (ps @ q) = None"
  using wf_prefix_dir [of fs ps q] by (cases "fs (ps @ q)") auto

lemma move_tree_file_wf:
  assumes wf: "fs_wf fs" and ps: "fs ps = Some (NFile k)" and pd: "pd = q @ [y]" and q: "fs q = Some NDir"
    and y: "valid_name y" and np: "\<not> prefix ps pd" and nd: "fs pd \<noteq> Some NDir"
  shows "fs_wf (move_tree fs ps pd)"
proof -
  have ps_ne: "ps \<noteq> []"
    using wf ps by (auto simp: fs_wf_def)
  have root: "move_tree fs ps pd [] = Some NDir"
    using wf ps_ne pd by (simp add: fs_wf_def move_tree_def)
  have "move_tree fs ps pd p = Some NDir \<and> valid_name x" if ne: "move_tree fs ps pd (p @ [x]) \<noteq> None" for p x
  proof (cases "prefix pd (p @ [x])")
    case True
    show ?thesis
    proof (cases "p @ [x] = pd")
      case True
      then have p: "p = q" and "x = y"
        using pd by auto
      moreover have "\<not> prefix pd q" "\<not> prefix ps q"
        using pd np by (auto dest: prefix_order.dual_order.trans [of _ q pd])
      ultimately show ?thesis
        using q y by simp
    next
      case False
      with True obtain r where "p @ [x] = pd @ r" "r \<noteq> []"
        by (auto simp: prefix_def)
      then have "move_tree fs ps pd (p @ [x]) = fs (ps @ r)"
        using True by (simp add: move_tree_def)
      then show ?thesis
        using ne file_no_children [OF wf ps \<open>r \<noteq> []\<close>] by simp
    qed
  next
    case False
    then have nps: "\<not> prefix ps (p @ [x])" and val: "move_tree fs ps pd (p @ [x]) = fs (p @ [x])"
      using ne by (auto simp: move_tree_def split: if_splits)
    then have "fs p = Some NDir \<and> valid_name x"
      using ne wf by (simp add: fs_wf_def)
    moreover have "\<not> prefix pd p" "\<not> prefix ps p"
      using False nps by (auto simp: prefix_def)
    ultimately show ?thesis
      by simp
  qed
  then show ?thesis
    using root by (simp add: fs_wf_def)
qed


lemma makedirs_last:
  "(\<forall>q. prefix q cs \<longrightarrow> q \<noteq> [] \<longrightarrow> fs (cur @ q) = Some NDir) \<Longrightarrow>
   makedirs fs cur (cs @ [x]) =
     (case fs (cur @ cs @ [x]) of
        None \<Rightarrow> Inr (fs(cur @ cs @ [x] \<mapsto> NDir))
      | Some NDir \<Rightarrow> Inr fs
      | Some (NFile _) \<Rightarrow> Inl FileExistsError)"
proof (induction cs arbitrary: cur)
  case Nil
  then show ?case
    by (simp split: option.split node.split)
next
  case (Cons c cs)
  have "fs (cur @ [c]) = Some NDir"
    using Cons.prems [rule_format, of "[c]"] by simp
  moreover have "\<forall>q. prefix q cs \<longrightarrow> q \<noteq> [] \<longrightarrow> fs ((cur @ [c]) @ q) = Some NDir"
    using Cons.prems by (auto dest: spec [of _ "c # _"])
  ultimately show ?case
    using Cons.IH [of "cur @ [c]"] by (simp add: fun_upd_def split: option.split node.split)
qed

lemma wf_prefix_of_dir: "fs_wf fs \<Longrightarrow> fs d = Some NDir \<Longrightarrow> prefix q d \<Longrightarrow> fs q = Some NDir"
  by (metis option.distinct(1) prefix_def self_append_conv wf_prefix_dir)

lemma wf_add_dir:
  assumes "fs_wf fs" "fs q = Some NDir" "valid_name x" "fs (q @ [x]) = None"
  shows "fs_wf (fs(q @ [x] \<mapsto> NDir))"
proof -
  have root: "(fs(q @ [x] \<mapsto> NDir)) [] = Some NDir"
    using assms(1) by (simp add: fs_wf_def)
  have step: "(fs(q @ [x] \<mapsto> NDir)) p = Some NDir \<and> valid_name y"
    if ne: "(fs(q @ [x] \<mapsto> NDir)) (p @ [y]) \<noteq> None" for p y
  proof (cases "p @ [y] = q @ [x]")
    case True
    then show ?thesis using assms(2,3) by auto
  next
    case False
    then have "fs (p @ [y]) \<noteq> None"
      using ne by (auto split: if_splits)
    then have "fs p = Some NDir \<and> valid_name y"
      using assms(1) by (simp add: fs_wf_def)
    moreover have "p \<noteq> q @ [x]"
      using calculation assms(4) by auto
    ultimately show ?thesis
      by simp
  qed
  show ?thesis
    using root step unfolding fs_wf_def by blast
qed

lemma wf_add_file:
  assumes "fs_wf fs" "fs q = Some NDir" "valid_name x" "fs (q @ [x]) \<noteq> Some NDir"
  shows "fs_wf (fs(q @ [x] \<mapsto> NFile k))"
proof -
  have root: "(fs(q @ [x] \<mapsto> NFile k)) [] = Some NDir"
    using assms(1) by (simp add: fs_wf_def)
  have step: "(fs(q @ [x] \<mapsto> NFile k)) p = Some NDir \<and> valid_name y"
    if ne: "(fs(q @ [x] \<mapsto> NFile k)) (p @ [y]) \<noteq> None" for p y
  proof (cases "p @ [y] = q @ [x]")
    case True
    then show ?thesis using assms(2,3) by auto
  next
    case False
    then have "fs (p @ [y]) \<noteq> None"
      using ne by (auto split: if_splits)
    then have "fs p = Some NDir \<and> valid_name y"
      using assms(1) by (simp add: fs_wf_def)
    moreover have "p \<noteq> q @ [x]"
      using calculation assms(4) by auto
    ultimately show ?thesis
      by simp
  qed
  show ?thesis
    using root step unfolding fs_wf_def by blast
qed

text \<open>Moving a file onto a path that is not a directory: the source disappears, the
  destination holds the file, and no other path changes, since a file has no children.\<close>

lemma move_tree_file_src:
  "fs_wf fs \<Longrightarrow> fs ps = Some (NFile k) \<Longrightarrow> fs pd \<noteq> Some NDir \<Longrightarrow> pd \<noteq> ps \<Longrightarrow>
   move_tree fs ps pd ps = None"
  using wf_prefix_dir [of fs pd] by (auto simp: move_tree_def prefix_def)

lemma move_tree_file_frame:
  assumes wf: "fs_wf fs" and ps: "fs ps = Some (NFile k)" and pd: "fs pd \<noteq> Some NDir"
    and p: "p \<noteq> ps" "p \<noteq> pd"
  shows "move_tree fs ps pd p = fs p"
proof (cases "prefix pd p")
  case True
  then obtain r where r: "p = pd @ r" "r \<noteq> []"
    using p by (auto simp: prefix_def)
  then have "fs p = None"
    using wf_prefix_dir [OF wf, of pd r] pd by blast
  then show ?thesis
    using r file_no_children [OF wf ps r(2)] by (simp add: move_tree_def)
next
  case False
  show ?thesis
  proof (cases "prefix ps p")
    case True
    then obtain r where "p = ps @ r" "r \<noteq> []"
      using p by (auto simp: prefix_def)
    then show ?thesis
      using False file_no_children [OF wf ps] by (simp add: move_tree_def)
  qed (use False in simp)
qed

text \<open>Resolving the string of a list of components, walking through directories, climbing
  with \<open>..\<close> (the root is its own parent), and moving a file onto a path that is not a
  directory.\<close>

lemma resolve_comps:
  assumes "cs \<noteq> []" "list_all (\<lambda>c. CHR ''/'' \<notin> set c \<and> CHR 0x00 \<notin> set c) cs"
  shows "resolve fs cwd (path_str cs) = walk fs [] cs"
proof -
  have nul: "CHR 0x00 \<notin> set (path_str cs)"
    using assms by (auto simp: list_all_iff path_str_def)
  have ne: "path_str cs \<noteq> []"
    using assms(1) by (cases cs) (auto simp: path_str_def)
  have "py_split (CHR ''/'') (path_str cs) = [] # cs"
    using assms by (simp add: path_str_def py_split_path list_all_iff)
  then show ?thesis
    using nul ne by (simp add: resolve_def)
qed

lemma walk_dirs:
  "fs_wf fs \<Longrightarrow> fs cur = Some NDir \<Longrightarrow> fs (cur @ cs) = Some NDir \<Longrightarrow> list_all valid_name cs \<Longrightarrow>
   walk fs cur (cs @ rest) = walk fs (cur @ cs) rest"
proof (induction cs arbitrary: cur)
  case (Cons c cs)
  have "fs (cur @ [c]) = Some NDir"
    using wf_prefix_of_dir [OF Cons.prems(1,3), of "cur @ [c]"] by simp
  moreover have "c \<noteq> []" "c \<noteq> ''.''" "c \<noteq> ''..''"
    using Cons.prems(4) valid_name_simps [of c] by simp_all
  ultimately show ?case
    using Cons.prems(1,2,3,4) Cons.IH [of "cur @ [c]"] by simp
qed simp

lemma walk_up:
  "fs_wf fs \<Longrightarrow> fs cur = Some NDir \<Longrightarrow>
   walk fs cur (replicate m ''..'' @ rest) = walk fs (take (length cur - m) cur) rest"
proof (induction m arbitrary: cur)
  case (Suc m)
  have dir: "fs (butlast cur) = Some NDir"
    using wf_prefix_of_dir [OF Suc.prems, of "butlast cur"] take_is_prefix [of "length cur - 1" cur]
    by (simp add: butlast_conv_take)
  have "walk fs cur (replicate (Suc m) ''..'' @ rest) = walk fs (butlast cur) (replicate m ''..'' @ rest)"
    using Suc.prems(2) by simp
  also have "\<dots> = walk fs (take (length (butlast cur) - m) (butlast cur)) rest"
    using Suc.IH [OF Suc.prems(1) dir] .
  also have "take (length (butlast cur) - m) (butlast cur) = take (length cur - Suc m) cur"
    by (simp add: butlast_conv_take min_def)
  finally show ?case .
qed simp

lemma shutil_move_file:
  assumes src: "resolve fs cwd s = Some ps" and dst: "resolve fs cwd t = Some pd"
    and ps: "fs ps = Some (NFile k)" and pd: "fs pd \<noteq> Some NDir" and ne: "pd \<noteq> ps"
  shows "shutil_move fs cwd s t = Inr (move_tree fs ps pd)"
  using assms by (simp add: shutil_move_def path_isdir_def rename_or_copy_def os_rename_def
      split: option.split node.split)

end
