(* ===== verification/Gallery.thy ===== *)
theory Gallery
  imports FileSys Json Jinja "HOL-Library.Multiset"
begin

text \<open>
  The image gallery (src/run/flask_img_viewer.py): its start-up (lines 202-213), which
  fixes \<open>IMAGE_DIR\<close> and \<open>ALLOW_DELETE\<close>, and the \<open>index\<close> route (lines 152-175): the
  query parameters, the listing of the image directory, the pagination arithmetic and
  what the template of lines 9-150 writes for a page. The directory listing is the
  result of \<open>os.listdir\<close>, in the arbitrary order the operating system returns it.
\<close>

section \<open>Start-up (lines 202-213)\<close>

record gallery_cfg =
  image_dir :: path
  allow_delete :: bool

text \<open>\<open>os.path.abspath\<close>: the argument joined to the working directory and normalised
  without looking at the file system.\<close>

fun norm_path :: "path \<Rightarrow> string list \<Rightarrow> path" where
  "norm_path acc [] = acc"
| "norm_path acc (c # cs) =
     (if c = [] \<or> c = ''.'' then norm_path acc cs
      else if c = ''..'' then norm_path (butlast acc) cs
      else norm_path (acc @ [c]) cs)"

definition abspath :: "path \<Rightarrow> string \<Rightarrow> path" where
  "abspath cwd s =
     (if s = [] then cwd
      else case py_split (CHR ''/'') s of
             c # cs \<Rightarrow> if c = [] then norm_path [] cs else norm_path cwd (c # cs)
           | [] \<Rightarrow> cwd)"

text \<open>
  The arguments as \<open>argparse\<close> delivers them: \<open>path\<close>, \<open>delete_flag\<close> (\<open>type=int\<close>,
  \<open>choices=[0, 1]\<close>: anything else ends the program with status 2) and the optional
  \<open>--port\<close> string. \<open>app.run(port=args.port or 7000)\<close> converts a non-empty port with
  \<open>int()\<close>. The result is the configuration and the port the server listens on.
\<close>

definition gallery_main :: "path \<Rightarrow> string \<Rightarrow> string \<Rightarrow> string option \<Rightarrow> (gallery_cfg \<times> int) py_result" where
  "gallery_main cwd path_arg flag_arg port_arg =
     (case py_int flag_arg of
        None \<Rightarrow> Inl SystemExit
      | Some flag \<Rightarrow>
          if flag \<noteq> 0 \<and> flag \<noteq> 1 then Inl SystemExit
          else (let cfg = \<lparr>image_dir = abspath cwd path_arg, allow_delete = (flag \<noteq> 0)\<rparr> in
                case port_arg of
                  None \<Rightarrow> Inr (cfg, 7000)
                | Some p \<Rightarrow> if p = [] then Inr (cfg, 7000)
                            else (case py_int p of None \<Rightarrow> Inl ValueError | Some n \<Rightarrow> Inr (cfg, n))))"

section \<open>Query parameters (lines 154-155)\<close>

text \<open>\<open>request.args.get(key, default=d, type=int)\<close>: the first value given for the key,
  converted with \<open>int()\<close>; a missing key or a value \<open>int()\<close> rejects gives the default.\<close>

definition arg_int :: "(string \<times> string) list \<Rightarrow> string \<Rightarrow> int \<Rightarrow> int" where
  "arg_int args k d = (case map_of args k of None \<Rightarrow> d | Some v \<Rightarrow> (case py_int v of None \<Rightarrow> d | Some n \<Rightarrow> n))"

section \<open>The listing (lines 158-159)\<close>

definition image_exts :: "string list" where
  "image_exts = [''.png'', ''.jpg'', ''.jpeg'', ''.webp'']"

definition is_listed :: "string \<Rightarrow> bool" where
  "is_listed f \<longleftrightarrow> py_endswith_any (py_lower f) image_exts \<and> \<not> py_startswith f ''.''"

text \<open>The filtered names, \<open>sort(reverse=True)\<close>: descending code-point order.\<close>

definition gallery_files :: "string list \<Rightarrow> string list" where
  "gallery_files ls = rev (sort (filter is_listed ls))"

section \<open>Pagination (lines 161-166)\<close>

text \<open>\<open>math.ceil(total / limit)\<close>. The division is a float division; for a count of
  files below \<open>2^53\<close> the float quotient rounds to the exact ceiling, which is what is
  written here.\<close>

definition py_ceil_div :: "int \<Rightarrow> int \<Rightarrow> int py_result" where
  "py_ceil_div a b = (if b = 0 then Inl ZeroDivisionError else Inr (- ((- a) div b)))"

text \<open>\<open>xs[i:j]\<close>: negative bounds count from the end, and bounds are clipped to the list.\<close>

definition py_slice :: "'a list \<Rightarrow> int \<Rightarrow> int \<Rightarrow> 'a list" where
  "py_slice xs i j =
     (let n = int (length xs);
          norm = (\<lambda>k. if k < 0 then max 0 (k + n) else min k n)
      in take (nat (norm j - norm i)) (drop (nat (norm i)) xs))"

definition page_slice :: "string list \<Rightarrow> int \<Rightarrow> int \<Rightarrow> string list" where
  "page_slice files limit page = (let start = (page - 1) * limit in py_slice files start (start + limit))"

section \<open>The page (lines 9-150)\<close>

text \<open>One tile of \<open>{% for image in images %}\<close> (lines 56-66): the checkbox value, the
  image source, the \<open>openModal\<close> index (\<open>loop.index0\<close>), the title, the label (the first
  20 characters and \<open>...\<close> for longer names), the style and the \<open>onclick\<close> attribute of
  the delete button.\<close>

record tile =
  tile_value :: string
  tile_src :: string
  tile_index :: nat
  tile_title :: string
  tile_label :: string
  tile_more :: string
  tile_delete_style :: string
  tile_delete_onclick :: string

definition render_tile :: "bool \<Rightarrow> nat \<Rightarrow> string \<Rightarrow> tile" where
  "render_tile allow i img =
     \<lparr>tile_value = html_escape img,
      tile_src = ''/images/'' @ html_escape img,
      tile_index = i,
      tile_title = html_escape img,
      tile_label = html_escape (take 20 img),
      tile_more = (if 20 < length img then ''...'' else []),
      tile_delete_style = (if allow then [] else ''display:none''),
      tile_delete_onclick = ''executeDelete(['' @ [CHR 0x27] @ html_escape img @ [CHR 0x27] @ ''])''\<rparr>"

text \<open>\<open>{{ images|tojson }}\<close> (line 84): \<open>json.dumps\<close> with its default separators, then
  \<open><\<close>, \<open>>\<close>, \<open>&\<close> and \<open>'\<close> replaced by JSON escapes so that the text is safe inside
  \<open><script>\<close>.\<close>

definition htmlsafe_char :: "char \<Rightarrow> string" where
  "htmlsafe_char c =
     (if c = CHR ''<'' then [CHR 0x5C] @ ''u003c''
      else if c = CHR ''>'' then [CHR 0x5C] @ ''u003e''
      else if c = CHR ''&'' then [CHR 0x5C] @ ''u0026''
      else if c = CHR 0x27 then [CHR 0x5C] @ ''u0027''
      else [c])"

definition tojson_strings :: "string list \<Rightarrow> string" where
  "tojson_strings xs = concat (map htmlsafe_char (''['' @ join '', '' (map json_quote xs) @ '']''))"

record gallery_page =
  gp_path :: string
  gp_total :: int
  gp_options :: "(int \<times> bool) list"
  gp_delete_display :: string
  gp_tiles :: "tile list"
  gp_prev :: "string option"
  gp_status :: string
  gp_next :: "string option"
  gp_images_json :: string

text \<open>The template's other placeholders: the directory (lines 14 and 42), the total
  (line 42), the \<open>limit\<close> options (lines 46-48), the batch button's display (line 26), the
  Prev and Next links (lines 68-75) and the status line (line 72).\<close>

definition gallery_render ::
  "gallery_cfg \<Rightarrow> int \<Rightarrow> int \<Rightarrow> int \<Rightarrow> int \<Rightarrow> string list \<Rightarrow> gallery_page" where
  "gallery_render cfg page limit n_total total_pages images =
     \<lparr>gp_path = html_escape (path_str (image_dir cfg)),
      gp_total = n_total,
      gp_options = map (\<lambda>l. (l, l = limit)) [10, 25, 50, 100],
      gp_delete_display = (if allow_delete cfg then ''block'' else ''none''),
      gp_tiles = map (\<lambda>(i, im). render_tile (allow_delete cfg) i im) (zip [0..<length images] images),
      gp_prev = (if 1 < page then Some (''?page='' @ show_int (page - 1) @ ''&limit='' @ show_int limit) else None),
      gp_status = ''Page '' @ show_int page @ '' of '' @ show_int total_pages,
      gp_next = (if page < total_pages then Some (''?page='' @ show_int (page + 1) @ ''&limit='' @ show_int limit) else None),
      gp_images_json = tojson_strings images\<rparr>"

text \<open>Text that cannot close a \<open><script>\<close> element or start an entity or a quoted
  attribute there.\<close>

definition script_safe :: "string \<Rightarrow> bool" where
  "script_safe s = list_all (\<lambda>c. c \<notin> set [CHR ''<'', CHR ''>'', CHR ''&'', CHR 0x27]) s"

section \<open>index (lines 152-175)\<close>

definition gallery_index :: "gallery_cfg \<Rightarrow> (string \<times> string) list \<Rightarrow> string list \<Rightarrow> gallery_page py_result" where
  "gallery_index cfg args ls =
     (let limit = arg_int args ''limit'' 25;
          page = arg_int args ''page'' 1;
          files = gallery_files ls;
          n_total = int (length files)
      in res_bind (py_ceil_div n_total limit) (\<lambda>total_pages.
           Inr (gallery_render cfg page limit n_total total_pages (page_slice files limit page))))"

section \<open>Properties: pagination and the page\<close>

lemma py_slice_nonneg:
  assumes "0 \<le> i" "i \<le> j"
  shows "py_slice xs i j = take (nat (j - i)) (drop (nat i) xs)"
proof (cases "int (length xs) \<le> i")
  case True
  then show ?thesis using assms by (simp add: py_slice_def Let_def)
next
  case False
  then show ?thesis
    using assms by (cases "j \<le> int (length xs)") (auto simp: py_slice_def Let_def min_def nat_diff_distrib)
qed

lemma page_slice_pos:
  "0 < l \<Longrightarrow> page_slice xs l (int p + 1) = take (nat l) (drop (p * nat l) xs)"
  by (simp add: page_slice_def Let_def py_slice_nonneg nat_mult_distrib)

lemma concat_take_drop:
  "concat (map (\<lambda>k. take m (drop (k * m) xs)) [0..<n]) = take (n * m) xs"
proof (induction n)
  case (Suc n)
  have "take (Suc n * m) xs = take (n * m + m) xs"
    by (simp add: add.commute)
  then show ?case
    using Suc by (simp only: upt_Suc_append [OF le0] map_append concat_append take_add) simp
qed simp

lemma ceil_div_bounds:
  assumes "0 < l" "py_ceil_div (int n) l = Inr tp"
  shows "int n \<le> tp * l" "(tp - 1) * l < int n \<or> n = 0" "0 \<le> tp"
proof -
  have tp: "tp = - ((- int n) div l)"
    using assms by (simp add: py_ceil_div_def split: if_splits)
  have d: "(- int n) div l * l + (- int n) mod l = - int n"
    by (rule div_mult_mod_eq)
  have m: "0 \<le> (- int n) mod l" "(- int n) mod l < l"
    using assms(1) by simp_all
  have "tp * l = - ((- int n) div l * l)"
    by (simp add: tp)
  also have "\<dots> = int n + (- int n) mod l"
    using d by linarith
  finally have e: "tp * l = int n + (- int n) mod l" .
  show "int n \<le> tp * l"
    using e m by simp
  show "(tp - 1) * l < int n \<or> n = 0"
    using e m by (simp add: algebra_simps)
  show "0 \<le> tp"
    using e m assms(1) by (metis add_nonneg_nonneg of_nat_0_le_iff zero_le_mult_iff not_less)
qed

lemma pages_concat:
  assumes "0 < l" "py_ceil_div (int (length xs)) l = Inr tp"
  shows "concat (map (\<lambda>p. page_slice xs l (int p)) [1..<nat tp + 1]) = xs"
proof -
  have "map (\<lambda>p. page_slice xs l (int p)) [1..<nat tp + 1] =
        map (\<lambda>k. take (nat l) (drop (k * nat l) xs)) [0..<nat tp]"
  proof -
    have "[1..<nat tp + 1] = map Suc [0..<nat tp]"
      by (simp add: map_Suc_upt)
    then show ?thesis
      using assms(1) by (simp add: comp_def page_slice_pos [symmetric] add.commute)
  qed
  moreover have "length xs \<le> nat tp * nat l"
  proof -
    have tp: "0 \<le> tp"
      using ceil_div_bounds(3) [OF assms] .
    then have "nat tp * nat l = nat (tp * l)"
      by (simp add: nat_mult_distrib)
    moreover have "0 \<le> tp * l"
      using tp assms(1) by simp
    ultimately show ?thesis
      using ceil_div_bounds(1) [OF assms] by (simp add: le_nat_iff)
  qed
  ultimately show ?thesis
    by (simp add: concat_take_drop)
qed


lemma pages_nonempty:
  assumes "0 < l" "py_ceil_div (int (length xs)) l = Inr tp" "1 \<le> p" "p \<le> nat tp"
  shows "page_slice xs l (int p) \<noteq> []"
proof -
  obtain k where p: "p = Suc k"
    using assms(3) by (cases p) auto
  have "int k * l \<le> (tp - 1) * l"
    using assms(1,4) p by (simp add: mult_right_mono)
  moreover have "(tp - 1) * l < int (length xs)"
    using ceil_div_bounds(2) [OF assms(1,2)] assms(2,4) p by (auto simp: py_ceil_div_def split: if_splits)
  moreover have "int (k * nat l) = int k * l"
    using assms(1) by simp
  ultimately have "int (k * nat l) < int (length xs)"
    by linarith
  then have "k * nat l < length xs"
    by (simp only: of_nat_less_iff)
  then show ?thesis
    using assms(1) page_slice_pos [OF assms(1), of xs k] by (simp add: p add.commute)
qed

lemma pages_beyond:
  assumes "0 < l" "py_ceil_div (int (length xs)) l = Inr tp" "nat tp < p"
  shows "page_slice xs l (int p) = []"
proof -
  obtain k where p: "p = Suc k"
    using assms(3) by (cases p) auto
  have "tp * l \<le> int k * l"
    using assms(1,3) p ceil_div_bounds(3) [OF assms(1,2)] by (simp add: mult_right_mono)
  moreover have "int (k * nat l) = int k * l"
    using assms(1) by simp
  ultimately have "int (length xs) \<le> int (k * nat l)"
    using ceil_div_bounds(1) [OF assms(1,2)] by linarith
  then have "length xs \<le> k * nat l"
    by (simp only: of_nat_le_iff)
  then show ?thesis
    using page_slice_pos [OF assms(1), of xs k] by (simp add: p add.commute)
qed




lemma script_safe_tojson: "script_safe (tojson_strings xs)"
  by (auto simp: script_safe_def tojson_strings_def list_all_iff htmlsafe_char_def split: if_splits)

lemma gallery_index_Inr:
  "gallery_index cfg args ls = Inr pg \<Longrightarrow> \<exists>page limit n tp imgs. pg = gallery_render cfg page limit n tp imgs"
  by (auto simp: gallery_index_def Let_def py_ceil_div_def split: if_splits) blast

lemma gallery_render_script:
  "script_safe (gp_images_json (gallery_render cfg page limit n tp imgs)) \<and>
   map tile_index (gp_tiles (gallery_render cfg page limit n tp imgs)) =
     [0..<length (gp_tiles (gallery_render cfg page limit n tp imgs))]"
  by (simp add: gallery_render_def render_tile_def script_safe_tojson comp_def case_prod_beta)

section \<open>Properties of the gallery page\<close>

text \<open>C21: For a positive \<open>limit\<close>, pages \<open>1..total_pages\<close> partition the listing in
  order: concatenated they are the listing, none of them is empty, and every later page
  is empty.\<close>

theorem gallery_pages_partition:
  assumes "0 < l" "py_ceil_div (int (length xs)) l = Inr tp"
  shows "concat (map (\<lambda>p. page_slice xs l (int p)) [1..<nat tp + 1]) = xs \<and>
         (\<forall>p \<in> {1..nat tp}. page_slice xs l (int p) \<noteq> []) \<and>
         (\<forall>p > nat tp. page_slice xs l (int p) = [])"
  using pages_concat [OF assms] pages_nonempty [OF assms] pages_beyond [OF assms] by auto

theorem gallery_pages_partition_witness:
  "0 < (2::int) \<and> py_ceil_div (int (length [''c.png'', ''b.png'', ''a.png''])) 2 = Inr 2 \<and>
   concat (map (\<lambda>p. page_slice [''c.png'', ''b.png'', ''a.png''] 2 (int p)) [1..<nat 2 + 1]) =
     [''c.png'', ''b.png'', ''a.png''] \<and>
   page_slice [''c.png'', ''b.png'', ''a.png''] 2 1 \<noteq> [] \<and>
   page_slice [''c.png'', ''b.png'', ''a.png''] 2 2 \<noteq> [] \<and>
   page_slice [''c.png'', ''b.png'', ''a.png''] 2 3 = []"
proof -
  have h: "py_ceil_div (int (length [''c.png'', ''b.png'', ''a.png''])) 2 = Inr 2"
    by (simp add: py_ceil_div_def)
  have t: "concat (map (\<lambda>p. page_slice [''c.png'', ''b.png'', ''a.png''] 2 (int p)) [1..<nat 2 + 1]) =
      [''c.png'', ''b.png'', ''a.png''] \<and>
    (\<forall>p \<in> {1..nat 2}. page_slice [''c.png'', ''b.png'', ''a.png''] 2 (int p) \<noteq> []) \<and>
    (\<forall>p > nat 2. page_slice [''c.png'', ''b.png'', ''a.png''] 2 (int p) = [])"
    using gallery_pages_partition [OF _ h] by simp
  then have B: "\<forall>p \<in> {1..nat 2}. page_slice [''c.png'', ''b.png'', ''a.png''] 2 (int p) \<noteq> []"
    and C: "\<forall>p > nat 2. page_slice [''c.png'', ''b.png'', ''a.png''] 2 (int p) = []"
    by blast+
  have "page_slice [''c.png'', ''b.png'', ''a.png''] 2 (int 1) \<noteq> []"
    using bspec [OF B, where x=1] by simp
  moreover have "page_slice [''c.png'', ''b.png'', ''a.png''] 2 (int 2) \<noteq> []"
    using bspec [OF B, where x=2] by simp
  moreover have "page_slice [''c.png'', ''b.png'', ''a.png''] 2 (int 3) = []"
    using spec [OF C, where x=3] by simp
  ultimately have "page_slice [''c.png'', ''b.png'', ''a.png''] 2 1 \<noteq> []"
    "page_slice [''c.png'', ''b.png'', ''a.png''] 2 2 \<noteq> []"
    "page_slice [''c.png'', ''b.png'', ''a.png''] 2 3 = []"
    by simp_all
  with t h show ?thesis
    by simp
qed

text \<open>C22: \<open>?limit=0\<close> (or any value \<open>int()\<close> reads as 0) makes the page raise
  \<open>ZeroDivisionError\<close> in \<open>math.ceil(total / limit)\<close>.\<close>

theorem gallery_limit_zero:
  "py_int v = Some 0 \<Longrightarrow> gallery_index cfg ((''limit'', v) # args) ls = Inl ZeroDivisionError"
  by (simp add: gallery_index_def arg_int_def py_ceil_div_def)

theorem gallery_limit_zero_witness:
  "gallery_index \<lparr>image_dir = [''pics''], allow_delete = False\<rparr> [(''limit'', ''0'')] [''a.png''] = Inl ZeroDivisionError"
  using gallery_limit_zero [of "''0''" "\<lparr>image_dir = [''pics''], allow_delete = False\<rparr>" "[]" "[''a.png'']"]
  by (simp add: py_int_def py_strip_def py_isspace_def digits_ok_def is_digit_def)

text \<open>C23: The listing holds, with their multiplicity, exactly the names that do not start
  with a dot and whose lower-cased form ends in \<open>.png\<close>, \<open>.jpg\<close>, \<open>.jpeg\<close> or \<open>.webp\<close>,
  in descending code-point order.\<close>

theorem gallery_listing:
  "mset (gallery_files ls) =
     filter_mset (\<lambda>f. \<not> prefix ''.'' f \<and>
       (suffix ''.png'' (py_lower f) \<or> suffix ''.jpg'' (py_lower f) \<or>
        suffix ''.jpeg'' (py_lower f) \<or> suffix ''.webp'' (py_lower f))) (mset ls) \<and>
   sorted (rev (gallery_files ls))"
proof -
  have "is_listed = (\<lambda>f. \<not> prefix ''.'' f \<and>
       (suffix ''.png'' (py_lower f) \<or> suffix ''.jpg'' (py_lower f) \<or>
        suffix ''.jpeg'' (py_lower f) \<or> suffix ''.webp'' (py_lower f)))"
    by (auto simp: fun_eq_iff is_listed_def image_exts_def py_endswith_any_def py_startswith_def)
  then show ?thesis
    by (simp add: gallery_files_def)
qed

text \<open>C24: The delete button's \<open>onclick\<close> handler, as the browser decodes the attribute
  before running it, is the JavaScript source \<open>executeDelete(['name'])\<close> with the file
  name inserted unescaped: HTML escaping does not protect the JavaScript string, and a
  quote in a file name ends it.\<close>

theorem tile_onclick_js:
  "html_unescape (tile_delete_onclick (render_tile allow i img)) =
     ''executeDelete(['' @ [CHR 0x27] @ img @ [CHR 0x27] @ ''])''"
  by (simp add: render_tile_def)

text \<open>C25: Page numbers below 1 are not rejected: page 0 is empty, and page -1 counts
  from the end of the listing, so with 30 files and \<open>limit=25\<close> it shows the first 5
  files again.\<close>

theorem gallery_nonpositive_pages:
  assumes "0 < l"
  shows "page_slice xs l 0 = [] \<and>
         (l < int (length xs) \<and> int (length xs) \<le> 2 * l \<longrightarrow>
            page_slice xs l (-1) = take (nat (int (length xs) - l)) xs)"
  using assms by (auto simp: page_slice_def py_slice_def Let_def)

theorem gallery_nonpositive_pages_witness:
  "page_slice (replicate 30 ''a.png'') 25 0 = [] \<and> page_slice (replicate 30 ''a.png'') 25 (-1) = replicate 5 ''a.png''"
  using gallery_nonpositive_pages [of 25 "replicate 30 ''a.png''"] by simp

text \<open>C26: The image list given to the client script cannot close the \<open><script>\<close>
  element (\<open>tojson\<close> escapes \<open><\<close>, \<open>>\<close>, \<open>&\<close> and quotes), and the tiles pass
  \<open>openModal\<close> the indices \<open>0..n-1\<close> of that list, in order.\<close>

theorem gallery_page_script:
  "gallery_index cfg args ls = Inr pg \<Longrightarrow>
   script_safe (gp_images_json pg) \<and> map tile_index (gp_tiles pg) = [0..<length (gp_tiles pg)]"
  using gallery_render_script by (blast dest: gallery_index_Inr)

theorem gallery_page_script_witness:
  "\<exists>pg. gallery_index \<lparr>image_dir = [''pics''], allow_delete = True\<rparr> [] [''x</script>.png''] = Inr pg \<and>
     script_safe (gp_images_json pg) \<and> map tile_index (gp_tiles pg) = [0..<length (gp_tiles pg)]"
proof -
  obtain pg where run: "gallery_index \<lparr>image_dir = [''pics''], allow_delete = True\<rparr> [] [''x</script>.png''] = Inr pg"
    by (simp add: gallery_index_def Let_def py_ceil_div_def arg_int_def)
  show ?thesis
    using gallery_page_script [OF run] run by blast
qed

end
