(* ===== verification/GalleryDelete.thy ===== *)
theory GalleryDelete
  imports Gallery
begin

text \<open>
  The archive delete of the gallery, \<open>delete_images\<close> (flask_img_viewer.py lines
  181-200): the \<open>ALLOW_DELETE\<close> guard, the JSON body, the creation of
  \<open>IMAGE_DIR/.archive\<close>, and for every requested name that exists,
  \<open>shutil.move(IMAGE_DIR/name, IMAGE_DIR/.archive/.name.bak)\<close>. The request acts on the
  file system of \<open>FileSys\<close>; an exception leaves the moves already made in place and
  Flask answers with an error status.
\<close>

section \<open>The request (lines 181-200)\<close>

text \<open>The answers: 403 with \<open>{"error": "Unauthorized"}\<close>, \<open>{"success": true}\<close>, or the
  error status of an exception (an HTTP error for a body that is not JSON, 500 otherwise).\<close>

datatype del_resp = DelForbidden | DelOk | DelError py_exc

definition archive_path :: "gallery_cfg \<Rightarrow> string" where
  "archive_path cfg = path_join (path_str (image_dir cfg)) ''.archive''"

text \<open>The loop of lines 191-196. \<open>os.path.join\<close> raises \<open>TypeError\<close> on a name that is not
  a string. All paths are absolute, so the working directory plays no part.\<close>

fun delete_loop :: "gallery_cfg \<Rightarrow> fs \<Rightarrow> pyval list \<Rightarrow> fs \<times> py_exc option" where
  "delete_loop cfg fs [] = (fs, None)"
| "delete_loop cfg fs (f # fns) =
     (case f of
        PyStr name \<Rightarrow>
          (let src = path_join (path_str (image_dir cfg)) name in
           if path_exists fs [] src then
             (case shutil_move fs [] src (path_join (archive_path cfg) (''.'' @ name @ ''.bak'')) of
                Inl e \<Rightarrow> (fs, Some e)
              | Inr fs' \<Rightarrow> delete_loop cfg fs' fns)
           else delete_loop cfg fs fns)
      | _ \<Rightarrow> (fs, Some TypeError))"

text \<open>The body is \<open>request.get_json()\<close>: \<open>None\<close> when it is not JSON, for which Flask
  answers with an error whose status depends on its version (400, 415 from Flask 2.3 on,
  or a 500 from \<open>data.get\<close> on \<open>None\<close> in versions that return it), always before any
  file is touched: the model answers \<open>BadRequest\<close>. Otherwise it is the decoded value;
  \<open>data.get\<close> exists only on a dict, and
  \<open>for filename in filenames\<close> iterates a list, the keys of a dict or the characters of
  a string.\<close>

definition delete_images :: "gallery_cfg \<Rightarrow> fs \<Rightarrow> pyval option \<Rightarrow> fs \<times> del_resp" where
  "delete_images cfg fs body =
     (if \<not> allow_delete cfg then (fs, DelForbidden)
      else case body of
        None \<Rightarrow> (fs, DelError BadRequest)
      | Some (PyDict d) \<Rightarrow>
          (let filenames = (case dict_get d (PyStr ''filenames'') of Some v \<Rightarrow> v | None \<Rightarrow> PyList []) in
           case (if path_exists fs [] (archive_path cfg) then Inr fs
                 else makedirs fs [] (image_dir cfg @ [''.archive''])) of
             Inl e \<Rightarrow> (fs, DelError e)
           | Inr fs1 \<Rightarrow>
               (case py_iter filenames of
                  Inl e \<Rightarrow> (fs1, DelError e)
                | Inr names \<Rightarrow>
                    (case delete_loop cfg fs1 names of
                       (fs2, None) \<Rightarrow> (fs2, DelOk)
                     | (fs2, Some e) \<Rightarrow> (fs2, DelError e))))
      | Some _ \<Rightarrow> (fs, DelError AttributeError))"

section \<open>What the delete promises\<close>

text \<open>
  For plain names of files in the image directory: each one that exists is moved, with
  its contents, to \<open>.archive/.name.bak\<close>; nothing else changes. \<open>archive_one\<close> is that
  effect on the normalised paths, \<open>archive_spec\<close> the whole request.
\<close>

definition bak_name :: "string \<Rightarrow> string" where
  "bak_name name = ''.'' @ name @ ''.bak''"

definition archive_one :: "path \<Rightarrow> fs \<Rightarrow> string \<Rightarrow> fs" where
  "archive_one d fs name =
     (if fs (d @ [name]) = None then fs
      else move_tree fs (d @ [name]) (d @ [''.archive'', bak_name name]))"

definition archive_start :: "path \<Rightarrow> fs \<Rightarrow> fs" where
  "archive_start d fs = (if fs (d @ [''.archive'']) = None then fs(d @ [''.archive''] \<mapsto> NDir) else fs)"

definition archive_spec :: "path \<Rightarrow> fs \<Rightarrow> string list \<Rightarrow> fs" where
  "archive_spec d fs names = foldl (archive_one d) (archive_start d fs) names"

text \<open>The situation in which the remaining names can be archived one by one: a well-formed
  file system with the image directory and its archive, and plain names of entries that
  are not directories, whose archive names are not directories either.\<close>

definition archive_ready :: "path \<Rightarrow> fs \<Rightarrow> string list \<Rightarrow> bool" where
  "archive_ready d fs ns \<longleftrightarrow> fs_wf fs \<and> fs d = Some NDir \<and> fs (d @ [''.archive'']) = Some NDir \<and>
     list_all valid_name ns \<and> ''.archive'' \<notin> set ns \<and>
     list_all (\<lambda>n. fs (d @ [n]) \<noteq> Some NDir \<and> fs (d @ [''.archive'', bak_name n]) \<noteq> Some NDir) ns"

section \<open>An example file system\<close>

text \<open>\<open>/home/pics\<close> holding two images, and the gallery serving it with deletion on.\<close>

definition ex_fs :: fs where
  "ex_fs = Map.empty([] \<mapsto> NDir, [''home''] \<mapsto> NDir, [''home'', ''pics''] \<mapsto> NDir,
     [''home'', ''pics'', ''a.png''] \<mapsto> NFile 7, [''home'', ''pics'', ''b.png''] \<mapsto> NFile 3)"

definition ex_cfg :: gallery_cfg where
  "ex_cfg = \<lparr>image_dir = [''home'', ''pics''], allow_delete = True\<rparr>"

text \<open>The JSON body \<open>{"filenames": [...]}\<close> the page's script posts (line 140).\<close>

definition del_body :: "pyval list \<Rightarrow> pyval option" where
  "del_body vs = Some (PyDict [(PyStr ''filenames'', PyList vs)])"

text \<open>The example with an older archived copy of \<open>a.png\<close>, and with \<open>/etc/passwd\<close>.\<close>

definition ex_fs_bak :: fs where
  "ex_fs_bak = ex_fs([''home'', ''pics'', ''.archive''] \<mapsto> NDir,
     [''home'', ''pics'', ''.archive'', ''.a.png.bak''] \<mapsto> NFile 1)"

definition ex_fs_etc :: fs where
  "ex_fs_etc = ex_fs([''etc''] \<mapsto> NDir, [''etc'', ''passwd''] \<mapsto> NFile 9)"

section \<open>Properties: archiving one name\<close>

lemma valid_bak_name: "valid_name n \<Longrightarrow> valid_name (bak_name n)"
  by (auto simp: valid_name_def bak_name_def)

lemma valid_archive: "valid_name ''.archive''"
  by (simp add: valid_name_def)

lemma bak_name_inj [simp]: "bak_name a = bak_name b \<longleftrightarrow> a = b"
  by (simp add: bak_name_def)

lemma archive_ready_Cons:
  "archive_ready d fs (n # ns) \<Longrightarrow>
   fs_wf fs \<and> fs d = Some NDir \<and> fs (d @ [''.archive'']) = Some NDir \<and> list_all valid_name d \<and>
   valid_name n \<and> n \<noteq> ''.archive'' \<and> fs (d @ [n]) \<noteq> Some NDir \<and> fs (d @ [''.archive'', bak_name n]) \<noteq> Some NDir"
  using wf_valid_names [of fs d] by (auto simp: archive_ready_def)

lemma archive_path_str:
  "list_all valid_name (image_dir cfg) \<Longrightarrow> archive_path cfg = path_str (image_dir cfg @ [''.archive''])"
  using path_join_child [OF _ valid_archive] by (simp add: archive_path_def)

text \<open>The strings the loop builds for a plain name resolve to the intended paths.\<close>

lemma archive_paths:
  assumes r: "archive_ready d fs (n # ns)" and cfg: "image_dir cfg = d"
  shows "path_join (path_str (image_dir cfg)) n = path_str (d @ [n])"
    and "resolve fs [] (path_str (d @ [n])) = Some (d @ [n])"
    and "path_join (archive_path cfg) (''.'' @ n @ ''.bak'') = path_str (d @ [''.archive'', bak_name n])"
    and "resolve fs [] (path_str (d @ [''.archive'', bak_name n])) = Some (d @ [''.archive'', bak_name n])"
proof -
  note c = archive_ready_Cons [OF r]
  then have wf: "fs_wf fs" and vd: "list_all valid_name d" and vn: "valid_name n"
    by simp_all
  show "path_join (path_str (image_dir cfg)) n = path_str (d @ [n])"
    using cfg path_join_child [OF vd vn] by simp
  show "resolve fs [] (path_str (d @ [n])) = Some (d @ [n])"
    using resolve_path_str [OF wf] vd vn c by simp
  show "path_join (archive_path cfg) (''.'' @ n @ ''.bak'') = path_str (d @ [''.archive'', bak_name n])"
    using cfg path_join_child [OF vd valid_archive]
      path_join_child [of "d @ [''.archive'']" "bak_name n"] vd valid_archive valid_bak_name [OF vn]
    by (simp add: archive_path_def bak_name_def)
  show "resolve fs [] (path_str (d @ [''.archive'', bak_name n])) = Some (d @ [''.archive'', bak_name n])"
    using resolve_path_str [OF wf, of "d @ [''.archive'', bak_name n]"] vd valid_archive valid_bak_name [OF vn] c
    by (simp add: butlast_append)
qed

lemma archive_one_ready:
  assumes r: "archive_ready d fs (n # ns)"
  shows "archive_ready d (archive_one d fs n) ns"
proof (cases "fs (d @ [n])")
  case None
  then show ?thesis
    using r by (simp add: archive_one_def archive_ready_def)
next
  case (Some v)
  note c = archive_ready_Cons [OF r]
  then obtain k where k: "fs (d @ [n]) = Some (NFile k)"
    using Some by (cases v) auto
  let ?fs' = "move_tree fs (d @ [n]) (d @ [''.archive'', bak_name n])"
  have wf': "fs_wf ?fs'"
  proof (rule move_tree_file_wf [where fs = fs and ps = "d @ [n]" and k = k and q = "d @ [''.archive'']" and y = "bak_name n"])
    show "\<not> prefix (d @ [n]) (d @ [''.archive'', bak_name n])"
      using c by (auto simp: prefix_def)
  qed (use c k valid_bak_name in simp_all)
  have d': "?fs' d = Some NDir" "?fs' (d @ [''.archive'']) = Some NDir"
    using c by (auto simp: move_tree_def prefix_def)
  have rest: "list_all (\<lambda>m. ?fs' (d @ [m]) \<noteq> Some NDir \<and> ?fs' (d @ [''.archive'', bak_name m]) \<noteq> Some NDir) ns"
    using r k by (auto simp: archive_ready_def list_all_iff move_tree_def prefix_def)
  show ?thesis
    using r wf' d' rest Some by (simp add: archive_one_def archive_ready_def)
qed

lemma delete_loop_step:
  assumes r: "archive_ready d fs (n # ns)" and cfg: "image_dir cfg = d"
  shows "delete_loop cfg fs (PyStr n # xs) = delete_loop cfg (archive_one d fs n) xs"
proof (cases "fs (d @ [n])")
  case None
  then show ?thesis
    using archive_paths [OF r cfg] by (simp add: path_exists_def archive_one_def)
next
  case (Some v)
  note c = archive_ready_Cons [OF r]
  then obtain k where k: "fs (d @ [n]) = Some (NFile k)"
    using Some by (cases v) auto
  have "shutil_move fs [] (path_str (d @ [n])) (path_str (d @ [''.archive'', bak_name n])) =
      Inr (move_tree fs (d @ [n]) (d @ [''.archive'', bak_name n]))"
    using shutil_move_file [OF archive_paths(2,4) [OF r cfg] k] c by simp
  then show ?thesis
    using archive_paths [OF r cfg] Some by (simp add: path_exists_def archive_one_def)
qed

text \<open>The loop over plain names, followed by anything.\<close>

lemma delete_loop_prefix:
  "image_dir cfg = d \<Longrightarrow> archive_ready d fs names \<Longrightarrow>
   delete_loop cfg fs (map PyStr names @ rest) = delete_loop cfg (foldl (archive_one d) fs names) rest"
proof (induction names arbitrary: fs)
  case (Cons n ns)
  then show ?case
    using delete_loop_step [OF Cons.prems(2,1)] archive_one_ready [OF Cons.prems(2)] by simp
qed simp

lemma archive_one_at:
  assumes r: "archive_ready d fs (n # ns)"
  shows "archive_one d fs n p =
           (if p = d @ [n] then None
            else if p = d @ [''.archive'', bak_name n] then (case fs (d @ [n]) of None \<Rightarrow> fs p | Some v \<Rightarrow> Some v)
            else fs p)"
proof (cases "fs (d @ [n])")
  case None
  then show ?thesis
    by (simp add: archive_one_def)
next
  case (Some v)
  note c = archive_ready_Cons [OF r]
  then obtain k where k: "fs (d @ [n]) = Some (NFile k)"
    using Some by (cases v) auto
  have ne: "d @ [''.archive'', bak_name n] \<noteq> d @ [n]"
    by simp
  show ?thesis
    using Some k c move_tree_file_src [where fs = fs and ps = "d @ [n]", OF _ k _ ne]
      move_tree_file_frame [where fs = fs and ps = "d @ [n]" and pd = "d @ [''.archive'', bak_name n]" and p = p, OF _ k]
    by (simp add: archive_one_def)
qed

text \<open>The effect of archiving a list of distinct names, path by path.\<close>

lemma archive_foldl:
  "archive_ready d fs names \<Longrightarrow> distinct names \<Longrightarrow>
   (\<forall>n\<in>set names. foldl (archive_one d) fs names (d @ [n]) = None \<and>
       foldl (archive_one d) fs names (d @ [''.archive'', bak_name n]) =
         (case fs (d @ [n]) of None \<Rightarrow> fs (d @ [''.archive'', bak_name n]) | Some v \<Rightarrow> Some v)) \<and>
   (\<forall>p. (\<forall>n\<in>set names. p \<noteq> d @ [n] \<and> p \<noteq> d @ [''.archive'', bak_name n]) \<longrightarrow>
       foldl (archive_one d) fs names p = fs p)"
proof (induction names arbitrary: fs)
  case (Cons n ns)
  note at = archive_one_at [OF Cons.prems(1)]
  have IH: "(\<forall>m\<in>set ns. foldl (archive_one d) (archive_one d fs n) ns (d @ [m]) = None \<and>
       foldl (archive_one d) (archive_one d fs n) ns (d @ [''.archive'', bak_name m]) =
         (case archive_one d fs n (d @ [m]) of None \<Rightarrow> archive_one d fs n (d @ [''.archive'', bak_name m]) | Some v \<Rightarrow> Some v)) \<and>
   (\<forall>p. (\<forall>m\<in>set ns. p \<noteq> d @ [m] \<and> p \<noteq> d @ [''.archive'', bak_name m]) \<longrightarrow>
       foldl (archive_one d) (archive_one d fs n) ns p = archive_one d fs n p)"
    using Cons.IH [OF archive_one_ready [OF Cons.prems(1)]] Cons.prems(2) by simp
  have nn: "n \<notin> set ns"
    using Cons.prems(2) by simp
  show ?case
  proof (rule conjI; intro ballI allI impI)
    fix m assume "m \<in> set (n # ns)"
    then consider "m = n" | "m \<in> set ns" "m \<noteq> n"
      using nn by auto
    then show "foldl (archive_one d) fs (n # ns) (d @ [m]) = None \<and>
       foldl (archive_one d) fs (n # ns) (d @ [''.archive'', bak_name m]) =
         (case fs (d @ [m]) of None \<Rightarrow> fs (d @ [''.archive'', bak_name m]) | Some v \<Rightarrow> Some v)"
    proof cases
      case 1
      have fr: "foldl (archive_one d) (archive_one d fs n) ns p = archive_one d fs n p"
        if "p \<in> {d @ [n], d @ [''.archive'', bak_name n]}" for p
      proof -
        have "\<forall>m\<in>set ns. p \<noteq> d @ [m] \<and> p \<noteq> d @ [''.archive'', bak_name m]"
          using that nn by auto
        then show ?thesis
          using IH by blast
      qed
      show ?thesis
        using fr [of "d @ [n]"] fr [of "d @ [''.archive'', bak_name n]"] at 1 by (simp split: option.split)
    next
      case 2
      have "archive_one d fs n (d @ [m]) = fs (d @ [m])"
        "archive_one d fs n (d @ [''.archive'', bak_name m]) = fs (d @ [''.archive'', bak_name m])"
        using at 2 by simp_all
      then show ?thesis
        using IH 2 by (simp split: option.split)
    qed
  next
    fix p assume "\<forall>m\<in>set (n # ns). p \<noteq> d @ [m] \<and> p \<noteq> d @ [''.archive'', bak_name m]"
    then show "foldl (archive_one d) fs (n # ns) p = fs p"
      using IH at by simp
  qed
qed simp

section \<open>Properties: the request\<close>

lemma archive_start_ready:
  assumes wf: "fs_wf fs" and d: "fs d = Some NDir"
    and arch: "fs (d @ [''.archive'']) \<in> {None, Some NDir}"
    and valid: "list_all valid_name names" and na: "''.archive'' \<notin> set names"
    and files: "list_all (\<lambda>n. fs (d @ [n]) \<noteq> Some NDir \<and> fs (d @ [''.archive'', bak_name n]) \<noteq> Some NDir) names"
  shows "archive_ready d (archive_start d fs) names"
proof (cases "fs (d @ [''.archive''])")
  case None
  have no_bak: "fs (d @ [''.archive'', m]) = None" for m
    using wf_prefix_dir [of fs "d @ [''.archive'']" "[m]"] wf None by (cases "fs (d @ [''.archive'', m])") auto
  show ?thesis
    using wf_add_dir [OF wf d valid_archive None] None d valid na files no_bak
    by (auto simp: archive_ready_def archive_start_def list_all_iff)
next
  case (Some v)
  then show ?thesis
    using arch wf d valid na files by (simp add: archive_ready_def archive_start_def)
qed

text \<open>On a list that starts with plain names the request refines \<open>archive_spec\<close>: it
  creates the archive when it is missing, archives those names in order, and goes on with
  the rest of the list from there.\<close>

lemma delete_images_spec:
  assumes wf: "fs_wf fs" and d: "fs d = Some NDir" and cfg: "image_dir cfg = d" and allow: "allow_delete cfg"
    and arch: "fs (d @ [''.archive'']) \<in> {None, Some NDir}"
    and valid: "list_all valid_name names" and na: "''.archive'' \<notin> set names"
    and files: "list_all (\<lambda>n. fs (d @ [n]) \<noteq> Some NDir \<and> fs (d @ [''.archive'', bak_name n]) \<noteq> Some NDir) names"
  shows "delete_images cfg fs (Some (PyDict [(PyStr ''filenames'', PyList (map PyStr names @ rest))])) =
           (case delete_loop cfg (archive_spec d fs names) rest of
              (fs2, None) \<Rightarrow> (fs2, DelOk)
            | (fs2, Some e) \<Rightarrow> (fs2, DelError e))"
proof -
  have vd: "list_all valid_name d"
    using wf_valid_names [OF wf] d by simp
  have ap: "archive_path cfg = path_str (d @ [''.archive''])"
    using archive_path_str [of cfg] vd cfg by simp
  have ra: "resolve fs [] (archive_path cfg) = Some (d @ [''.archive''])"
    using resolve_path_str [OF wf, of "d @ [''.archive'']"] ap vd valid_archive d by simp
  have loop: "delete_loop cfg (archive_start d fs) (map PyStr names @ rest) =
      delete_loop cfg (archive_spec d fs names) rest"
    using delete_loop_prefix [OF cfg archive_start_ready [OF wf d arch valid na files]]
    by (simp add: archive_spec_def)
  show ?thesis
  proof (cases "fs (d @ [''.archive''])")
    case None
    have mk: "makedirs fs [] (d @ [''.archive'']) = Inr (archive_start d fs)"
      using makedirs_last [of d fs "[]" "''.archive''"] None wf_prefix_of_dir [OF wf d]
      by (simp add: archive_start_def)
    show ?thesis
      using allow None ra mk loop cfg by (simp add: delete_images_def path_exists_def)
  next
    case (Some v)
    then have "archive_start d fs = fs"
      by (simp add: archive_start_def)
    then show ?thesis
      using allow Some ra loop by (simp add: delete_images_def path_exists_def)
  qed
qed

lemma delete_images_plain:
  assumes "fs_wf fs" "fs d = Some NDir" "image_dir cfg = d" "allow_delete cfg"
    "fs (d @ [''.archive'']) \<in> {None, Some NDir}" "list_all valid_name names" "''.archive'' \<notin> set names"
    "list_all (\<lambda>n. fs (d @ [n]) \<noteq> Some NDir \<and> fs (d @ [''.archive'', bak_name n]) \<noteq> Some NDir) names"
  shows "delete_images cfg fs (del_body (map PyStr names)) = (archive_spec d fs names, DelOk)"
  using delete_images_spec [OF assms, of "[]"] by (simp add: del_body_def)

lemma archive_start_at: "p \<noteq> d @ [''.archive''] \<Longrightarrow> archive_start d fs p = fs p"
  by (simp add: archive_start_def)

text \<open>The example file system is well formed.\<close>

lemma ex_fs_wf: "fs_wf ex_fs"
  by (auto simp: fs_wf_def ex_fs_def valid_name_def append_eq_Cons_conv)

text \<open>What \<open>archive_spec\<close> does to each path, for distinct plain names.\<close>

lemma archive_spec_effect:
  assumes wf: "fs_wf fs" and d: "fs d = Some NDir"
    and arch: "fs (d @ [''.archive'']) \<in> {None, Some NDir}"
    and valid: "list_all valid_name names" and na: "''.archive'' \<notin> set names" and dist: "distinct names"
    and files: "list_all (\<lambda>n. fs (d @ [n]) \<noteq> Some NDir \<and> fs (d @ [''.archive'', bak_name n]) \<noteq> Some NDir) names"
  shows "archive_spec d fs names (d @ [''.archive'']) = Some NDir \<and>
         (\<forall>n\<in>set names. archive_spec d fs names (d @ [n]) = None \<and>
            archive_spec d fs names (d @ [''.archive'', bak_name n]) =
              (case fs (d @ [n]) of None \<Rightarrow> fs (d @ [''.archive'', bak_name n]) | Some v \<Rightarrow> Some v)) \<and>
         (\<forall>p. p \<noteq> d @ [''.archive''] \<and> (\<forall>n\<in>set names. p \<noteq> d @ [n] \<and> p \<noteq> d @ [''.archive'', bak_name n]) \<longrightarrow>
            archive_spec d fs names p = fs p)"
proof -
  have fold: "(\<forall>n\<in>set names. archive_spec d fs names (d @ [n]) = None \<and>
       archive_spec d fs names (d @ [''.archive'', bak_name n]) =
         (case archive_start d fs (d @ [n]) of None \<Rightarrow> archive_start d fs (d @ [''.archive'', bak_name n]) | Some v \<Rightarrow> Some v)) \<and>
     (\<forall>p. (\<forall>n\<in>set names. p \<noteq> d @ [n] \<and> p \<noteq> d @ [''.archive'', bak_name n]) \<longrightarrow>
       archive_spec d fs names p = archive_start d fs p)"
    using archive_foldl [OF archive_start_ready [OF wf d arch valid na files] dist] by (simp add: archive_spec_def)
  have start: "archive_start d fs (d @ [''.archive'']) = Some NDir"
    using arch by (auto simp: archive_start_def)
  have "archive_spec d fs names (d @ [''.archive'']) = Some NDir"
    using fold start na by auto
  moreover have "\<forall>n\<in>set names. archive_spec d fs names (d @ [n]) = None \<and>
       archive_spec d fs names (d @ [''.archive'', bak_name n]) =
         (case fs (d @ [n]) of None \<Rightarrow> fs (d @ [''.archive'', bak_name n]) | Some v \<Rightarrow> Some v)"
  proof
    fix n assume n: "n \<in> set names"
    then have "n \<noteq> ''.archive''"
      using na by auto
    then have "archive_start d fs (d @ [n]) = fs (d @ [n])"
      "archive_start d fs (d @ [''.archive'', bak_name n]) = fs (d @ [''.archive'', bak_name n])"
      by (simp_all add: archive_start_at)
    then show "archive_spec d fs names (d @ [n]) = None \<and>
       archive_spec d fs names (d @ [''.archive'', bak_name n]) =
         (case fs (d @ [n]) of None \<Rightarrow> fs (d @ [''.archive'', bak_name n]) | Some v \<Rightarrow> Some v)"
      using fold n by (simp split: option.split)
  qed
  moreover have "\<forall>p. p \<noteq> d @ [''.archive''] \<and> (\<forall>n\<in>set names. p \<noteq> d @ [n] \<and> p \<noteq> d @ [''.archive'', bak_name n]) \<longrightarrow>
       archive_spec d fs names p = fs p"
    using fold by (simp add: archive_start_at)
  ultimately show ?thesis
    by blast
qed

text \<open>The guard of line 183 against the flag of \<open>main\<close> (lines 206-209).\<close>

lemma delete_images_forbidden:
  "\<not> allow_delete cfg \<Longrightarrow> delete_images cfg fs body = (fs, DelForbidden)"
  by (simp add: delete_images_def)

lemma delete_images_allowed:
  "allow_delete cfg \<Longrightarrow> snd (delete_images cfg fs body) \<noteq> DelForbidden"
  by (simp add: delete_images_def Let_def split: option.split pyval.split sum.split prod.split)

lemma gallery_main_flag:
  "gallery_main cwd path_arg flag_arg port_arg = Inr (cfg, port) \<Longrightarrow>
   (py_int flag_arg = Some 0 \<and> \<not> allow_delete cfg) \<or> (py_int flag_arg = Some 1 \<and> allow_delete cfg)"
  by (auto simp: gallery_main_def Let_def split: option.splits if_splits)

lemma archive_spec_drops_content:
  assumes wf: "fs_wf fs" and d: "fs d = Some NDir"
    and arch: "fs (d @ [''.archive'']) \<in> {None, Some NDir}"
    and valid: "list_all valid_name names" and na: "''.archive'' \<notin> set names" and dist: "distinct names"
    and files: "list_all (\<lambda>n. fs (d @ [n]) \<noteq> Some NDir \<and> fs (d @ [''.archive'', bak_name n]) \<noteq> Some NDir) names"
    and n: "n \<in> set names" and cur: "fs (d @ [n]) \<noteq> None"
    and only: "\<forall>p. fs p = Some (NFile b) \<longrightarrow> p = d @ [''.archive'', bak_name n]"
  shows "archive_spec d fs names p \<noteq> Some (NFile b)"
proof -
  let ?fs' = "archive_spec d fs names"
  obtain A: "?fs' (d @ [''.archive'']) = Some NDir"
    and B: "\<forall>m\<in>set names. ?fs' (d @ [m]) = None \<and>
       ?fs' (d @ [''.archive'', bak_name m]) =
         (case fs (d @ [m]) of None \<Rightarrow> fs (d @ [''.archive'', bak_name m]) | Some v \<Rightarrow> Some v)"
    and C: "\<forall>p. p \<noteq> d @ [''.archive''] \<and> (\<forall>m\<in>set names. p \<noteq> d @ [m] \<and> p \<noteq> d @ [''.archive'', bak_name m]) \<longrightarrow>
       ?fs' p = fs p"
    using archive_spec_effect [OF wf d arch valid na dist files] by blast
  show ?thesis
  proof (cases "p = d @ [''.archive''] \<or> (\<exists>m\<in>set names. p = d @ [m] \<or> p = d @ [''.archive'', bak_name m])")
    case True
    then consider "p = d @ [''.archive'']" | m where "m \<in> set names" "p = d @ [m]"
      | m where "m \<in> set names" "p = d @ [''.archive'', bak_name m]"
      by blast
    then show ?thesis
    proof cases
      case 1
      then show ?thesis using A by simp
    next
      case 2
      then show ?thesis using B by simp
    next
      case 3
      note Bm = bspec [OF B 3(1)]
      show ?thesis
      proof (cases "fs (d @ [m])")
        case None
        then have "m \<noteq> n"
          using cur by auto
        then have "fs (d @ [''.archive'', bak_name m]) \<noteq> Some (NFile b)"
          using only by auto
        then show ?thesis
          using Bm 3(2) None by simp
      next
        case (Some v)
        then have "v \<noteq> NFile b"
          using only [rule_format, of "d @ [m]"] by auto
        then show ?thesis
          using Bm 3(2) Some by simp
      qed
    qed
  next
    case False
    then have "?fs' p = fs p"
      using C by blast
    moreover have "p \<noteq> d @ [''.archive'', bak_name n]"
      using False n by blast
    ultimately show ?thesis
      using only by auto
  qed
qed

text \<open>The two strings the loop builds for the name \<open>/../..(m times)/p/x\<close>.\<close>

lemma traversal_strings:
  assumes vd: "list_all valid_name d" and cfg: "image_dir cfg = d" and m: "0 < m"
  shows "path_join (path_str (image_dir cfg)) (path_str (replicate m ''..'' @ p @ [x])) =
           path_str (replicate m ''..'' @ p @ [x])"
    and "path_join (archive_path cfg) (''.'' @ path_str (replicate m ''..'' @ p @ [x]) @ ''.bak'') =
           path_str (d @ [''.archive'', ''.''] @ replicate m ''..'' @ p @ [x @ ''.bak''])"
proof -
  obtain m' where m': "m = Suc m'"
    using m by (cases m) auto
  show "path_join (path_str (image_dir cfg)) (path_str (replicate m ''..'' @ p @ [x])) =
           path_str (replicate m ''..'' @ p @ [x])"
    by (simp add: m' path_join_def path_str_def py_startswith_def)
  have last: "last (path_str (d @ [''.archive''])) = CHR ''e''"
    using last_path_str [of "d @ [''.archive'']"] by simp
  show "path_join (archive_path cfg) (''.'' @ path_str (replicate m ''..'' @ p @ [x]) @ ''.bak'') =
           path_str (d @ [''.archive'', ''.''] @ replicate m ''..'' @ p @ [x @ ''.bak''])"
    using archive_path_str [of cfg] vd cfg last
    by (simp add: path_join_def py_startswith_def) (simp add: path_str_def)
qed

text \<open>How those strings resolve: the \<open>..\<close> components climb to the root, out of the
  image directory and, for the backup, out of \<open>.archive\<close>.\<close>

lemma traversal_resolve:
  assumes wf: "fs_wf fs" and d: "fs (d @ [''.archive'']) = Some NDir" and p: "fs p = Some NDir"
    and x: "valid_name x" and m: "length d < m"
  shows "resolve fs [] (path_str (replicate m ''..'' @ p @ [x])) = Some (p @ [x])"
    and "resolve fs [] (path_str (d @ [''.archive'', ''.''] @ replicate m ''..'' @ p @ [x @ ''.bak''])) =
           Some (p @ [x @ ''.bak''])"
proof -
  have root: "fs [] = Some NDir"
    using wf by (simp add: fs_wf_def)
  have vp: "list_all valid_name p"
    using wf_valid_names [OF wf, of p] p by simp
  have vd: "list_all valid_name (d @ [''.archive''])"
    using wf_valid_names [OF wf, of "d @ [''.archive'']"] d by simp
  have sep: "list_all (\<lambda>c. CHR ''/'' \<notin> set c \<and> CHR 0x00 \<notin> set c) cs" if "list_all valid_name cs" for cs
    using that by (auto simp: list_all_iff valid_name_def)
  have dots: "list_all (\<lambda>c. CHR ''/'' \<notin> set c \<and> CHR 0x00 \<notin> set c) (replicate m ''..'')"
    by (simp add: list_all_iff)
  have nx: "x \<noteq> []" "x \<noteq> ''.''" "x \<noteq> ''..''" "CHR ''/'' \<notin> set x" "CHR 0x00 \<notin> set x"
    using x by (auto simp: valid_name_def)
  have bak: "x @ ''.bak'' \<noteq> []" "x @ ''.bak'' \<noteq> ''.''" "x @ ''.bak'' \<noteq> ''..''"
    by (auto simp: append_eq_Cons_conv)
  have "walk fs [] (replicate m ''..'' @ p @ [x]) = walk fs p [x]"
    using walk_up [OF wf root, of m "p @ [x]"] walk_dirs [OF wf root, of p "[x]"] p vp by simp
  then show "resolve fs [] (path_str (replicate m ''..'' @ p @ [x])) = Some (p @ [x])"
    using resolve_comps [of "replicate m ''..'' @ p @ [x]" fs "[]"] sep [OF vp] dots nx p by simp
  have "walk fs [] ((d @ [''.archive'']) @ ''.'' # replicate m ''..'' @ p @ [x @ ''.bak'']) =
        walk fs (d @ [''.archive'']) (''.'' # replicate m ''..'' @ p @ [x @ ''.bak''])"
    using walk_dirs [OF wf root, of "d @ [''.archive'']"] d vd by simp
  also have "\<dots> = walk fs [] (p @ [x @ ''.bak''])"
    using walk_up [OF wf d, of m "p @ [x @ ''.bak'']"] d m by simp
  also have "\<dots> = Some (p @ [x @ ''.bak''])"
    using walk_dirs [OF wf root, of p "[x @ ''.bak'']"] p vp bak by simp
  finally show "resolve fs [] (path_str (d @ [''.archive'', ''.''] @ replicate m ''..'' @ p @ [x @ ''.bak''])) =
           Some (p @ [x @ ''.bak''])"
    using resolve_comps [of "d @ [''.archive'', ''.''] @ replicate m ''..'' @ p @ [x @ ''.bak'']" fs "[]"]
      sep [OF vp] sep [OF vd] dots nx by simp
qed

section \<open>Properties of the archive delete\<close>

text \<open>C27: A delete of distinct plain names of files in \<open>IMAGE_DIR\<close> succeeds; afterwards
  \<open>IMAGE_DIR/.archive\<close> is a directory, no requested name is left in \<open>IMAGE_DIR\<close>, each
  one that existed is at \<open>.archive/.name.bak\<close> with its contents (one that did not leaves
  that path as it was), and no other path changes.\<close>

theorem delete_images_moves:
  assumes wf: "fs_wf fs" and d: "fs d = Some NDir" and cfg: "image_dir cfg = d" and allow: "allow_delete cfg"
    and arch: "fs (d @ [''.archive'']) \<in> {None, Some NDir}"
    and valid: "list_all valid_name names" and na: "''.archive'' \<notin> set names" and dist: "distinct names"
    and files: "list_all (\<lambda>n. fs (d @ [n]) \<noteq> Some NDir \<and> fs (d @ [''.archive'', bak_name n]) \<noteq> Some NDir) names"
  shows "\<exists>fs'. delete_images cfg fs (del_body (map PyStr names)) = (fs', DelOk) \<and>
           fs' (d @ [''.archive'']) = Some NDir \<and>
           (\<forall>n\<in>set names. fs' (d @ [n]) = None \<and>
              fs' (d @ [''.archive'', bak_name n]) =
                (case fs (d @ [n]) of None \<Rightarrow> fs (d @ [''.archive'', bak_name n]) | Some v \<Rightarrow> Some v)) \<and>
           (\<forall>p. p \<noteq> d @ [''.archive''] \<and> (\<forall>n\<in>set names. p \<noteq> d @ [n] \<and> p \<noteq> d @ [''.archive'', bak_name n]) \<longrightarrow>
              fs' p = fs p)"
proof -
  have "delete_images cfg fs (del_body (map PyStr names)) = (archive_spec d fs names, DelOk)"
    using delete_images_plain [OF wf d cfg allow arch valid na files] .
  then show ?thesis
    using archive_spec_effect [OF wf d arch valid na dist files] by blast
qed

theorem delete_images_moves_witness:
  "\<exists>fs'. delete_images ex_cfg ex_fs (del_body (map PyStr [''a.png'', ''c.png''])) = (fs', DelOk) \<and>
     fs' [''home'', ''pics'', ''.archive''] = Some NDir \<and> fs' [''home'', ''pics'', ''a.png''] = None \<and>
     fs' [''home'', ''pics'', ''.archive'', ''.a.png.bak''] = Some (NFile 7) \<and>
     fs' [''home'', ''pics'', ''b.png''] = Some (NFile 3)"
proof -
  let ?d = "[''home'', ''pics'']" and ?ns = "[''a.png'', ''c.png'']"
  have h: "fs_wf ex_fs" "ex_fs ?d = Some NDir" "image_dir ex_cfg = ?d" "allow_delete ex_cfg"
    "ex_fs (?d @ [''.archive'']) \<in> {None, Some NDir}" "list_all valid_name ?ns" "''.archive'' \<notin> set ?ns"
    "distinct ?ns"
    "list_all (\<lambda>n. ex_fs (?d @ [n]) \<noteq> Some NDir \<and> ex_fs (?d @ [''.archive'', bak_name n]) \<noteq> Some NDir) ?ns"
    by (simp add: ex_fs_wf, simp_all add: ex_fs_def ex_cfg_def valid_name_def bak_name_def)
  obtain fs' where run: "delete_images ex_cfg ex_fs (del_body (map PyStr ?ns)) = (fs', DelOk)"
    and arch: "fs' (?d @ [''.archive'']) = Some NDir"
    and moved: "\<forall>n\<in>set ?ns. fs' (?d @ [n]) = None \<and>
       fs' (?d @ [''.archive'', bak_name n]) =
         (case ex_fs (?d @ [n]) of None \<Rightarrow> ex_fs (?d @ [''.archive'', bak_name n]) | Some v \<Rightarrow> Some v)"
    and frame: "\<forall>p. p \<noteq> ?d @ [''.archive''] \<and> (\<forall>n\<in>set ?ns. p \<noteq> ?d @ [n] \<and> p \<noteq> ?d @ [''.archive'', bak_name n]) \<longrightarrow>
       fs' p = ex_fs p"
    using delete_images_moves [OF h] by blast
  have "fs' [''home'', ''pics'', ''a.png''] = None \<and> fs' [''home'', ''pics'', ''.archive'', ''.a.png.bak''] = Some (NFile 7)"
    using bspec [OF moved, of "''a.png''"] by (simp add: ex_fs_def bak_name_def)
  moreover have "fs' [''home'', ''pics'', ''b.png''] = Some (NFile 3)"
    using spec [OF frame, of "[''home'', ''pics'', ''b.png'']"] by (simp add: ex_fs_def bak_name_def)
  ultimately show ?thesis
    using run arch by simp
qed

text \<open>C28: The \<open>ALLOW_DELETE\<close> flag of the command line decides: with a configuration
  that \<open>main\<close> accepted, the request is refused (403) exactly when the flag is \<open>0\<close>, and a
  refused request leaves the file system as it was.\<close>

theorem delete_images_guard:
  "gallery_main cwd path_arg flag_arg port_arg = Inr (cfg, port) \<Longrightarrow>
   (snd (delete_images cfg fs body) = DelForbidden \<longleftrightarrow> py_int flag_arg = Some 0) \<and>
   (py_int flag_arg = Some 0 \<longrightarrow> fst (delete_images cfg fs body) = fs)"
  by (auto dest!: gallery_main_flag simp: delete_images_forbidden delete_images_allowed)

theorem delete_images_guard_witness:
  "gallery_main [''home''] ''pics'' ''0'' None = Inr (\<lparr>image_dir = [''home'', ''pics''], allow_delete = False\<rparr>, 7000) \<and>
   snd (delete_images \<lparr>image_dir = [''home'', ''pics''], allow_delete = False\<rparr> ex_fs (del_body [PyStr ''a.png''])) = DelForbidden \<and>
   fst (delete_images \<lparr>image_dir = [''home'', ''pics''], allow_delete = False\<rparr> ex_fs (del_body [PyStr ''a.png''])) = ex_fs"
proof -
  have m: "gallery_main [''home''] ''pics'' ''0'' None = Inr (\<lparr>image_dir = [''home'', ''pics''], allow_delete = False\<rparr>, 7000)"
    by (simp add: gallery_main_def abspath_def py_int_eval)
  have "py_int ''0'' = Some 0"
    by (simp add: py_int_eval)
  then show ?thesis
    using m delete_images_guard [OF m, of ex_fs "del_body [PyStr ''a.png'']"] by simp
qed

text \<open>C29: An entry of \<open>filenames\<close> that is not a string makes \<open>os.path.join\<close> raise
  \<open>TypeError\<close> (a 500 answer), but the files before it have already been archived: the
  request is not atomic.\<close>

theorem delete_images_type_error:
  assumes wf: "fs_wf fs" and d: "fs d = Some NDir" and cfg: "image_dir cfg = d" and allow: "allow_delete cfg"
    and arch: "fs (d @ [''.archive'']) \<in> {None, Some NDir}"
    and valid: "list_all valid_name names" and na: "''.archive'' \<notin> set names"
    and files: "list_all (\<lambda>n. fs (d @ [n]) \<noteq> Some NDir \<and> fs (d @ [''.archive'', bak_name n]) \<noteq> Some NDir) names"
    and v: "\<forall>s. v \<noteq> PyStr s"
  shows "delete_images cfg fs (del_body (map PyStr names @ v # rest)) = (archive_spec d fs names, DelError TypeError)"
proof -
  have "delete_loop cfg fs' (v # rest) = (fs', Some TypeError)" for fs'
    using v by (cases v) simp_all
  then show ?thesis
    using delete_images_spec [OF wf d cfg allow arch valid na files, of "v # rest"] by (simp add: del_body_def)
qed

theorem delete_images_type_error_witness:
  "delete_images ex_cfg ex_fs (del_body [PyStr ''a.png'', PyInt 5]) =
     (archive_spec [''home'', ''pics''] ex_fs [''a.png''], DelError TypeError) \<and>
   archive_spec [''home'', ''pics''] ex_fs [''a.png''] [''home'', ''pics'', ''a.png''] = None"
proof -
  have wf: "fs_wf ex_fs"
    by (rule ex_fs_wf)
  have "delete_images ex_cfg ex_fs (del_body (map PyStr [''a.png''] @ PyInt 5 # [])) =
     (archive_spec [''home'', ''pics''] ex_fs [''a.png''], DelError TypeError)"
    using delete_images_type_error [OF wf, of "[''home'', ''pics'']" ex_cfg "[''a.png'']" "PyInt 5" "[]"]
    by (simp add: ex_fs_def ex_cfg_def valid_name_def bak_name_def)
  moreover have "archive_spec [''home'', ''pics''] ex_fs [''a.png''] [''home'', ''pics'', ''a.png''] = None"
    by (simp add: archive_spec_def archive_start_def archive_one_def move_tree_def ex_fs_def bak_name_def)
  ultimately show ?thesis
    by simp
qed

text \<open>C30: Archiving a name whose backup already exists replaces the backup: when the older
  copy's contents are nowhere else, they are gone from the file system after a
  successful request.\<close>

theorem delete_images_overwrites_backup:
  assumes wf: "fs_wf fs" and d: "fs d = Some NDir" and cfg: "image_dir cfg = d" and allow: "allow_delete cfg"
    and arch: "fs (d @ [''.archive'']) \<in> {None, Some NDir}"
    and valid: "list_all valid_name names" and na: "''.archive'' \<notin> set names" and dist: "distinct names"
    and files: "list_all (\<lambda>n. fs (d @ [n]) \<noteq> Some NDir \<and> fs (d @ [''.archive'', bak_name n]) \<noteq> Some NDir) names"
    and n: "n \<in> set names" and cur: "fs (d @ [n]) \<noteq> None"
    and old: "fs (d @ [''.archive'', bak_name n]) = Some (NFile b)"
    and only: "\<forall>p. fs p = Some (NFile b) \<longrightarrow> p = d @ [''.archive'', bak_name n]"
  shows "\<exists>fs'. delete_images cfg fs (del_body (map PyStr names)) = (fs', DelOk) \<and> (\<forall>p. fs' p \<noteq> Some (NFile b))"
proof -
  have "delete_images cfg fs (del_body (map PyStr names)) = (archive_spec d fs names, DelOk)"
    using delete_images_plain [OF wf d cfg allow arch valid na files] .
  then show ?thesis
    using archive_spec_drops_content [OF wf d arch valid na dist files n cur only] by blast
qed

theorem delete_images_overwrites_backup_witness:
  "\<exists>fs'. delete_images ex_cfg ex_fs_bak (del_body [PyStr ''a.png'']) = (fs', DelOk) \<and>
     (\<forall>p. fs' p \<noteq> Some (NFile 1))"
proof -
  let ?d = "[''home'', ''pics'']"
  have wf0: "fs_wf (ex_fs(?d @ [''.archive''] \<mapsto> NDir))"
    by (rule wf_add_dir [OF ex_fs_wf]) (simp_all add: ex_fs_def valid_name_def)
  have wf: "fs_wf ex_fs_bak"
    unfolding ex_fs_bak_def
    using wf_add_file [OF wf0, of "?d @ [''.archive'']" "''.a.png.bak''" 1]
    by (simp add: ex_fs_def valid_name_def)
  have h: "ex_fs_bak ?d = Some NDir" "image_dir ex_cfg = ?d" "allow_delete ex_cfg"
    "ex_fs_bak (?d @ [''.archive'']) \<in> {None, Some NDir}" "list_all valid_name [''a.png'']"
    "''.archive'' \<notin> set [''a.png'']" "distinct [''a.png'']"
    "list_all (\<lambda>n. ex_fs_bak (?d @ [n]) \<noteq> Some NDir \<and> ex_fs_bak (?d @ [''.archive'', bak_name n]) \<noteq> Some NDir) [''a.png'']"
    "''a.png'' \<in> set [''a.png'']" "ex_fs_bak (?d @ [''a.png'']) \<noteq> None"
    "ex_fs_bak (?d @ [''.archive'', bak_name ''a.png'']) = Some (NFile 1)"
    "\<forall>p. ex_fs_bak p = Some (NFile 1) \<longrightarrow> p = ?d @ [''.archive'', bak_name ''a.png'']"
    by (simp_all add: ex_fs_bak_def ex_fs_def ex_cfg_def valid_name_def bak_name_def)
  show ?thesis
    using delete_images_overwrites_backup [OF wf h] by (simp add: del_body_def)
qed

text \<open>C31: The name is joined to \<open>IMAGE_DIR\<close> unchecked, so a name that starts with a slash
  escapes it: for every file \<open>p/x\<close> of the file system, deleting
  \<open>/../..(m times)/p/x\<close> with \<open>m\<close> larger than the depth of \<open>IMAGE_DIR\<close> renames it to
  \<open>p/x.bak\<close> (the \<open>..\<close> of the backup name climb out of \<open>.archive\<close> again), answers
  success, and changes nothing else besides creating \<open>.archive\<close>.\<close>

theorem delete_images_traversal:
  assumes wf: "fs_wf fs" and d: "fs d = Some NDir" and cfg: "image_dir cfg = d" and allow: "allow_delete cfg"
    and arch: "fs (d @ [''.archive'']) \<in> {None, Some NDir}"
    and fl: "fs (p @ [x]) = Some (NFile k)" and bak: "fs (p @ [x @ ''.bak'']) \<noteq> Some NDir"
    and m: "length d < m"
  shows "\<exists>fs'. delete_images cfg fs (del_body [PyStr (path_str (replicate m ''..'' @ p @ [x]))]) = (fs', DelOk) \<and>
           fs' (p @ [x]) = None \<and> fs' (p @ [x @ ''.bak'']) = Some (NFile k) \<and>
           (\<forall>r. r \<notin> {p @ [x], p @ [x @ ''.bak''], d @ [''.archive'']} \<longrightarrow> fs' r = fs r)"
proof -
  let ?fs1 = "archive_start d fs" and ?q = "p @ [x]" and ?pd = "p @ [x @ ''.bak'']"
  let ?name = "path_str (replicate m ''..'' @ p @ [x])"
  have r: "archive_ready d ?fs1 []"
    using archive_start_ready [OF wf d arch] by simp
  then have wf1: "fs_wf ?fs1" and a1: "?fs1 (d @ [''.archive'']) = Some NDir"
    by (simp_all add: archive_ready_def)
  have vd: "list_all valid_name d"
    using wf_valid_names [OF wf, of d] d by simp
  have qa: "?q \<noteq> d @ [''.archive'']"
    using fl arch by auto
  have "last (x @ ''.bak'') \<noteq> last ''.archive''"
    by simp
  then have pa: "?pd \<noteq> d @ [''.archive'']"
    by auto
  have q1: "?fs1 ?q = Some (NFile k)" and pd1: "?fs1 ?pd \<noteq> Some NDir"
    using fl bak qa pa by (simp_all add: archive_start_at)
  have p1: "?fs1 p = Some NDir" and vx: "valid_name x"
    using wf_parent [OF wf1, of p x] q1 by simp_all
  have ne: "?pd \<noteq> ?q"
    by simp
  note str = traversal_strings [OF vd cfg, of m p x] and res = traversal_resolve [OF wf1 a1 p1 vx m]
  have "delete_loop cfg ?fs1 [PyStr ?name] = (move_tree ?fs1 ?q ?pd, None)"
    using m str res q1 shutil_move_file [OF res q1 pd1 ne] by (simp add: path_exists_def)
  then have run: "delete_images cfg fs (del_body [PyStr ?name]) = (move_tree ?fs1 ?q ?pd, DelOk)"
    using delete_images_spec [OF wf d cfg allow arch, of "[]" "[PyStr ?name]"]
    by (simp add: del_body_def archive_spec_def)
  have "move_tree ?fs1 ?q ?pd r = fs r" if "r \<notin> {?q, ?pd, d @ [''.archive'']}" for r
    using move_tree_file_frame [OF wf1 q1 pd1, of r] that by (simp add: archive_start_at)
  then show ?thesis
    using run move_tree_file_src [OF wf1 q1 pd1 ne] q1 by auto
qed

theorem delete_images_traversal_witness:
  "\<exists>fs'. delete_images ex_cfg ex_fs_etc (del_body [PyStr ''/../../../etc/passwd'']) = (fs', DelOk) \<and>
     fs' [''etc'', ''passwd''] = None \<and> fs' [''etc'', ''passwd.bak''] = Some (NFile 9) \<and>
     fs' [''home'', ''pics'', ''a.png''] = Some (NFile 7)"
proof -
  let ?d = "[''home'', ''pics'']"
  have wf0: "fs_wf (ex_fs([''etc''] \<mapsto> NDir))"
    using wf_add_dir [OF ex_fs_wf, of "[]" "''etc''"] by (simp add: ex_fs_def valid_name_def)
  have wf: "fs_wf ex_fs_etc"
    unfolding ex_fs_etc_def
    using wf_add_file [OF wf0, of "[''etc'']" "''passwd''" 9] by (simp add: ex_fs_def valid_name_def)
  have h: "ex_fs_etc ?d = Some NDir" "image_dir ex_cfg = ?d" "allow_delete ex_cfg"
    "ex_fs_etc (?d @ [''.archive'']) \<in> {None, Some NDir}"
    "ex_fs_etc ([''etc''] @ [''passwd'']) = Some (NFile 9)"
    "ex_fs_etc ([''etc''] @ [''passwd'' @ ''.bak'']) \<noteq> Some NDir" "length ?d < 3"
    by (simp_all add: ex_fs_etc_def ex_fs_def ex_cfg_def)
  have s: "path_str (replicate 3 ''..'' @ [''etc''] @ [''passwd'']) = ''/../../../etc/passwd''"
    by (simp add: path_str_def numeral_3_eq_3)
  obtain fs' where run: "delete_images ex_cfg ex_fs_etc (del_body [PyStr ''/../../../etc/passwd'']) = (fs', DelOk)"
    and gone: "fs' [''etc'', ''passwd''] = None" and moved: "fs' [''etc'', ''passwd.bak''] = Some (NFile 9)"
    and frame: "\<forall>r. r \<notin> {[''etc''] @ [''passwd''], [''etc''] @ [''passwd'' @ ''.bak''], ?d @ [''.archive'']} \<longrightarrow>
                  fs' r = ex_fs_etc r"
    using delete_images_traversal [OF wf h] s by auto
  have "fs' [''home'', ''pics'', ''a.png''] = Some (NFile 7)"
    using spec [OF frame, of "[''home'', ''pics'', ''a.png'']"] by (simp add: ex_fs_etc_def ex_fs_def)
  then show ?thesis
    using run gone moved by blast
qed

end
