(* ===== verification/GalleryClient.thy ===== *)
theory GalleryClient
  imports GalleryDelete
begin

text \<open>
  The gallery's client script (flask_img_viewer.py lines 83-148) as a state machine. The
  state is what the script reads and writes: the constant \<open>imageList\<close> (the page's images,
  line 84), \<open>currentIndex\<close>, the inline \<open>style.display\<close> of the modal, the body's
  \<open>style.overflow\<close> and the \<open>src\<close> of the modal image. The user's actions are the clicks
  the page offers and the keys of the \<open>keydown\<close> listener; while the modal is shown it
  covers the page (fixed, full size, \<open>z-index: 1000\<close>, line 30), so only its own
  elements can be clicked. The checkboxes and the batch delete (lines 124-145) are modelled
  as the request body they post.
\<close>

section \<open>State and operations (lines 84-122)\<close>

record modal =
  image_list :: "string list"
  current_index :: int
  modal_display :: string
  body_overflow :: string
  modal_src :: string

text \<open>\<open>imageList[i]\<close>: out of range a JavaScript array gives \<open>undefined\<close>, which string
  concatenation prints as \<open>undefined\<close>.\<close>

definition js_index :: "string list \<Rightarrow> int \<Rightarrow> string" where
  "js_index xs i = (if 0 \<le> i \<and> i < int (length xs) then xs ! nat i else ''undefined'')"

text \<open>The page as loaded: \<open>currentIndex = 0\<close>, no inline styles, no source.\<close>

definition client_init :: "string list \<Rightarrow> modal" where
  "client_init xs = \<lparr>image_list = xs, current_index = 0, modal_display = [], body_overflow = [], modal_src = []\<rparr>"

definition update_modal_image :: "modal \<Rightarrow> modal" where
  "update_modal_image s = s\<lparr>modal_src := ''/images/'' @ js_index (image_list s) (current_index s)\<rparr>"

definition open_modal :: "modal \<Rightarrow> int \<Rightarrow> modal" where
  "open_modal s index =
     update_modal_image (s\<lparr>current_index := index, modal_display := ''block'', body_overflow := ''hidden''\<rparr>)"

definition close_modal :: "modal \<Rightarrow> modal" where
  "close_modal s = s\<lparr>modal_display := ''none'', body_overflow := ''auto''\<rparr>"

definition change_image :: "modal \<Rightarrow> int \<Rightarrow> modal" where
  "change_image s dir =
     (let c0 = current_index s + dir;
          c1 = (if c0 < 0 then int (length (image_list s)) - 1 else c0);
          c2 = (if c1 \<ge> int (length (image_list s)) then 0 else c1)
      in update_modal_image (s\<lparr>current_index := c2\<rparr>))"

datatype key = ArrowLeft | ArrowRight | Escape | OtherKey string

definition keydown :: "modal \<Rightarrow> key \<Rightarrow> modal" where
  "keydown s k =
     (if modal_display s = ''block'' then
        (case k of
           ArrowLeft \<Rightarrow> change_image s (-1)
         | ArrowRight \<Rightarrow> change_image s 1
         | Escape \<Rightarrow> close_modal s
         | OtherKey _ \<Rightarrow> s)
      else s)"

section \<open>The user's actions\<close>

text \<open>A click on the \<open>i\<close>-th tile's image (\<open>openModal({{ loop.index0 }})\<close>, line 59) while the
  modal is not shown; a click on an arrow (lines 79, 81) or on the image (line 80) of the
  shown modal; a key press, which the listener always receives.\<close>

inductive client_step :: "modal \<Rightarrow> modal \<Rightarrow> bool" where
  click_tile: "modal_display s \<noteq> ''block'' \<Longrightarrow> i < length (image_list s) \<Longrightarrow> client_step s (open_modal s (int i))"
| click_left: "modal_display s = ''block'' \<Longrightarrow> client_step s (change_image s (-1))"
| click_right: "modal_display s = ''block'' \<Longrightarrow> client_step s (change_image s 1)"
| click_image: "modal_display s = ''block'' \<Longrightarrow> client_step s (close_modal s)"
| key_press: "client_step s (keydown s k)"

text \<open>A session on a loaded page: any number of actions.\<close>

definition client_reachable :: "string list \<Rightarrow> modal \<Rightarrow> bool" where
  "client_reachable xs s \<longleftrightarrow> client_step\<^sup>*\<^sup>* (client_init xs) s"

text \<open>The invariant: while the modal is shown, the index is in range and the modal shows
  that image, with page scrolling disabled.\<close>

definition modal_ok :: "modal \<Rightarrow> bool" where
  "modal_ok s \<longleftrightarrow>
     (modal_display s = ''block'' \<longrightarrow>
        0 \<le> current_index s \<and> current_index s < int (length (image_list s)) \<and>
        modal_src s = ''/images/'' @ image_list s ! nat (current_index s) \<and>
        body_overflow s = ''hidden'')"

section \<open>The batch delete (lines 124-145)\<close>

text \<open>The value the browser reads from each checkbox (\<open>value="{{ image }}"\<close>, line 58)
  is the attribute with its character references decoded.\<close>

definition checked_values :: "tile list \<Rightarrow> bool list \<Rightarrow> string list" where
  "checked_values ts checks = map (\<lambda>(t, c). html_unescape (tile_value t)) (filter snd (zip ts checks))"

text \<open>\<open>updateUI\<close>: the button is disabled exactly when nothing is checked, and shows the
  count.\<close>

definition update_ui :: "bool list \<Rightarrow> bool \<times> string" where
  "update_ui checks =
     (let n = length (filter id checks) in (n = 0, ''Delete Selected ('' @ show_nat n @ '')''))"

text \<open>\<open>handleBatchDelete\<close> and \<open>executeDelete\<close>: after the confirmation, the JSON body
  \<open>{"filenames": [...]}\<close> of the POST to \<open>/delete\<close>; \<open>None\<close> when the user cancels.\<close>

definition execute_delete :: "string list \<Rightarrow> pyval option" where
  "execute_delete files = del_body (map PyStr files)"

definition handle_batch_delete :: "tile list \<Rightarrow> bool list \<Rightarrow> bool \<Rightarrow> pyval option option" where
  "handle_batch_delete ts checks confirmed =
     (if confirmed then Some (execute_delete (checked_values ts checks)) else None)"

section \<open>Properties of the modal\<close>

lemma js_index_ok [simp]: "0 \<le> i \<Longrightarrow> i < int (length xs) \<Longrightarrow> js_index xs i = xs ! nat i"
  by (simp add: js_index_def)

lemma change_image_list [simp]: "image_list (change_image s d) = image_list s"
  by (simp add: change_image_def Let_def update_modal_image_def)

lemma change_image_display [simp]: "modal_display (change_image s d) = modal_display s"
  by (simp add: change_image_def Let_def update_modal_image_def)

lemma change_image_overflow [simp]: "body_overflow (change_image s d) = body_overflow s"
  by (simp add: change_image_def Let_def update_modal_image_def)

text \<open>One arrow step from an index in range wraps around and stays in range.\<close>

lemma change_image_index:
  assumes c: "0 \<le> current_index s" "current_index s < int (length (image_list s))" and d: "d \<in> {-1, 1}"
  shows "current_index (change_image s d) = (current_index s + d) mod int (length (image_list s))"
proof -
  let ?n = "int (length (image_list s))" and ?c = "current_index s"
  have cur: "current_index (change_image s d) =
      (if (if ?c + d < 0 then ?n - 1 else ?c + d) \<ge> ?n then 0 else (if ?c + d < 0 then ?n - 1 else ?c + d))"
    by (simp add: change_image_def Let_def update_modal_image_def)
  consider "d = 1" "?c + 1 < ?n" | "d = 1" "?c + 1 = ?n" | "d = -1" "?c = 0" | "d = -1" "0 < ?c"
    using c d by fastforce
  then show ?thesis
  proof cases
    case 3
    have "(?c + d) mod ?n = (?n - 1) mod ?n"
      using 3 mod_add_self2 [of "-1" ?n] by (simp only: add.commute diff_conv_add_uminus) simp
    also have "\<dots> = ?n - 1"
      using c by (intro mod_pos_pos_trivial) linarith+
    finally show ?thesis
      using cur 3 c by simp
  qed (use cur c in \<open>simp_all add: mod_pos_pos_trivial\<close>)
qed

lemma change_image_ok:
  assumes "modal_ok s" "modal_display s = ''block''" "d \<in> {-1, 1}"
  shows "modal_ok (change_image s d)"
proof -
  let ?n = "int (length (image_list s))"
  have r: "0 \<le> current_index s" "current_index s < ?n" "body_overflow s = ''hidden''"
    using assms(1,2) by (simp_all add: modal_ok_def)
  then have pos: "0 < ?n"
    by linarith
  have i: "current_index (change_image s d) = (current_index s + d) mod ?n"
    using change_image_index [OF r(1,2) assms(3)] .
  have "0 \<le> current_index (change_image s d)" "current_index (change_image s d) < ?n"
    using pos by (simp_all add: i)
  moreover have "modal_src (change_image s d) =
      ''/images/'' @ js_index (image_list s) (current_index (change_image s d))"
    by (simp add: change_image_def Let_def update_modal_image_def)
  ultimately show ?thesis
    using r by (simp add: modal_ok_def)
qed

lemma client_step_list: "client_step s s' \<Longrightarrow> image_list s' = image_list s"
  by (induction rule: client_step.induct)
    (auto simp: keydown_def open_modal_def close_modal_def update_modal_image_def split: key.split)

lemma client_step_ok: "client_step s s' \<Longrightarrow> modal_ok s \<Longrightarrow> modal_ok s'"
proof (induction rule: client_step.induct)
  case (click_tile s i)
  then show ?case
    by (simp add: modal_ok_def open_modal_def update_modal_image_def)
next
  case (key_press s k)
  show ?case
  proof (cases "modal_display s = ''block''")
    case True
    then show ?thesis
      using key_press change_image_ok [OF key_press.prems True, of "-1"] change_image_ok [OF key_press.prems True, of 1]
      by (cases k) (simp_all add: keydown_def close_modal_def modal_ok_def)
  qed (use key_press in \<open>simp add: keydown_def\<close>)
next
  case (click_left s)
  then show ?case by (intro change_image_ok) simp_all
next
  case (click_right s)
  then show ?case by (intro change_image_ok) simp_all
next
  case (click_image s)
  then show ?case by (simp add: close_modal_def modal_ok_def)
qed

lemma keydown_right: "modal_display s = ''block'' \<Longrightarrow> keydown s ArrowRight = change_image s 1"
  by (simp add: keydown_def)

lemma client_init_ok: "modal_ok (client_init xs)"
  by (simp add: modal_ok_def client_init_def)

text \<open>\<open>k\<close> presses of the right arrow on the shown modal advance the index by \<open>k\<close>, cyclically.\<close>

lemma arrow_right_iter:
  assumes "modal_ok s" "modal_display s = ''block''"
  shows "modal_ok (((\<lambda>t. keydown t ArrowRight) ^^ k) s) \<and>
         modal_display (((\<lambda>t. keydown t ArrowRight) ^^ k) s) = ''block'' \<and>
         image_list (((\<lambda>t. keydown t ArrowRight) ^^ k) s) = image_list s \<and>
         current_index (((\<lambda>t. keydown t ArrowRight) ^^ k) s) =
           (current_index s + int k) mod int (length (image_list s))"
proof (induction k)
  case 0
  have "0 \<le> current_index s" "current_index s < int (length (image_list s))"
    using assms by (simp_all add: modal_ok_def)
  then show ?case
    using assms by (simp add: mod_pos_pos_trivial)
next
  case (Suc k)
  let ?t = "((\<lambda>t. keydown t ArrowRight) ^^ k) s"
  have ok: "modal_ok ?t" and disp: "modal_display ?t = ''block''" and lst: "image_list ?t = image_list s"
    and idx: "current_index ?t = (current_index s + int k) mod int (length (image_list s))"
    using Suc.IH by blast+
  have r: "0 \<le> current_index ?t" "current_index ?t < int (length (image_list ?t))"
    using ok disp unfolding modal_ok_def by blast+
  have "current_index (change_image ?t 1) = (current_index s + int (Suc k)) mod int (length (image_list s))"
    using change_image_index [OF r, of 1] idx lst by (simp add: mod_simps ac_simps)
  then show ?case
    using change_image_ok [OF ok disp, of 1] disp lst by (simp add: keydown_right)
qed

section \<open>Properties of the client\<close>

text \<open>C32: In every state a session can reach, the modal, whenever it is shown, holds an
  index inside \<open>imageList\<close> and shows that image, with scrolling disabled; the list
  itself never changes. The wrap-around of \<open>changeImage\<close> keeps the index in range.\<close>

theorem client_modal_invariant:
  "client_reachable xs s \<Longrightarrow> modal_ok s \<and> image_list s = xs"
  unfolding client_reachable_def
proof (induction rule: rtranclp_induct)
  case base
  then show ?case
    by (simp add: client_init_ok) (simp add: client_init_def)
next
  case (step s s')
  then show ?case
    using client_step_ok client_step_list by metis
qed

theorem client_modal_invariant_witness:
  "client_reachable [''a.png'', ''b.png''] (keydown (open_modal (client_init [''a.png'', ''b.png'']) 1) ArrowRight) \<and>
   modal_ok (keydown (open_modal (client_init [''a.png'', ''b.png'']) 1) ArrowRight) \<and>
   current_index (keydown (open_modal (client_init [''a.png'', ''b.png'']) 1) ArrowRight) = 0 \<and>
   modal_src (keydown (open_modal (client_init [''a.png'', ''b.png'']) 1) ArrowRight) = ''/images/a.png''"
proof -
  let ?s0 = "client_init [''a.png'', ''b.png'']"
  have "client_step ?s0 (open_modal ?s0 1)"
    using click_tile [of ?s0 1] by (simp add: client_init_def)
  moreover have "client_step (open_modal ?s0 1) (keydown (open_modal ?s0 1) ArrowRight)"
    by (rule key_press)
  ultimately have r: "client_reachable [''a.png'', ''b.png''] (keydown (open_modal ?s0 1) ArrowRight)"
    unfolding client_reachable_def by (meson converse_rtranclp_into_rtranclp r_into_rtranclp)
  then show ?thesis
    using client_modal_invariant [OF r]
    by (simp add: keydown_def open_modal_def update_modal_image_def client_init_def change_image_def js_index_def)
qed

text \<open>C33: From any shown image, pressing the right arrow often enough reaches every other
  image of the page: for each position \<open>j\<close> some number of presses leaves the modal
  shown on \<open>imageList[j]\<close>.\<close>

theorem arrow_right_reaches_all:
  assumes "modal_ok s" "modal_display s = ''block''" "j < length (image_list s)"
  shows "\<exists>k. modal_display (((\<lambda>t. keydown t ArrowRight) ^^ k) s) = ''block'' \<and>
             current_index (((\<lambda>t. keydown t ArrowRight) ^^ k) s) = int j \<and>
             modal_src (((\<lambda>t. keydown t ArrowRight) ^^ k) s) = ''/images/'' @ image_list s ! j"
proof -
  let ?n = "int (length (image_list s))" and ?c = "current_index s"
  let ?k = "nat ((int j - ?c) mod ?n)"
  have pos: "0 < ?n"
    using assms(3) by auto
  have "(?c + int ?k) mod ?n = (?c + (int j - ?c)) mod ?n"
    using pos by (simp add: mod_add_right_eq)
  also have "\<dots> = int j"
    using assms(3) by simp
  finally have idx: "(?c + int ?k) mod ?n = int j" .
  show ?thesis
    using arrow_right_iter [OF assms(1,2), of ?k] idx by (auto simp: modal_ok_def)
qed

theorem arrow_right_reaches_all_witness:
  "\<exists>k. modal_display (((\<lambda>t. keydown t ArrowRight) ^^ k) (open_modal (client_init [''a.png'', ''b.png'', ''c.png'']) 2)) = ''block'' \<and>
       current_index (((\<lambda>t. keydown t ArrowRight) ^^ k) (open_modal (client_init [''a.png'', ''b.png'', ''c.png'']) 2)) = 1 \<and>
       modal_src (((\<lambda>t. keydown t ArrowRight) ^^ k) (open_modal (client_init [''a.png'', ''b.png'', ''c.png'']) 2)) = ''/images/b.png''"
proof -
  let ?s = "open_modal (client_init [''a.png'', ''b.png'', ''c.png'']) 2"
  have h: "modal_ok ?s" "modal_display ?s = ''block''" "1 < length (image_list ?s)"
    by (simp_all add: modal_ok_def open_modal_def update_modal_image_def client_init_def js_index_def)
  have l: "image_list ?s ! 1 = ''b.png''"
    by (simp add: open_modal_def update_modal_image_def client_init_def)
  show ?thesis
    using arrow_right_reaches_all [OF h] l by simp
qed

end
