(* ===== verification/Spec2Isabelle.thy ===== *)
theory Spec2Isabelle
  imports HubPage GalleryClient
begin

text \<open>
  \<^bold>\<open>A verification library for the dashboards of 1teenarp/dotfiles.\<close>

  The repository holds two independent Flask programs. The Model Hub
  (\<open>src/run/llama-server/app.py\<close>) lists the inference services of \<open>models.yaml\<close>:
  per request, \<open>get_live_data\<close> reloads the file, asks tmux whether the session
  \<open>svc-<name>\<close> of each service exists, builds a reference URL from the request's
  scheme and host and the service's port, and dumps each record as JSON; \<open>index\<close>
  renders the records with a GPU snapshot from \<open>get_nvtop_output\<close>. The image
  gallery (\<open>src/run/flask_img_viewer.py\<close>) is started by its \<open>__main__\<close> block with
  a directory and a delete flag; \<open>index\<close> pages through the directory's images, the
  page's script shows them in a modal viewer and posts deletions to \<open>delete_images\<close>,
  which moves each named file to \<open>IMAGE_DIR/.archive/.name.bak\<close>. The specification
  covers the Model Hub's aggregation; the rest is modelled from the source.

  \<^bold>\<open>Layout.\<close>
  \<^item> \<open>Prelude\<close>: Python exceptions as the type \<open>py_exc\<close>, fallible steps as
    \<open>'a py_result = py_exc + 'a\<close> chained by \<open>res_bind\<close> (rules in the collection
    \<open>py_result_simps\<close>), \<open>str(int)\<close> as \<open>show_int\<close>, \<open>str.join\<close> as \<open>join\<close>.
  \<^item> \<open>PyValue\<close>: the values \<open>yaml.safe_load\<close> and \<open>request.get_json\<close> produce
    (\<open>pyval\<close>), dictionaries as association lists in insertion order with Python's key
    equality, \<open>obj[k]\<close>, \<open>obj[k] = v\<close>, iteration, truthiness, \<open>str()\<close>, \<open>repr()\<close>.
  \<^item> \<open>PyString\<close>: \<open>str.split\<close>, \<open>lower\<close>, \<open>startswith\<close>, \<open>endswith\<close>, \<open>strip\<close>
    and \<open>int(s)\<close> on strings.
  \<^item> \<open>Json\<close>: \<open>json.dumps(v, indent=2)\<close> as CPython's encoder computes it.
  \<^item> \<open>ModelHub\<close>: \<open>get_live_data\<close> (app.py lines 47-71) as \<open>load_models\<close> (49-57),
    \<open>probe_active\<close>/\<open>probe_step\<close>/\<open>probe_loop\<close> (59-64), \<open>host_name\<close>,
    \<open>port_value\<close>, \<open>model_url\<close> (69), \<open>enrich_cfg\<close>/\<open>enrich_loop\<close> (68-70). Its
    environment \<open>hub_env\<close> is the outcome of loading the file, of each
    \<open>tmux has-session\<close> and the request's scheme and Host header; a run returns the
    tmux targets it probed, in order, and the value or the exception that escapes.
  \<^item> \<open>Ansi\<close>: \<open>get_nvtop_output\<close> (lines 23-41): the outcomes of
    \<open>subprocess.check_output\<close>, the message of \<open>CalledProcessError\<close>, and the pattern
    of line 36 both as a regular expression (\<open>rx_match\<close>, with Python's leftmost
    \<open>re.sub\<close> as the inductive \<open>re_sub\<close>) and as the one-pass scanner \<open>ansi_strip\<close>.
  \<^item> \<open>Jinja\<close>: attribute lookup, truthiness and autoescaping (\<open>html_escape\<close>) of
    \<open>render_template_string\<close>, and the browser's decoding \<open>html_unescape\<close>.
  \<^item> \<open>HubPage\<close>: \<open>index\<close> (lines 77-174) as \<open>hub_index\<close>: the monitor text and one
    \<open>card\<close> per model with the text of every placeholder of lines 135-167.
  \<^item> \<open>FileSys\<close>: a file system as a map from normalised absolute paths to files and
    directories, path strings resolved component by component, \<open>os.path.join\<close>,
    \<open>exists\<close>, \<open>isdir\<close>, \<open>os.makedirs\<close>, \<open>os.rename\<close> and \<open>shutil.move\<close>, as the
    delete calls them; the well-formedness \<open>fs_wf\<close> and its preservation by moves.
  \<^item> \<open>Gallery\<close>: the \<open>__main__\<close> block (\<open>gallery_main\<close>, lines 202-213), the listing
    filter and order, the pagination arithmetic with Python's \<open>math.ceil\<close> and slicing,
    and the page the template writes (\<open>gallery_index\<close>, lines 152-175 and 9-150).
  \<^item> \<open>GalleryDelete\<close>: \<open>delete_images\<close> (lines 182-200) as a transformer of the file
    system returning the HTTP answer; \<open>archive_spec\<close> is its abstract effect on plain
    names (\<open>archive_one\<close> per name on normalised paths).
  \<^item> \<open>GalleryClient\<close>: the script of lines 83-145: the modal's state (\<open>modal\<close>),
    \<open>openModal\<close>, \<open>closeModal\<close>, \<open>changeImage\<close>, the \<open>keydown\<close> listener, the user's
    actions as the step relation \<open>client_step\<close>, and the body the batch delete posts.

  \<^bold>\<open>What is proved.\<close>
  \<^item> Model Hub (C1-C11): refinement of the specification's view (\<open>get_live_data_refines\<close>);
    key preservation, isolation of entries, the empty view exactly for the early returns
    of the configuration loading, the URL rules (host cut at its first colon, \<open>:0\<close> for a
    missing port, \<open>str()\<close> of a present one, so a null port gives \<open>:None\<close>); the error
    paths: everything after line 57 is outside the \<open>try\<close>, so an entry that is not a
    mapping, a missing tmux, or a value \<open>json.dumps\<close> cannot encode make the request fail;
    \<open>json.dumps\<close> raises, always \<open>TypeError\<close>, exactly on dates and bad keys, and writes
    printable ASCII and newlines only.
  \<^item> GPU monitor (C12-C18): the scanner equals Python's \<open>re.sub\<close> with the pattern
    (equivalence); stripping only deletes; which escapes survive one pass: an interrupted
    \<open>ESC [\<close> stays and joins what follows a complete sequence, OSC titles stay; the
    error message on a non-zero exit.
  \<^item> Model Hub page (C19-C20): the page refines the view, and every placeholder is free
    of markup characters.
  \<^item> Gallery page (C21-C26): the pages partition the listing; \<open>limit=0\<close> raises; the
    listing filter and order; the JavaScript context of the delete button; non-positive
    pages; the script-safety of the image list.
  \<^item> Archive delete (C27-C31): on distinct plain names of files the request refines
    \<open>archive_spec\<close>, moves each file to its backup and changes nothing else; the command
    line's flag decides the 403; a non-string entry raises after the earlier moves;
    an older backup is overwritten and its contents lost; a name of the form
    \<open>/../..(m times)/p/x\<close> renames any file \<open>p/x\<close> of the file system.
  \<^item> Client (C32-C33): by rule induction over \<open>client_step\<close>, the shown modal always
    holds an index in range and its image; the right arrow reaches every image.

  \<^bold>\<open>Modelling choices.\<close> Characters are 8-bit (Latin-1 code points); Python integers
  and the script's \<open>currentIndex\<close> (a JavaScript number, exact at these sizes) are
  \<open>int\<close>; all loops are structural recursion over finite lists, so every function is
  total and no fuel is needed. The file system has no links, permissions or devices, so
  \<open>shutil.move\<close> is always a rename; a file is identified by its contents (a number).
  YAML values are trees: floats, byte strings, sets and aliases (one object shared by two
  entries, which Python's in-place update of \<open>active\<close> would let interfere) are outside
  \<open>pyval\<close>, so the results on \<open>json.dumps\<close> and the isolation of entries hold on that
  domain. Python's \<open>math.ceil\<close> of a float quotient is the exact ceiling below \<open>2^53\<close>
  files.

  \<^bold>\<open>Not modelled.\<close> Flask routing and the HTTP servers (\<open>app.run\<close>), \<open>serve_image\<close>
  (one call of Flask's \<open>send_from_directory\<close>, whose path checks are Flask's), the
  reading of \<open>models.yaml\<close> and YAML parsing (their outcome is an input), the static
  HTML and CSS of the templates, \<open>fetch\<close>, \<open>confirm\<close> and \<open>location.reload\<close> in the
  browser, UTF-8 decoding of subprocess output.
\<close>

end
